(* ===== verification/Cassino_Prelude.thy ===== *)
theory Cassino_Prelude
  imports Main "HOL-Library.Word" "HOL-Library.Multiset" "HOL-Library.Sublist"
begin

text \<open>
  Shared vocabulary of the development: the Go types the program uses (\<open>int64\<close> money,
  strings, time stamps), the functions of Go's \<open>strings\<close> package it calls, the insertion
  sort loop that both \<open>Room.Players\<close> and \<open>Round.Bets\<close> spell out, and the general
  lemmas on machine integers, lists and results that the component theories rest on.

  Strings are byte strings; white space and case are those of ASCII.  Time stamps are
  integers counting microseconds, the resolution of the \<open>timestamptz\<close> columns, and
  \<open>time.Time.UTC\<close> is the identity on them.
\<close>

named_theorems ok_inv \<open>inversion of a successful result\<close>
named_theorems frame_simps \<open>what an operation leaves unchanged\<close>
named_theorems go_consts \<open>the string constants of the source\<close>

section \<open>Go types\<close>

type_synonym int64 = "64 word"
type_synonym int32 = "32 word"
type_synonym time = int
type_synonym duration = int
type_synonym id = string

text \<open>\<open>time.Second\<close> and its multiples, in microseconds.\<close>

definition Second :: duration where
  "Second = 1000000"

definition Hour :: duration where
  "Hour = 3600 * Second"

section \<open>Signed 64-bit arithmetic\<close>

text \<open>Go's integer division truncates toward zero and wraps on overflow.\<close>

definition i64_div :: "int64 \<Rightarrow> int64 \<Rightarrow> int64" where
  "i64_div a b = word_of_int (sgn (sint a) * sgn (sint b) * (\<bar>sint a\<bar> div \<bar>sint b\<bar>))"

definition fits64 :: "int \<Rightarrow> bool" where
  "fits64 x \<longleftrightarrow> - (2 ^ 63) \<le> x \<and> x < 2 ^ 63"

lemma fits64_sint [simp, intro]: "fits64 (sint (a :: int64))"
  using sint_ge [of a] sint_lt [of a] by (simp add: fits64_def)

lemma sint64_bounds:
  "- 9223372036854775808 \<le> sint (a :: int64)" "sint (a :: int64) \<le> 9223372036854775807"
  using fits64_sint [of a] by (simp_all add: fits64_def)

lemma sint64_of_int: "fits64 x \<Longrightarrow> sint (word_of_int x :: int64) = x"
  by (simp add: sint_sbintrunc' signed_take_bit_int_eq_self fits64_def)

lemma sint64_add: "fits64 (sint a + sint b) \<Longrightarrow> sint (a + b :: int64) = sint a + sint b"
  by (simp add: sint_word_add signed_take_bit_int_eq_self fits64_def)

lemma sint64_diff: "fits64 (sint a - sint b) \<Longrightarrow> sint (a - b :: int64) = sint a - sint b"
  by (simp add: sint_word_diff signed_take_bit_int_eq_self fits64_def)

lemma sint64_mult: "fits64 (sint a * sint b) \<Longrightarrow> sint (a * b :: int64) = sint a * sint b"
  by (simp add: sint_word_mult signed_take_bit_int_eq_self fits64_def)

lemma sint64_inject: "sint (a :: int64) = sint b \<longleftrightarrow> a = b"
  by (auto intro: signed_word_eqI)

text \<open>
  Adding a positive amount to a non-negative value either is exact or wraps to a negative
  value: an overflow is always visible in the sign.
\<close>

lemma sint64_add_overflow:
  assumes "0 \<le> sint (a :: int64)" and "0 \<le> sint b" and "\<not> fits64 (sint a + sint b)"
  shows "sint (a + b) = sint a + sint b - 2 ^ 64" and "sint (a + b) < 0"
proof -
  have big: "2 ^ 63 \<le> sint a + sint b"
    using assms by (simp add: fits64_def)
  have small: "sint a + sint b < 2 ^ 64"
    using sint64_bounds(2) [of a] sint64_bounds(2) [of b] by simp
  have "sint (a + b) = (sint a + sint b + 2 ^ 63) mod 2 ^ 64 - 2 ^ 63"
    by (simp add: sint_word_add signed_take_bit_eq_take_bit_shift take_bit_eq_mod)
  also have "(sint a + sint b + 2 ^ 63) mod 2 ^ 64 = sint a + sint b + 2 ^ 63 - 2 ^ 64"
    using big small by (subst mod_pos_geq) auto
  finally show "sint (a + b) = sint a + sint b - 2 ^ 64"
    by simp
  then show "sint (a + b) < 0"
    using small by simp
qed

lemma sint64_add_nonneg_iff:
  assumes "0 \<le> sint (a :: int64)" and "0 \<le> sint b"
  shows "0 \<le> sint (a + b) \<longleftrightarrow> fits64 (sint a + sint b)"
  using assms sint64_add [of a b] sint64_add_overflow(2) [of a b] by fastforce

lemma sint64_diff_nonneg:
  assumes "0 \<le> sint (b :: int64)" and "sint b \<le> sint (a :: int64)"
  shows "sint (a - b) = sint a - sint b"
  using assms sint64_bounds [of a] sint64_bounds [of b]
  by (intro sint64_diff) (simp add: fits64_def)

section \<open>Go's strings package\<close>

definition is_space :: "char \<Rightarrow> bool" where
  "is_space c \<longleftrightarrow> (of_char c :: nat) \<in> {9, 10, 11, 12, 13, 32}"

definition TrimSpace :: "string \<Rightarrow> string" where
  "TrimSpace s = rev (dropWhile is_space (rev (dropWhile is_space s)))"

definition lower_char :: "char \<Rightarrow> char" where
  "lower_char c =
     (let n = (of_char c :: nat) in if 65 \<le> n \<and> n \<le> 90 then char_of (n + 32) else c)"

definition ToLower :: "string \<Rightarrow> string" where
  "ToLower s = map lower_char s"

text \<open>\<open>strings.Index\<close> and \<open>strings.LastIndex\<close> of a one-character string; -1 when absent.\<close>

fun Index :: "string \<Rightarrow> char \<Rightarrow> int" where
  "Index [] c = - 1"
| "Index (x # xs) c =
     (if x = c then 0 else (let i = Index xs c in if i < 0 then - 1 else i + 1))"

definition LastIndex :: "string \<Rightarrow> char \<Rightarrow> int" where
  "LastIndex s c =
     (let i = Index (rev s) c in if i < 0 then - 1 else int (length s) - 1 - i)"

fun Contains :: "string \<Rightarrow> string \<Rightarrow> bool" where
  "Contains [] sub = (sub = [])"
| "Contains (x # xs) sub = (prefix sub (x # xs) \<or> Contains xs sub)"

definition ContainsAny :: "string \<Rightarrow> char list \<Rightarrow> bool" where
  "ContainsAny s cs = list_ex (\<lambda>c. c \<in> set cs) s"

text \<open>An identifier is blank when nothing is left of it after trimming.\<close>

definition blank :: "string \<Rightarrow> bool" where
  "blank s \<longleftrightarrow> TrimSpace s = []"

lemma TrimSpace_Nil_iff: "TrimSpace s = [] \<longleftrightarrow> (\<forall>c \<in> set s. is_space c)"
proof (cases "\<forall>c \<in> set s. is_space c")
  case False
  then have d: "dropWhile is_space s \<noteq> []" by simp
  from hd_dropWhile [OF d] hd_in_set [OF d]
  have "\<exists>c \<in> set (rev (dropWhile is_space s)). \<not> is_space c" by auto
  with False show ?thesis
    unfolding TrimSpace_def rev_is_Nil_conv dropWhile_eq_Nil_conv by blast
next
  case True
  then have d: "dropWhile is_space s = []" by simp
  have "TrimSpace s = []" unfolding TrimSpace_def d by simp
  with True show ?thesis by blast
qed

lemma blank_iff: "blank s \<longleftrightarrow> (\<forall>c \<in> set s. is_space c)"
  by (simp add: blank_def TrimSpace_Nil_iff)

lemma blank_Nil [simp]: "blank []"
  by (simp add: blank_iff)

lemma not_blank_Cons: "\<not> is_space c \<Longrightarrow> \<not> blank (c # s)"
  by (simp add: blank_iff)

lemma set_dropWhile_subset: "set (dropWhile P xs) \<subseteq> set xs"
  by (auto dest: set_dropWhileD)

lemma set_TrimSpace: "set (TrimSpace s) \<subseteq> set s"
  using set_dropWhile_subset [of is_space s]
    set_dropWhile_subset [of is_space "rev (dropWhile is_space s)"]
  unfolding TrimSpace_def set_rev by blast

lemma dropWhile_rev_hd:
  "\<not> P (hd s) \<Longrightarrow> s \<noteq> [] \<Longrightarrow> hd (rev (dropWhile P (rev s))) = hd s \<and> dropWhile P (rev s) \<noteq> []"
  by (cases s) (auto simp: dropWhile_append dropWhile_eq_Nil_conv hd_append)

lemma TrimSpace_hd: "TrimSpace s \<noteq> [] \<Longrightarrow> \<not> is_space (hd (TrimSpace s))"
proof -
  assume ne: "TrimSpace s \<noteq> []"
  let ?d = "dropWhile is_space s"
  have d: "?d \<noteq> []"
    using ne by (simp add: TrimSpace_Nil_iff)
  then have "\<not> is_space (hd ?d)"
    by (rule hd_dropWhile)
  with d dropWhile_rev_hd [of is_space ?d] show ?thesis
    by (simp add: TrimSpace_def)
qed

lemma TrimSpace_last: "TrimSpace s \<noteq> [] \<Longrightarrow> \<not> is_space (last (TrimSpace s))"
  by (simp add: TrimSpace_def last_rev hd_dropWhile)

lemma TrimSpace_id:
  "(s = [] \<or> \<not> is_space (hd s) \<and> \<not> is_space (last s)) \<Longrightarrow> TrimSpace s = s"
proof -
  assume "s = [] \<or> \<not> is_space (hd s) \<and> \<not> is_space (last s)"
  then have "dropWhile is_space s = s" and "dropWhile is_space (rev s) = rev s"
    by (auto simp: dropWhile_eq_self_iff hd_rev)
  then show ?thesis by (simp add: TrimSpace_def)
qed

lemma TrimSpace_idem [simp]: "TrimSpace (TrimSpace s) = TrimSpace s"
  by (rule TrimSpace_id) (use TrimSpace_hd TrimSpace_last in blast)

lemma of_char_char_of_small: "n < 256 \<Longrightarrow> (of_char (char_of n) :: nat) = n"
  by simp

lemma lower_char_idem [simp]: "lower_char (lower_char c) = lower_char c"
  by (auto simp: lower_char_def Let_def)

lemma is_space_lower [simp]: "is_space (lower_char c) = is_space c"
  by (auto simp: lower_char_def is_space_def Let_def)

lemma ToLower_idem [simp]: "ToLower (ToLower s) = ToLower s"
  by (simp add: ToLower_def)

lemma dropWhile_map_lower: "dropWhile is_space (map lower_char s) = map lower_char (dropWhile is_space s)"
  by (induction s) auto

lemma TrimSpace_ToLower: "TrimSpace (ToLower s) = ToLower (TrimSpace s)"
  by (simp add: TrimSpace_def ToLower_def dropWhile_map_lower rev_map)

lemma Index_absent: "Index s c < 0 \<longleftrightarrow> c \<notin> set s"
  by (induction s) (auto simp: Let_def)

lemma Index_present: "c \<in> set s \<Longrightarrow> s = take (nat (Index s c)) s @ c # drop (nat (Index s c) + 1) s
    \<and> c \<notin> set (take (nat (Index s c)) s) \<and> 0 \<le> Index s c \<and> Index s c < int (length s)"
proof (induction s)
  case (Cons x xs)
  show ?case
  proof (cases "x = c")
    case False
    with Cons have IH: "xs = take (nat (Index xs c)) xs @ c # drop (nat (Index xs c) + 1) xs"
      "c \<notin> set (take (nat (Index xs c)) xs)" "0 \<le> Index xs c" "Index xs c < int (length xs)"
      by auto
    have "nat (Index xs c + 1) = Suc (nat (Index xs c))"
      using IH(3) by simp
    with False IH show ?thesis
      by (simp add: Let_def)
  qed simp
qed simp

lemma Contains_char: "Contains s [c] \<longleftrightarrow> c \<in> set s"
  by (induction s) auto

section \<open>The insertion sort loop\<close>

text \<open>
  The sort both aggregates spell out:
  \<^verbatim>\<open>for i := 1; i < len(out); i++ {
    for j := i; j > 0 && less(out[j], out[j-1]); j-- { swap(out[j], out[j-1]) }
  }\<close>
\<close>

fun sift :: "('a \<Rightarrow> 'a \<Rightarrow> bool) \<Rightarrow> nat \<Rightarrow> 'a list \<Rightarrow> 'a list" where
  "sift lt 0 out = out"
| "sift lt (Suc j) out =
     (if lt (out ! Suc j) (out ! j)
      then sift lt j (out[Suc j := out ! j, j := out ! Suc j]) else out)"

definition insertion_sort :: "('a \<Rightarrow> 'a \<Rightarrow> bool) \<Rightarrow> 'a list \<Rightarrow> 'a list" where
  "insertion_sort lt out = fold (sift lt) [1..<length out] out"

text \<open>
  One pass of the inner loop moves the element at position \<open>j\<close> left past every strictly
  greater one and leaves the rest in order.
\<close>

lemma sift_moves:
  "\<exists>us vs. ys = us @ vs \<and> sift (\<lambda>a b. f a < f b) (length ys) (ys @ x # zs) = us @ x # vs @ zs
     \<and> (\<forall>v \<in> set vs. f x < f v) \<and> (us = [] \<or> \<not> f x < f (last us))"
  for f :: "'a \<Rightarrow> 'b :: linorder"
proof (induction ys arbitrary: zs rule: rev_induct)
  case (snoc y ys)
  show ?case
  proof (cases "f x < f y")
    case True
    have swap: "((ys @ [y]) @ x # zs)[Suc (length ys) := y, length ys := x] = ys @ x # y # zs"
      by (simp add: list_update_append)
    from snoc.IH [of "y # zs"] obtain us vs where
      "ys = us @ vs" "sift (\<lambda>a b. f a < f b) (length ys) (ys @ x # y # zs) = us @ x # vs @ y # zs"
      "\<forall>v \<in> set vs. f x < f v" "us = [] \<or> \<not> f x < f (last us)" by blast
    with True swap show ?thesis
      by (intro exI [of _ us] exI [of _ "vs @ [y]"]) (simp add: nth_append)
  next
    case False
    then show ?thesis
      by (intro exI [of _ "ys @ [y]"] exI [of _ "[]"]) (simp add: nth_append)
  qed
qed simp

lemma sift_prefix:
  fixes f :: "'a \<Rightarrow> 'b :: linorder"
  assumes "sorted (map f ys)"
  shows "\<exists>ws. sift (\<lambda>a b. f a < f b) (length ys) (ys @ x # zs) = ws @ zs
     \<and> mset ws = mset (ys @ [x]) \<and> sorted (map f ws)
     \<and> (\<forall>k. filter (\<lambda>z. k = f z) ws = filter (\<lambda>z. k = f z) (ys @ [x]))"
proof -
  from sift_moves [of ys f x zs] obtain us vs where
    split: "ys = us @ vs" and
    res: "sift (\<lambda>a b. f a < f b) (length ys) (ys @ x # zs) = us @ x # vs @ zs" and
    gt: "\<forall>v \<in> set vs. f x < f v" and le: "us = [] \<or> \<not> f x < f (last us)" by blast
  have le': "\<forall>u \<in> set us. f u \<le> f x"
  proof
    fix u assume u: "u \<in> set us"
    then have ne: "us \<noteq> []" by auto
    then have "f u \<le> f (last us)"
      using u assms split by (cases us rule: rev_cases) (auto simp: sorted_append)
    with le ne show "f u \<le> f x" by auto
  qed
  have "sorted (map f (us @ x # vs))"
    using assms split gt le' by (auto simp: sorted_append less_imp_le)
  moreover have "filter (\<lambda>z. f x = f z) vs = []"
    using gt by (auto simp: filter_empty_conv)
  then have "filter (\<lambda>z. k = f z) (us @ x # vs) = filter (\<lambda>z. k = f z) (ys @ [x])" for k
    using split by (cases "k = f x") auto
  ultimately show ?thesis
    using res split by (intro exI [of _ "us @ x # vs"]) simp
qed

lemma insertion_sort_upto:
  fixes f :: "'a \<Rightarrow> 'b :: linorder"
  assumes "n < length out"
  shows "\<exists>ws. fold (sift (\<lambda>a b. f a < f b)) [1..<Suc n] out = ws @ drop (Suc n) out
     \<and> mset ws = mset (take (Suc n) out) \<and> sorted (map f ws)
     \<and> (\<forall>k. filter (\<lambda>z. k = f z) ws = filter (\<lambda>z. k = f z) (take (Suc n) out))"
  using assms
proof (induction n)
  case 0
  then show ?case by (cases out) auto
next
  case (Suc n)
  then obtain ws where ws:
    "fold (sift (\<lambda>a b. f a < f b)) [1..<Suc n] out = ws @ drop (Suc n) out"
    "mset ws = mset (take (Suc n) out)" "sorted (map f ws)"
    "\<forall>k. filter (\<lambda>z. k = f z) ws = filter (\<lambda>z. k = f z) (take (Suc n) out)" by auto
  have len: "length ws = Suc n"
    using ws(2) Suc.prems by (metis length_take min.absorb2 less_imp_le size_mset Suc_lessD)
  have d: "drop (Suc n) out = out ! Suc n # drop (Suc (Suc n)) out"
    using Suc.prems by (rule Cons_nth_drop_Suc [symmetric])
  have t: "take (Suc (Suc n)) out = take (Suc n) out @ [out ! Suc n]"
    using Suc.prems by (rule take_Suc_conv_app_nth)
  have "fold (sift (\<lambda>a b. f a < f b)) [1..<Suc (Suc n)] out
      = sift (\<lambda>a b. f a < f b) (length ws) (ws @ out ! Suc n # drop (Suc (Suc n)) out)"
    using ws(1) d len by simp
  with sift_prefix [OF ws(3), of "out ! Suc n" "drop (Suc (Suc n)) out"] ws(2,4) t
  show ?case by auto
qed

text \<open>The loop is a stable sort: it computes \<open>sort_key\<close>.\<close>

lemma insertion_sort_eq:
  fixes f :: "'a \<Rightarrow> 'b :: linorder"
  shows "insertion_sort (\<lambda>a b. f a < f b) out = sort_key f out"
proof (cases out)
  case (Cons x xs)
  then have "length out - 1 < length out" and l: "Suc (length out - 1) = length out" by simp_all
  from insertion_sort_upto [OF this(1), of f, unfolded l] obtain ws where ws:
    "insertion_sort (\<lambda>a b. f a < f b) out = ws" "mset ws = mset out" "sorted (map f ws)"
    "\<forall>k. filter (\<lambda>z. k = f z) ws = filter (\<lambda>z. k = f z) out"
    by (auto simp: insertion_sort_def)
  have "sort_key f out = ws"
    by (rule properties_for_sort_key) (use ws in auto)
  with ws(1) show ?thesis by simp
qed (simp add: insertion_sort_def)

text \<open>
  When the keys are pairwise distinct the result depends on the set of elements only, so
  the order in which a Go map happens to be ranged over does not show.
\<close>

lemma insertion_sort_order_independent:
  fixes f :: "'a \<Rightarrow> 'b :: linorder"
  assumes "mset xs = mset ys" and "inj_on f (set xs)"
  shows "insertion_sort (\<lambda>a b. f a < f b) xs = insertion_sort (\<lambda>a b. f a < f b) ys"
proof -
  have s: "set xs = set ys" using assms(1) by (rule mset_eq_setD)
  have "sort (map f zs) = map f (sort_key f zs)" for zs
    by (rule properties_for_sort) simp_all
  moreover have "sort (map f xs) = sort (map f ys)"
    by (rule properties_for_sort) (simp_all add: assms(1))
  ultimately have "map f (sort_key f xs) = map f (sort_key f ys)" by simp
  then have "sort_key f xs = sort_key f ys"
    by (rule map_inj_on) (use assms s in simp)
  then show ?thesis by (simp add: insertion_sort_eq)
qed

section \<open>Narrowing conversions\<close>

text \<open>Go's \<open>int32(v)\<close> and \<open>int16(v)\<close> keep the low bits.\<close>

definition trunc32 :: "int \<Rightarrow> int" where
  "trunc32 v = sint (word_of_int v :: 32 word)"

definition trunc16 :: "int \<Rightarrow> int" where
  "trunc16 v = sint (word_of_int v :: 16 word)"

lemma trunc32_small [simp]: "- (2 ^ 31) \<le> v \<Longrightarrow> v < 2 ^ 31 \<Longrightarrow> trunc32 v = v"
  by (simp add: trunc32_def sint_sbintrunc' signed_take_bit_int_eq_self)

lemma trunc16_small [simp]: "- (2 ^ 15) \<le> v \<Longrightarrow> v < 2 ^ 15 \<Longrightarrow> trunc16 v = v"
  by (simp add: trunc16_def sint_sbintrunc' signed_take_bit_int_eq_self)

section \<open>Step systems\<close>

text \<open>
  The lifecycles of the program (a room, its scheduling loop, the connection hub) are step
  relations.  A state is reachable when finitely many steps lead to it from an initial one;
  an invariant that holds initially and along every step holds in every reachable state.
\<close>

inductive reach :: "('s \<Rightarrow> bool) \<Rightarrow> ('s \<Rightarrow> 's \<Rightarrow> bool) \<Rightarrow> 's \<Rightarrow> bool"
  for init :: "'s \<Rightarrow> bool" and step :: "'s \<Rightarrow> 's \<Rightarrow> bool" where
  reach_init: "init s \<Longrightarrow> reach init step s"
| reach_step: "reach init step s \<Longrightarrow> step s s' \<Longrightarrow> reach init step s'"

locale step_invariant =
  fixes init :: "'s \<Rightarrow> bool" and step :: "'s \<Rightarrow> 's \<Rightarrow> bool" and inv :: "'s \<Rightarrow> bool"
  assumes init_inv: "init s \<Longrightarrow> inv s"
    and step_inv: "inv s \<Longrightarrow> step s s' \<Longrightarrow> inv s'"
begin

lemma reach_inv: "reach init step s \<Longrightarrow> inv s"
  by (induction rule: reach.induct) (auto intro: init_inv step_inv)

lemma run_inv: "step\<^sup>*\<^sup>* s s' \<Longrightarrow> inv s \<Longrightarrow> inv s'"
  by (induction rule: rtranclp_induct) (auto intro: step_inv)

end

text \<open>A rank that no step lowers in a state satisfying the invariant never falls along a run.\<close>

locale step_ranked = step_invariant init step inv
  for init :: "'s \<Rightarrow> bool" and step :: "'s \<Rightarrow> 's \<Rightarrow> bool" and inv :: "'s \<Rightarrow> bool" +
  fixes rank :: "'s \<Rightarrow> 'r :: preorder"
  assumes step_rank: "inv s \<Longrightarrow> step s s' \<Longrightarrow> rank s \<le> rank s'"
begin

lemma run_rank: "step\<^sup>*\<^sup>* s s' \<Longrightarrow> inv s \<Longrightarrow> rank s \<le> rank s'"
proof (induction rule: rtranclp_induct)
  case (step y z)
  then have "inv y" by (blast intro: run_inv)
  with step have "rank y \<le> rank z" by (blast intro: step_rank)
  with step show ?case by (blast intro: order_trans)
qed simp

end

end
