(* ===== verification/Go_Json.thy ===== *)
theory Go_Json
  imports Cassino_Prelude
begin

text \<open>
  What the program uses of \<open>encoding/json\<close> and \<open>strconv\<close>: reading JSON text, decoding an object into
  a struct, and parsing decimal integers.  The scanner is a state machine over the bytes that emits
  tokens, the parser a stack machine over the tokens, so both end on every input; what cannot be
  scanned ends the tokens with \<open>TBad\<close>.  A number keeps its literal.  Not modelled: the replacement of bytes that
  are not UTF-8, and Unicode case folding of keys beyond ASCII.
\<close>

section \<open>Scanner\<close>

datatype json =
    JNull
  | JBool bool
  | JNum string
  | JStr string
  | JArr "json list"
  | JObj "(string \<times> json) list"

datatype token = TLBrace | TRBrace | TLBracket | TRBracket | TColon | TComma
  | TString string | TNumber string | TWord string | TBad

definition char_code :: "char \<Rightarrow> nat" where
  "char_code c = of_char c"

definition is_digit :: "char \<Rightarrow> bool" where
  "is_digit c \<longleftrightarrow> 48 \<le> char_code c \<and> char_code c \<le> 57"

definition json_space :: "char \<Rightarrow> bool" where
  "json_space c \<longleftrightarrow> char_code c \<in> {9, 10, 13, 32}"

definition hex_digit :: "char \<Rightarrow> nat option" where
  "hex_digit c =
     (let n = char_code c in
      if 48 \<le> n \<and> n \<le> 57 then Some (n - 48)
      else if 65 \<le> n \<and> n \<le> 70 then Some (n - 55)
      else if 97 \<le> n \<and> n \<le> 102 then Some (n - 87) else None)"

definition utf8 :: "nat \<Rightarrow> string" where
  "utf8 n = map char_of
     (if n < 128 then [n]
      else if n < 2048 then [192 + n div 64, 128 + n mod 64]
      else if n < 65536 then [224 + n div 4096, 128 + n div 64 mod 64, 128 + n mod 64]
      else [240 + n div 262144, 128 + n div 4096 mod 64, 128 + n div 64 mod 64, 128 + n mod 64])"

text \<open>
  The \<open>\u\<close> escapes: a high surrogate waits for a low one; a surrogate that is alone becomes the
  replacement character.
\<close>

definition is_high :: "nat \<Rightarrow> bool" where "is_high n \<longleftrightarrow> 55296 \<le> n \<and> n < 56320"
definition is_low :: "nat \<Rightarrow> bool" where "is_low n \<longleftrightarrow> 56320 \<le> n \<and> n < 57344"

definition flush_high :: "nat option \<Rightarrow> string" where
  "flush_high high = (case high of None \<Rightarrow> [] | Some _ \<Rightarrow> utf8 65533)"

definition put_rune :: "nat option \<Rightarrow> nat \<Rightarrow> string \<times> nat option" where
  "put_rune high n =
     (case high of
        Some hi \<Rightarrow> if is_low n then (utf8 (65536 + (hi - 55296) * 1024 + (n - 56320)), None)
                    else if is_high n then (utf8 65533, Some n) else (utf8 65533 @ utf8 n, None)
      | None \<Rightarrow> if is_high n then ([], Some n) else if is_low n then (utf8 65533, None) else (utf8 n, None))"

definition escape :: "char \<Rightarrow> nat option" where
  "escape c = map_of [(CHR 0x22, 34), (CHR 0x5C, 92), (CHR 0x2F, 47), (CHR ''b'', 8), (CHR ''f'', 12),
     (CHR ''n'', 10), (CHR ''r'', 13), (CHR ''t'', 9)] c"

datatype lex_state =
    LStart
  | LString string "nat option"
  | LEscape string "nat option"
  | LHex string "nat option" nat nat
  | LNumber string
  | LWord string

definition number_char :: "char \<Rightarrow> bool" where
  "number_char c \<longleftrightarrow> is_digit c \<or> c \<in> {CHR ''-'', CHR ''+'', CHR ''.'', CHR ''e'', CHR ''E''}"

definition word_char :: "char \<Rightarrow> bool" where
  "word_char c \<longleftrightarrow> 97 \<le> char_code c \<and> char_code c \<le> 122"

definition punctuation :: "char \<Rightarrow> token option" where
  "punctuation c = map_of [(CHR 0x7B, TLBrace), (CHR 0x7D, TRBrace), (CHR 0x5B, TLBracket), (CHR 0x5D, TRBracket),
     (CHR 0x3A, TColon), (CHR 0x2C, TComma)] c"

text \<open>A byte read between two values.\<close>

definition lex_start :: "char \<Rightarrow> token list \<times> lex_state option" where
  "lex_start c =
     (if json_space c then ([], Some LStart)
      else case punctuation c of
        Some t \<Rightarrow> ([t], Some LStart)
      | None \<Rightarrow>
          if c = CHR 0x22 then ([], Some (LString [] None))
          else if is_digit c \<or> c = CHR ''-'' then ([], Some (LNumber [c]))
          else if word_char c then ([], Some (LWord [c]))
          else ([TBad], None))"

fun lex_step :: "lex_state \<Rightarrow> char \<Rightarrow> token list \<times> lex_state option" where
  "lex_step LStart c = lex_start c"
| "lex_step (LString acc high) c =
     (if c = CHR 0x22 then ([TString (acc @ flush_high high)], Some LStart)
      else if c = CHR 0x5C then ([], Some (LEscape acc high))
      else if char_code c < 32 then ([TBad], None)
      else ([], Some (LString (acc @ flush_high high @ [c]) None)))"
| "lex_step (LEscape acc high) c =
     (if c = CHR ''u'' then ([], Some (LHex acc high 0 0))
      else case escape c of
        None \<Rightarrow> ([TBad], None)
      | Some n \<Rightarrow> ([], Some (LString (acc @ flush_high high @ [char_of n]) None)))"
| "lex_step (LHex acc high k n) c =
     (case hex_digit c of
        None \<Rightarrow> ([TBad], None)
      | Some d \<Rightarrow>
          if k < 3 then ([], Some (LHex acc high (Suc k) (16 * n + d)))
          else (case put_rune high (16 * n + d) of (out, high') \<Rightarrow> ([], Some (LString (acc @ out) high'))))"
| "lex_step (LNumber acc) c =
     (if number_char c then ([], Some (LNumber (acc @ [c])))
      else (case lex_start c of (ts, st) \<Rightarrow> (TNumber acc # ts, st)))"
| "lex_step (LWord acc) c =
     (if word_char c then ([], Some (LWord (acc @ [c])))
      else (case lex_start c of (ts, st) \<Rightarrow> (TWord acc # ts, st)))"

fun lex_end :: "lex_state \<Rightarrow> token list" where
  "lex_end LStart = []"
| "lex_end (LNumber acc) = [TNumber acc]"
| "lex_end (LWord acc) = [TWord acc]"
| "lex_end _ = [TBad]"

fun lex :: "lex_state \<Rightarrow> string \<Rightarrow> token list" where
  "lex st [] = lex_end st"
| "lex st (c # cs) = (case lex_step st c of (ts, Some st') \<Rightarrow> ts @ lex st' cs | (ts, None) \<Rightarrow> ts)"

text \<open>The grammar of a number: sign, integer part without leading zeros, fraction, exponent.\<close>

definition digits1 :: "string \<Rightarrow> string option" where
  "digits1 s = (if s \<noteq> [] \<and> is_digit (hd s) then Some (dropWhile is_digit s) else None)"

definition number_exponent :: "string \<Rightarrow> bool" where
  "number_exponent s =
     (case s of
        [] \<Rightarrow> True
      | c # cs \<Rightarrow> (c = CHR ''e'' \<or> c = CHR ''E'') \<and>
          digits1 (if cs \<noteq> [] \<and> hd cs \<in> {CHR ''+'', CHR ''-''} then tl cs else cs) = Some [])"

definition number_fraction :: "string \<Rightarrow> bool" where
  "number_fraction s =
     (case s of
        [] \<Rightarrow> True
      | c # cs \<Rightarrow> if c = CHR ''.'' then (case digits1 cs of None \<Rightarrow> False | Some r \<Rightarrow> number_exponent r)
                   else number_exponent s)"

definition valid_number :: "string \<Rightarrow> bool" where
  "valid_number s =
     (let u = (if s \<noteq> [] \<and> hd s = CHR ''-'' then tl s else s) in
      case u of
        [] \<Rightarrow> False
      | c # cs \<Rightarrow> if c = CHR ''0'' then number_fraction cs
                   else if is_digit c then number_fraction (dropWhile is_digit cs) else False)"

section \<open>Parser\<close>

datatype frame = InArray "json list" | InObject "(string \<times> json) list" string

datatype parse_state = WantValue | WantElement | WantKey "(string \<times> json) list" bool | WantColon "(string \<times> json) list" string | Have json

definition maxNestingDepth :: nat where
  "maxNestingDepth = 10000"

fun scalar :: "token \<Rightarrow> json option" where
  "scalar (TString s) = Some (JStr s)"
| "scalar (TNumber s) = (if valid_number s then Some (JNum s) else None)"
| "scalar (TWord s) =
     (if s = ''null'' then Some JNull else if s = ''true'' then Some (JBool True)
      else if s = ''false'' then Some (JBool False) else None)"
| "scalar _ = None"

text \<open>
  The parser waits for a value, for the first element of an array (or its end), for a key of an
  object (the flag: or its end), for the colon after a key, or has just read a value; the stack holds the
  containers that are open.  The result is the first value of the text and the tokens after it.
\<close>

definition parse_value :: "frame list \<Rightarrow> token \<Rightarrow> (parse_state \<times> frame list) option" where
  "parse_value st t =
     (if t = TLBracket then (if length st < maxNestingDepth then Some (WantElement, st) else None)
      else if t = TLBrace then (if length st < maxNestingDepth then Some (WantKey [] True, st) else None)
      else map_option (\<lambda>v. (Have v, st)) (scalar t))"

fun parse_next :: "json \<Rightarrow> frame \<Rightarrow> frame list \<Rightarrow> token \<Rightarrow> (parse_state \<times> frame list) option" where
  "parse_next v (InArray acc) st t =
     (if t = TComma then Some (WantValue, InArray (acc @ [v]) # st)
      else if t = TRBracket then Some (Have (JArr (acc @ [v])), st) else None)"
| "parse_next v (InObject acc key) st t =
     (if t = TComma then Some (WantKey (acc @ [(key, v)]) False, st)
      else if t = TRBrace then Some (Have (JObj (acc @ [(key, v)])), st) else None)"

fun parse_step :: "parse_state \<Rightarrow> frame list \<Rightarrow> token \<Rightarrow> (parse_state \<times> frame list) option" where
  "parse_step WantValue st t = parse_value st t"
| "parse_step WantElement st t =
     (if t = TRBracket then Some (Have (JArr []), st) else parse_value (InArray [] # st) t)"
| "parse_step (WantKey acc can_close) st t =
     (case t of
        TString key \<Rightarrow> Some (WantColon acc key, st)
      | TRBrace \<Rightarrow> if can_close then Some (Have (JObj []), st) else None
      | _ \<Rightarrow> None)"
| "parse_step (WantColon acc key) st t = (if t = TColon then Some (WantValue, InObject acc key # st) else None)"
| "parse_step (Have v) st t = (case st of [] \<Rightarrow> None | fr # st' \<Rightarrow> parse_next v fr st' t)"

fun complete :: "parse_state \<Rightarrow> frame list \<Rightarrow> json option" where
  "complete (Have v) [] = Some v"
| "complete _ _ = None"

fun parse :: "parse_state \<Rightarrow> frame list \<Rightarrow> token list \<Rightarrow> (json \<times> token list) option" where
  "parse s st [] = map_option (\<lambda>v. (v, [])) (complete s st)"
| "parse s st (t # ts) =
     (case complete s st of
        Some v \<Rightarrow> Some (v, t # ts)
      | None \<Rightarrow> (case parse_step s st t of None \<Rightarrow> None | Some (s', st') \<Rightarrow> parse s' st' ts))"

text \<open>\<open>json.Unmarshal\<close> wants the whole text to be one value, \<open>Decoder.Decode\<close> takes the first one.\<close>

definition json_text :: "string \<Rightarrow> json option" where
  "json_text raw = (case parse WantValue [] (lex LStart raw) of Some (v, []) \<Rightarrow> Some v | _ \<Rightarrow> None)"

definition json_first :: "string \<Rightarrow> json option" where
  "json_first raw = map_option fst (parse WantValue [] (lex LStart raw))"

section \<open>Integers\<close>

definition digits_value :: "string \<Rightarrow> int" where
  "digits_value s = foldl (\<lambda>n c. 10 * n + (int (char_code c) - 48)) 0 s"

text \<open>\<open>strconv.ParseInt\<close> and \<open>strconv.Atoi\<close> in base 10 for 64 bits.\<close>

definition Atoi :: "string \<Rightarrow> int option" where
  "Atoi s =
     (let neg = (s \<noteq> [] \<and> hd s = CHR ''-'');
          u = (if s \<noteq> [] \<and> (hd s = CHR ''-'' \<or> hd s = CHR ''+'') then tl s else s);
          v = (if neg then - digits_value u else digits_value u) in
      if u = [] \<or> \<not> list_all is_digit u \<or> \<not> fits64 v then None else Some v)"

lemma Atoi_fits: "Atoi s = Some v \<Longrightarrow> fits64 v"
  by (auto simp: Atoi_def Let_def split: if_splits)

section \<open>Decoding into a struct\<close>

text \<open>
  The field a key selects: the one with that name, or the first that equals it but for case.
  A struct with the fields \<open>fields\<close> is decoded pair by pair; \<open>put\<close> assigns a field and fails on a
  value of the wrong type, \<open>strict\<close> rejects unknown keys, and \<open>null\<close> leaves the struct as it is.
\<close>

definition field_of :: "string list \<Rightarrow> string \<Rightarrow> string option" where
  "field_of fields key =
     (if key \<in> set fields then Some key else find (\<lambda>f. ToLower f = ToLower key) fields)"

fun decode_pairs :: "bool \<Rightarrow> string list \<Rightarrow> (string \<Rightarrow> json \<Rightarrow> 'a \<Rightarrow> 'a option) \<Rightarrow> (string \<times> json) list \<Rightarrow> 'a \<Rightarrow> 'a option" where
  "decode_pairs strict fields put [] x = Some x"
| "decode_pairs strict fields put ((key, v) # kvs) x =
     (case field_of fields key of
        None \<Rightarrow> if strict then None else decode_pairs strict fields put kvs x
      | Some f \<Rightarrow> (case put f v x of None \<Rightarrow> None | Some y \<Rightarrow> decode_pairs strict fields put kvs y))"

fun decode_struct :: "bool \<Rightarrow> string list \<Rightarrow> (string \<Rightarrow> json \<Rightarrow> 'a \<Rightarrow> 'a option) \<Rightarrow> json \<Rightarrow> 'a \<Rightarrow> 'a option" where
  "decode_struct strict fields put JNull x = Some x"
| "decode_struct strict fields put (JObj kvs) x = decode_pairs strict fields put kvs x"
| "decode_struct strict fields put _ x = None"

text \<open>Fields of type \<open>string\<close> and \<open>int64\<close>: \<open>null\<close> leaves the old value.\<close>

fun as_string :: "json \<Rightarrow> string \<Rightarrow> string option" where
  "as_string (JStr s) old = Some s"
| "as_string JNull old = Some old"
| "as_string _ old = None"

fun as_int64 :: "json \<Rightarrow> int64 \<Rightarrow> int64 option" where
  "as_int64 (JNum s) old = map_option word_of_int (Atoi s)"
| "as_int64 JNull old = Some old"
| "as_int64 _ old = None"

end
