(* ===== verification/Cassino_Errors.thy ===== *)
theory Cassino_Errors
  imports Cassino_Prelude
begin

text \<open>
  The error values of the program.  Go's sentinel errors are compared with \<open>errors.Is\<close>,
  that is by identity, so each is a constructor; an error that only wraps a driver failure
  (\<open>fmt.Errorf\<close> around a database or Redis error) carries its text and is distinct from
  every sentinel.  A fallible function returns \<open>error + 'a\<close> with the error on the left.
\<close>

datatype game_error =
    ErrInvalidID | ErrRoomFull | ErrRoomNotOpen | ErrRoomClosed | ErrAlreadyJoined
  | ErrNotAMember | ErrNotOwner | ErrNoPlayers | ErrMaxRoundsReached | ErrRoundInProgress
  | ErrNoActiveRound | ErrRoundAlreadySettled | ErrBettingClosed | ErrBettingNotOpen
  | ErrDuplicateBet | ErrInvalidChoice | ErrInvalidAmount | ErrInvalidDie
  | ErrInvalidRoundNumber | ErrInvalidBettingWindow | ErrRoomNotFound | ErrRoundNotFound
  | ErrBetNotFound | ErrAlreadyInAnotherRoom

datatype player_error =
    ErrInvalidEmail | ErrInvalidPasswordHash | ErrInvalidID | ErrInvalidAmount
  | ErrInsufficientBalance | ErrNegativeBalance | ErrNotFound | ErrEmailAlreadyUsed
  | ErrInvalidCredentials | ErrInvalidTransactionType | ErrWithdrawalBlocked

datatype app_error = ErrJoinInProgress | ErrEngineStopped | ErrNotInRoom

datatype audit_error = ErrInvalidChannel | ErrInvalidEndpoint | ErrInvalidAction | ErrImmutable

datatype auth_error = ErrPasswordTooShort | ErrPasswordTooLong | ErrInvalidToken | ErrExpiredToken

datatype error =
    GameErr game_error
  | PlayerErr player_error
  | AppErr app_error
  | AuditErr audit_error
  | AuthErr auth_error
  | InfraErr string

definition is_ok :: "'e + 'a \<Rightarrow> bool" where
  "is_ok r = (case r of Inl _ \<Rightarrow> False | Inr _ \<Rightarrow> True)"

lemma is_ok_simps [simp]: "is_ok (Inr x)" "\<not> is_ok (Inl e)"
  by (simp_all add: is_ok_def)

lemma is_ok_iff: "is_ok r \<longleftrightarrow> (\<exists>x. r = Inr x)"
  by (cases r) auto

lemma if_Inl_eq_Inr [simp]:
  "(if c then Inl e else r) = Inr x \<longleftrightarrow> \<not> c \<and> r = Inr x"
  "(if c then r else Inl e) = Inr x \<longleftrightarrow> c \<and> r = Inr x"
  by auto

lemma case_sum_Inl_eq_Inr [simp]:
  "(case r of Inl e \<Rightarrow> Inl e | Inr y \<Rightarrow> f y) = Inr x \<longleftrightarrow> (\<exists>y. r = Inr y \<and> f y = Inr x)"
  by (cases r) auto

end
