(* ===== verification/Domain_Player.thy ===== *)
theory Domain_Player
  imports Cassino_Errors
begin

text \<open>
  The player aggregate of \<open>internal/domain/player\<close>: identity, credentials, the wallet
  balance in cents and the ledger entry.  A method with a pointer receiver returns the
  updated record.
\<close>

section \<open>Data\<close>

record Player =
  pl_ID :: id
  pl_Email :: string
  pl_PasswordHash :: string
  pl_Balance :: int64
  pl_CreatedAt :: time

type_synonym TransactionType = string

definition TransactionDeposit :: TransactionType where
  "TransactionDeposit = ''deposit''"

definition TransactionWithdraw :: TransactionType where
  "TransactionWithdraw = ''withdraw''"

definition TransactionBet :: TransactionType where
  "TransactionBet = ''bet''"

definition TransactionPayout :: TransactionType where
  "TransactionPayout = ''payout''"

definition TransactionType_Valid :: "TransactionType \<Rightarrow> bool" where
  "TransactionType_Valid t \<longleftrightarrow>
     t = TransactionDeposit \<or> t = TransactionWithdraw \<or> t = TransactionBet \<or> t = TransactionPayout"

record Transaction =
  tx_ID :: id
  tx_PlayerID :: id
  tx_Type :: TransactionType
  tx_Amount :: int64
  tx_RoundID :: "id option"
  tx_CreatedAt :: time

section \<open>Operations\<close>

definition NormalizeEmail :: "string \<Rightarrow> error + string" where
  "NormalizeEmail email =
     (let normalized = ToLower (TrimSpace email) in
      if normalized = [] then Inl (PlayerErr ErrInvalidEmail)
      else
        let at = Index normalized CHR ''@'' in
        if at \<le> 0 \<or> at \<noteq> LastIndex normalized CHR ''@'' then Inl (PlayerErr ErrInvalidEmail)
        else
          let domain = drop (nat at + 1) normalized in
          if domain = [] \<or> \<not> Contains domain ''.'' \<or> prefix ''.'' domain \<or> suffix ''.'' domain
          then Inl (PlayerErr ErrInvalidEmail)
          else if ContainsAny normalized [CHR '' '', CHR 0x09, CHR 0x0D, CHR 0x0A]
          then Inl (PlayerErr ErrInvalidEmail)
          else Inr normalized)"

definition NewPlayer :: "id \<Rightarrow> string \<Rightarrow> string \<Rightarrow> time \<Rightarrow> error + Player" where
  "NewPlayer pid email passwordHash createdAt =
     (case NormalizeEmail email of
        Inl e \<Rightarrow> Inl e
      | Inr normalized \<Rightarrow>
          if blank pid then Inl (PlayerErr player_error.ErrInvalidID)
          else if blank passwordHash then Inl (PlayerErr ErrInvalidPasswordHash)
          else Inr \<lparr>pl_ID = pid, pl_Email = normalized, pl_PasswordHash = passwordHash,
                    pl_Balance = 0, pl_CreatedAt = createdAt\<rparr>)"

definition RehydratePlayer :: "id \<Rightarrow> string \<Rightarrow> string \<Rightarrow> int64 \<Rightarrow> time \<Rightarrow> error + Player" where
  "RehydratePlayer pid email passwordHash balance createdAt =
     (if blank pid then Inl (PlayerErr player_error.ErrInvalidID)
      else if sint balance < 0 then Inl (PlayerErr ErrNegativeBalance)
      else Inr \<lparr>pl_ID = pid, pl_Email = email, pl_PasswordHash = passwordHash,
                pl_Balance = balance, pl_CreatedAt = createdAt\<rparr>)"

definition CanAfford :: "Player \<Rightarrow> int64 \<Rightarrow> bool" where
  "CanAfford p amount \<longleftrightarrow> 0 < sint amount \<and> sint amount \<le> sint (pl_Balance p)"

definition Credit :: "Player \<Rightarrow> int64 \<Rightarrow> error + Player" where
  "Credit p amount =
     (if sint amount \<le> 0 then Inl (PlayerErr player_error.ErrInvalidAmount)
      else Inr (p\<lparr>pl_Balance := pl_Balance p + amount\<rparr>))"

definition Debit :: "Player \<Rightarrow> int64 \<Rightarrow> error + Player" where
  "Debit p amount =
     (if sint amount \<le> 0 then Inl (PlayerErr player_error.ErrInvalidAmount)
      else if sint (pl_Balance p) < sint amount then Inl (PlayerErr ErrInsufficientBalance)
      else Inr (p\<lparr>pl_Balance := pl_Balance p - amount\<rparr>))"

definition NewTransaction ::
    "id \<Rightarrow> id \<Rightarrow> TransactionType \<Rightarrow> int64 \<Rightarrow> id option \<Rightarrow> time \<Rightarrow> error + Transaction" where
  "NewTransaction tid playerID t amount roundID createdAt =
     (if blank tid \<or> blank playerID then Inl (PlayerErr player_error.ErrInvalidID)
      else if \<not> TransactionType_Valid t then Inl (PlayerErr ErrInvalidTransactionType)
      else if sint amount \<le> 0 then Inl (PlayerErr player_error.ErrInvalidAmount)
      else Inr \<lparr>tx_ID = tid, tx_PlayerID = playerID, tx_Type = t, tx_Amount = amount,
                tx_RoundID = roundID, tx_CreatedAt = createdAt\<rparr>)"

section \<open>The ledger\<close>

text \<open>What an entry of a given type adds to the balance: deposits and payouts credit.\<close>

definition signed_amount :: "TransactionType \<Rightarrow> int64 \<Rightarrow> int" where
  "signed_amount t amount =
     (if t = TransactionDeposit \<or> t = TransactionPayout then sint amount else - sint amount)"

lemmas transaction_types [go_consts] =
  TransactionDeposit_def TransactionWithdraw_def TransactionBet_def TransactionPayout_def

lemma transaction_type_distinct [simp]:
  "TransactionDeposit \<noteq> TransactionWithdraw" "TransactionWithdraw \<noteq> TransactionDeposit"
  "TransactionDeposit \<noteq> TransactionBet" "TransactionBet \<noteq> TransactionDeposit"
  "TransactionDeposit \<noteq> TransactionPayout" "TransactionPayout \<noteq> TransactionDeposit"
  "TransactionWithdraw \<noteq> TransactionBet" "TransactionBet \<noteq> TransactionWithdraw"
  "TransactionWithdraw \<noteq> TransactionPayout" "TransactionPayout \<noteq> TransactionWithdraw"
  "TransactionBet \<noteq> TransactionPayout" "TransactionPayout \<noteq> TransactionBet"
  by (simp_all add: go_consts)

lemma transaction_type_valid [simp]:
  "TransactionType_Valid TransactionDeposit" "TransactionType_Valid TransactionWithdraw"
  "TransactionType_Valid TransactionBet" "TransactionType_Valid TransactionPayout"
  by (simp_all add: TransactionType_Valid_def)

lemma signed_amount_simps [simp]:
  "signed_amount TransactionDeposit a = sint a" "signed_amount TransactionPayout a = sint a"
  "signed_amount TransactionWithdraw a = - sint a" "signed_amount TransactionBet a = - sint a"
  by (simp_all add: signed_amount_def)

section \<open>Success of the operations\<close>

lemma Credit_ok [ok_inv]:
  "Credit p amount = Inr p' \<longleftrightarrow>
     0 < sint amount \<and> p' = p\<lparr>pl_Balance := pl_Balance p + amount\<rparr>"
  by (auto simp: Credit_def)

lemma Debit_ok [ok_inv]:
  "Debit p amount = Inr p' \<longleftrightarrow>
     CanAfford p amount \<and> p' = p\<lparr>pl_Balance := pl_Balance p - amount\<rparr>"
  by (auto simp: Debit_def CanAfford_def)

lemma NewTransaction_ok [ok_inv]:
  "NewTransaction tid pid t amount rid at = Inr e \<longleftrightarrow>
     \<not> blank tid \<and> \<not> blank pid \<and> TransactionType_Valid t \<and> 0 < sint amount \<and>
     e = \<lparr>tx_ID = tid, tx_PlayerID = pid, tx_Type = t, tx_Amount = amount,
          tx_RoundID = rid, tx_CreatedAt = at\<rparr>"
  by (auto simp: NewTransaction_def)

lemma RehydratePlayer_ok [ok_inv]:
  "RehydratePlayer pid email hash bal at = Inr p \<longleftrightarrow>
     \<not> blank pid \<and> 0 \<le> sint bal \<and>
     p = \<lparr>pl_ID = pid, pl_Email = email, pl_PasswordHash = hash, pl_Balance = bal, pl_CreatedAt = at\<rparr>"
  by (auto simp: RehydratePlayer_def)

text \<open>A debit is exact: the balance covers the amount, so the subtraction cannot wrap.\<close>

lemma Debit_exact:
  assumes "Debit p amount = Inr p'"
  shows "sint (pl_Balance p') = sint (pl_Balance p) - sint amount" and "0 \<le> sint (pl_Balance p')"
proof -
  from assms have a: "0 < sint amount" "sint amount \<le> sint (pl_Balance p)"
    and p': "p' = p\<lparr>pl_Balance := pl_Balance p - amount\<rparr>"
    by (simp_all add: ok_inv CanAfford_def)
  from a show "sint (pl_Balance p') = sint (pl_Balance p) - sint amount"
    by (simp add: p' sint64_diff_nonneg)
  with a show "0 \<le> sint (pl_Balance p')" by simp
qed

text \<open>
  A credit of a non-negative balance either is exact or leaves a negative balance: a wrapped
  addition never produces a balance that looks valid.
\<close>

lemma Credit_exact_or_negative:
  assumes "0 \<le> sint (pl_Balance p)" and "Credit p amount = Inr p'"
  shows "if fits64 (sint (pl_Balance p) + sint amount)
         then sint (pl_Balance p') = sint (pl_Balance p) + sint amount
         else sint (pl_Balance p') < 0"
  using assms by (auto simp: ok_inv sint64_add sint64_add_overflow(2))

section \<open>E-mail addresses\<close>

lemma LastIndex_eq_Index_unique:
  assumes "c \<in> set s" and "Index s c = LastIndex s c"
  shows "\<exists>u v. s = u @ c # v \<and> c \<notin> set u \<and> c \<notin> set v \<and> length u = nat (Index s c)"
proof -
  let ?i = "Index s c" and ?k = "Index (rev s) c"
  have i: "s = take (nat ?i) s @ c # drop (nat ?i + 1) s" "c \<notin> set (take (nat ?i) s)"
    "0 \<le> ?i" "?i < int (length s)" using Index_present [OF assms(1)] by auto
  have "c \<in> set (rev s)" using assms(1) by simp
  from Index_present [OF this] have k: "c \<notin> set (take (nat ?k) (rev s))" "0 \<le> ?k"
    "?k < int (length s)" by auto
  have "?i = int (length s) - 1 - ?k"
    using assms(2) k(2) by (simp add: LastIndex_def Let_def)
  then have "nat ?k = length s - (nat ?i + 1)"
    using i(3,4) by linarith
  then have "take (nat ?k) (rev s) = rev (drop (nat ?i + 1) s)"
    using i(3,4) by (simp add: take_rev)
  with k(1) have "c \<notin> set (drop (nat ?i + 1) s)" by simp
  moreover have "length (take (nat ?i) s) = nat ?i"
    using i(3,4) by simp
  ultimately show ?thesis using i(1,2) by blast
qed

text \<open>What an accepted address looks like.\<close>

definition wf_email :: "string \<Rightarrow> bool" where
  "wf_email e \<longleftrightarrow> ToLower e = e \<and> TrimSpace e = e \<and>
     (\<exists>u d. e = u @ CHR ''@'' # d \<and> u \<noteq> [] \<and> CHR ''@'' \<notin> set u \<and> CHR ''@'' \<notin> set d \<and>
        CHR ''.'' \<in> set d \<and> hd d \<noteq> CHR ''.'' \<and> last d \<noteq> CHR ''.'') \<and>
     set e \<inter> {CHR '' '', CHR 0x09, CHR 0x0D, CHR 0x0A} = {}"

lemma Index_split: "c \<notin> set u \<Longrightarrow> Index (u @ c # v) c = int (length u)"
  by (induction u) (auto simp: Let_def)

lemma LastIndex_split: "c \<notin> set v \<Longrightarrow> LastIndex (u @ c # v) c = int (length u)"
  using Index_split [of c "rev v" "rev u"] by (simp add: LastIndex_def Let_def)

lemma prefix_char: "prefix [c] d \<longleftrightarrow> d \<noteq> [] \<and> hd d = c"
  by (cases d) auto

lemma suffix_char: "suffix [c] d \<longleftrightarrow> d \<noteq> [] \<and> last d = c"
  by (cases d rule: rev_cases) (auto simp: suffix_def)

lemma NormalizeEmail_sound:
  assumes "NormalizeEmail email = Inr e"
  shows "e = ToLower (TrimSpace email)" and "wf_email e"
proof -
  let ?n = "ToLower (TrimSpace email)"
  let ?at = "Index ?n CHR ''@''"
  let ?d = "drop (nat ?at + 1) ?n"
  from assms have all: "\<not> (?at \<le> 0 \<or> ?at \<noteq> LastIndex ?n CHR ''@'') \<and>
      \<not> (?d = [] \<or> \<not> Contains ?d ''.'' \<or> prefix ''.'' ?d \<or> suffix ''.'' ?d) \<and>
      \<not> ContainsAny ?n [CHR '' '', CHR 0x09, CHR 0x0D, CHR 0x0A] \<and> ?n = e"
    unfolding NormalizeEmail_def Let_def if_Inl_eq_Inr sum.inject by blast
  then have n: "e = ?n" "0 < ?at" "?at = LastIndex ?n CHR ''@''"
    and d: "?d \<noteq> []" "CHR ''.'' \<in> set ?d" "hd ?d \<noteq> CHR ''.''" "last ?d \<noteq> CHR ''.''"
    unfolding Contains_char prefix_char suffix_char de_Morgan_disj not_le by blast+
  from all have ws: "set ?n \<inter> {CHR '' '', CHR 0x09, CHR 0x0D, CHR 0x0A} = {}"
    unfolding ContainsAny_def list_ex_iff by auto
  from n(1) show "e = ?n" .
  have "CHR ''@'' \<in> set ?n"
    using n(2) Index_absent [of ?n "CHR ''@''"] by linarith
  from LastIndex_eq_Index_unique [OF this n(3)] obtain u v where
    uv: "?n = u @ CHR ''@'' # v" "CHR ''@'' \<notin> set u" "CHR ''@'' \<notin> set v" "length u = nat ?at"
    by blast
  then have "?d = v" by simp
  moreover have "u \<noteq> []" using uv(4) n(2) by auto
  moreover have "ToLower ?n = ?n" "TrimSpace ?n = ?n"
    by (simp_all add: TrimSpace_ToLower)
  ultimately show "wf_email e"
    using d uv(1-3) ws unfolding wf_email_def n(1) by metis
qed

lemma NormalizeEmail_complete:
  assumes "wf_email (ToLower (TrimSpace email))"
  shows "NormalizeEmail email = Inr (ToLower (TrimSpace email))"
proof -
  let ?n = "ToLower (TrimSpace email)"
  from assms obtain u d where ud: "?n = u @ CHR ''@'' # d" "u \<noteq> []" "CHR ''@'' \<notin> set u"
    "CHR ''@'' \<notin> set d" "CHR ''.'' \<in> set d" "hd d \<noteq> CHR ''.''" "last d \<noteq> CHR ''.''"
    by (auto simp: wf_email_def)
  have ws: "\<not> ContainsAny ?n [CHR '' '', CHR 0x09, CHR 0x0D, CHR 0x0A]"
    using assms by (auto simp: wf_email_def ContainsAny_def list_ex_iff)
  have "Index ?n CHR ''@'' = int (length u)" "LastIndex ?n CHR ''@'' = int (length u)"
    using ud by (simp_all add: Index_split LastIndex_split)
  moreover have "drop (nat (int (length u)) + 1) ?n = d"
    by (simp add: ud(1))
  moreover have "?n \<noteq> []" "d \<noteq> []" using ud by auto
  ultimately show ?thesis
    using ud ws by (simp add: NormalizeEmail_def Let_def Contains_char prefix_char suffix_char)
qed


text \<open>A normalized address is a fixed point: the stored form is the account key.\<close>

lemma NormalizeEmail_idempotent:
  assumes "NormalizeEmail email = Inr e"
  shows "NormalizeEmail e = Inr e"
proof -
  from NormalizeEmail_sound [OF assms] have "wf_email e" by simp
  then have "ToLower (TrimSpace e) = e" by (simp add: wf_email_def)
  with \<open>wf_email e\<close> NormalizeEmail_complete [of e] show ?thesis by simp
qed

end
