(* ===== verification/Domain_Payout.thy ===== *)
theory Domain_Payout
  imports Cassino_Errors
begin

text \<open>
  The dice and the payout rule of \<open>internal/domain/game\<close> (\<open>dice.go\<close>, \<open>payout.go\<close>):
  the parity of the sum of two dice, and the 1.92 win multiplier in 64-bit integer
  arithmetic.
\<close>

section \<open>Dice\<close>

type_synonym Outcome = string

definition OutcomeEven :: Outcome where
  "OutcomeEven = ''even''"

definition OutcomeOdd :: Outcome where
  "OutcomeOdd = ''odd''"

definition Outcome_Valid :: "Outcome \<Rightarrow> bool" where
  "Outcome_Valid o' \<longleftrightarrow> o' = OutcomeEven \<or> o' = OutcomeOdd"

definition validDie :: "int \<Rightarrow> bool" where
  "validDie d \<longleftrightarrow> 1 \<le> d \<and> d \<le> 6"

definition OutcomeOf :: "int \<Rightarrow> int \<Rightarrow> error + Outcome" where
  "OutcomeOf die1 die2 =
     (if \<not> validDie die1 \<or> \<not> validDie die2 then Inl (GameErr ErrInvalidDie)
      else if (die1 + die2) mod 2 = 0 then Inr OutcomeEven
      else Inr OutcomeOdd)"

lemma outcome_distinct [simp]: "OutcomeEven \<noteq> OutcomeOdd" "OutcomeOdd \<noteq> OutcomeEven"
  by (simp_all add: OutcomeEven_def OutcomeOdd_def)

lemma outcome_valid [simp]: "Outcome_Valid OutcomeEven" "Outcome_Valid OutcomeOdd"
  by (simp_all add: Outcome_Valid_def)

lemma OutcomeOf_ok [ok_inv]:
  "OutcomeOf d1 d2 = Inr oc \<longleftrightarrow>
     validDie d1 \<and> validDie d2 \<and> oc = (if even (d1 + d2) then OutcomeEven else OutcomeOdd)"
  by (auto simp: OutcomeOf_def even_iff_mod_2_eq_zero)

lemma OutcomeOf_valid: "OutcomeOf d1 d2 = Inr oc \<Longrightarrow> Outcome_Valid oc"
  by (auto simp: ok_inv split: if_splits)

section \<open>Payout\<close>

definition PayoutNumerator :: int64 where
  "PayoutNumerator = 192"

definition PayoutDenominator :: int64 where
  "PayoutDenominator = 100"

definition Payout :: "int64 \<Rightarrow> int64" where
  "Payout stake =
     (if sint stake \<le> 0 then 0 else i64_div (stake * PayoutNumerator) PayoutDenominator)"

text \<open>The largest stake whose product with 192 still fits in an \<open>int64\<close>.\<close>

definition max_exact_stake :: int where
  "max_exact_stake = 48038396025285290"

lemma sint_payout_consts [simp]: "sint PayoutNumerator = 192" "sint PayoutDenominator = 100"
  by (simp_all add: PayoutNumerator_def PayoutDenominator_def)

lemma Payout_exact:
  assumes "0 < sint stake" and "sint stake \<le> max_exact_stake"
  shows "sint (Payout stake) = sint stake * 192 div 100"
proof -
  have fits: "fits64 (sint stake * 192)"
    using assms by (simp add: fits64_def max_exact_stake_def)
  then have mul: "sint (stake * PayoutNumerator) = sint stake * 192"
    by (simp add: sint64_mult)
  have "fits64 (sint stake * 192 div 100)"
    using assms unfolding fits64_def max_exact_stake_def by simp arith
  then show ?thesis
    using assms by (simp add: Payout_def i64_div_def mul sint64_of_int sgn_mult)
qed

lemma Payout_nonpos [simp]: "sint stake \<le> 0 \<Longrightarrow> Payout stake = 0"
  by (simp add: Payout_def)

text \<open>
  C26: for every stake up to 48038396025285290 cents the payout is the exact 1.92 multiple
  rounded down to a cent: it never exceeds 1.92 times the stake, is short of it by less than
  one cent, returns at least the stake and less than twice the stake.
\<close>

theorem Payout_rounds_down:
  assumes "0 < sint stake" and "sint stake \<le> max_exact_stake"
  shows "100 * sint (Payout stake) \<le> 192 * sint stake \<and>
         192 * sint stake < 100 * sint (Payout stake) + 100 \<and>
         sint stake \<le> sint (Payout stake) \<and> sint (Payout stake) < 2 * sint stake"
  unfolding Payout_exact [OF assms] using assms(1) by linarith

theorem Payout_rounds_down_witness:
  "100 * sint (Payout 3) \<le> 576 \<and> sint (Payout (3 :: int64)) = 5"
proof -
  have h: "0 < sint (3 :: int64)" "sint (3 :: int64) \<le> max_exact_stake"
    by (simp_all add: max_exact_stake_def)
  from Payout_rounds_down [OF h] show ?thesis by simp
qed


end
