(* ===== verification/Domain_Bet.thy ===== *)
theory Domain_Bet
  imports Domain_Payout
begin

text \<open>
  A single wager, \<open>internal/domain/game/bet.go\<close>: its validation, its settlement against
  an outcome and the read-only result.
\<close>

section \<open>Data\<close>

type_synonym Choice = string

definition ChoiceEven :: Choice where
  "ChoiceEven = ''even''"

definition ChoiceOdd :: Choice where
  "ChoiceOdd = ''odd''"

record Bet =
  bt_ID :: id
  bt_RoundID :: id
  bt_PlayerID :: id
  bt_Choice :: Choice
  bt_Amount :: int64
  bt_Won :: "bool option"
  bt_Payout :: "int64 option"
  bt_PlacedAt :: time

record Result =
  rs_BetID :: id
  rs_PlayerID :: id
  rs_Choice :: Choice
  rs_Amount :: int64
  rs_Won :: bool
  rs_Payout :: int64

section \<open>Operations\<close>

definition Choice_Valid :: "Choice \<Rightarrow> bool" where
  "Choice_Valid c \<longleftrightarrow> c = ChoiceEven \<or> c = ChoiceOdd"

definition ParseChoice :: "string \<Rightarrow> error + Choice" where
  "ParseChoice s =
     (let c = ToLower (TrimSpace s) in
      if \<not> Choice_Valid c then Inl (GameErr ErrInvalidChoice) else Inr c)"

definition Matches :: "Choice \<Rightarrow> Outcome \<Rightarrow> bool" where
  "Matches c oc \<longleftrightarrow> c = oc"

definition NewBet :: "id \<Rightarrow> id \<Rightarrow> id \<Rightarrow> Choice \<Rightarrow> int64 \<Rightarrow> time \<Rightarrow> error + Bet" where
  "NewBet bid roundID playerID choice amount placedAt =
     (if blank bid \<or> blank roundID \<or> blank playerID then Inl (GameErr game_error.ErrInvalidID)
      else if \<not> Choice_Valid choice then Inl (GameErr ErrInvalidChoice)
      else if sint amount \<le> 0 then Inl (GameErr game_error.ErrInvalidAmount)
      else Inr \<lparr>bt_ID = bid, bt_RoundID = roundID, bt_PlayerID = playerID, bt_Choice = choice,
                bt_Amount = amount, bt_Won = None, bt_Payout = None, bt_PlacedAt = placedAt\<rparr>)"

definition Settled :: "Bet \<Rightarrow> bool" where
  "Settled b \<longleftrightarrow> bt_Won b \<noteq> None"

definition Bet_Settle :: "Bet \<Rightarrow> Outcome \<Rightarrow> error + Bet" where
  "Bet_Settle b outcome =
     (if \<not> Outcome_Valid outcome then Inl (GameErr ErrInvalidChoice)
      else if Settled b then Inl (GameErr ErrRoundAlreadySettled)
      else
        let won = Matches (bt_Choice b) outcome;
            payout = (if won then Payout (bt_Amount b) else 0)
        in Inr (b\<lparr>bt_Won := Some won, bt_Payout := Some payout\<rparr>))"

text \<open>\<open>Bet.Result\<close>: the view, and whether the bet was settled.\<close>

definition Bet_Result :: "Bet \<Rightarrow> Result \<times> bool" where
  "Bet_Result b =
     (if \<not> Settled b
      then (\<lparr>rs_BetID = [], rs_PlayerID = [], rs_Choice = [], rs_Amount = 0, rs_Won = False,
             rs_Payout = 0\<rparr>, False)
      else (\<lparr>rs_BetID = bt_ID b, rs_PlayerID = bt_PlayerID b, rs_Choice = bt_Choice b,
             rs_Amount = bt_Amount b, rs_Won = the (bt_Won b), rs_Payout = the (bt_Payout b)\<rparr>, True))"

section \<open>Properties\<close>

lemma choice_distinct [simp]: "ChoiceEven \<noteq> ChoiceOdd" "ChoiceOdd \<noteq> ChoiceEven"
  by (simp_all add: ChoiceEven_def ChoiceOdd_def)

lemma choice_valid [simp]: "Choice_Valid ChoiceEven" "Choice_Valid ChoiceOdd"
  by (simp_all add: Choice_Valid_def)

lemma choice_outcome [simp]:
  "Matches ChoiceEven OutcomeEven" "Matches ChoiceOdd OutcomeOdd"
  "\<not> Matches ChoiceEven OutcomeOdd" "\<not> Matches ChoiceOdd OutcomeEven"
  by (simp_all add: Matches_def ChoiceEven_def ChoiceOdd_def OutcomeEven_def OutcomeOdd_def)

lemma NewBet_ok [ok_inv]:
  "NewBet bid rid pid c a at = Inr b \<longleftrightarrow>
     \<not> blank bid \<and> \<not> blank rid \<and> \<not> blank pid \<and> Choice_Valid c \<and> 0 < sint a \<and>
     b = \<lparr>bt_ID = bid, bt_RoundID = rid, bt_PlayerID = pid, bt_Choice = c, bt_Amount = a,
          bt_Won = None, bt_Payout = None, bt_PlacedAt = at\<rparr>"
  by (auto simp: NewBet_def)

text \<open>What a bet is credited with under an outcome.\<close>

definition credited :: "Choice \<Rightarrow> int64 \<Rightarrow> Outcome \<Rightarrow> int64" where
  "credited c a oc = (if Matches c oc then Payout a else 0)"

definition settled_as :: "Bet \<Rightarrow> Outcome \<Rightarrow> Bet" where
  "settled_as b oc = b\<lparr>bt_Won := Some (Matches (bt_Choice b) oc),
                      bt_Payout := Some (credited (bt_Choice b) (bt_Amount b) oc)\<rparr>"

definition result_under :: "Outcome \<Rightarrow> Bet \<Rightarrow> Result" where
  "result_under oc b =
     \<lparr>rs_BetID = bt_ID b, rs_PlayerID = bt_PlayerID b, rs_Choice = bt_Choice b,
      rs_Amount = bt_Amount b, rs_Won = Matches (bt_Choice b) oc,
      rs_Payout = credited (bt_Choice b) (bt_Amount b) oc\<rparr>"

lemma Bet_Settle_ok [ok_inv]:
  "Bet_Settle b oc = Inr b' \<longleftrightarrow> Outcome_Valid oc \<and> \<not> Settled b \<and> b' = settled_as b oc"
  by (auto simp: Bet_Settle_def Let_def settled_as_def credited_def)

lemma Bet_Result_settled_as [simp]: "Bet_Result (settled_as b oc) = (result_under oc b, True)"
  by (simp add: Bet_Result_def settled_as_def Settled_def result_under_def)

lemma settled_as_sel [simp]:
  "bt_ID (settled_as b oc) = bt_ID b" "bt_RoundID (settled_as b oc) = bt_RoundID b"
  "bt_PlayerID (settled_as b oc) = bt_PlayerID b" "bt_Choice (settled_as b oc) = bt_Choice b"
  "bt_Amount (settled_as b oc) = bt_Amount b" "bt_PlacedAt (settled_as b oc) = bt_PlacedAt b"
  "Settled (settled_as b oc)"
  by (simp_all add: settled_as_def Settled_def)

lemma ParseChoice_ok [ok_inv]:
  "ParseChoice s = Inr c \<longleftrightarrow> c = ToLower (TrimSpace s) \<and> Choice_Valid c"
  by (auto simp: ParseChoice_def Let_def)



text \<open>The 36 equally likely throws of two dice.\<close>

definition throws :: "(int \<times> int) list" where
  "throws = List.product [1..6] [1..6]"

definition paid_under :: "Bet \<Rightarrow> int \<Rightarrow> int \<Rightarrow> int" where
  "paid_under b d1 d2 =
     (case OutcomeOf d1 d2 of
        Inl _ \<Rightarrow> 0
      | Inr oc \<Rightarrow> (case Bet_Settle b oc of Inl _ \<Rightarrow> 0 | Inr b' \<Rightarrow> sint (the (bt_Payout b'))))"

definition total_paid :: "Bet \<Rightarrow> int" where
  "total_paid b = (\<Sum>(d1, d2) \<leftarrow> throws. paid_under b d1 d2)"

lemma throws_outcomes:
  "map (\<lambda>(d1, d2). OutcomeOf d1 d2) throws =
     concat (replicate 3 (concat (replicate 3 [Inr OutcomeEven, Inr OutcomeOdd]) @
                          concat (replicate 3 [Inr OutcomeOdd, Inr OutcomeEven])))"
  unfolding throws_def by code_simp

lemma Bet_Settle_payout:
  assumes "\<not> Settled b" and "Outcome_Valid oc"
  shows "(case Bet_Settle b oc of Inl _ \<Rightarrow> 0 | Inr b' \<Rightarrow> sint (the (bt_Payout b'))) =
         sint (credited (bt_Choice b) (bt_Amount b) oc)"
  using assms by (simp add: Bet_Settle_def Let_def credited_def)

lemma total_paid_eq:
  assumes "\<not> Settled b" and "Choice_Valid (bt_Choice b)"
  shows "total_paid b = 18 * sint (Payout (bt_Amount b))"
proof -
  let ?pay = "\<lambda>r. case r of Inl _ \<Rightarrow> 0
      | Inr oc \<Rightarrow> (case Bet_Settle b oc of Inl _ \<Rightarrow> 0 | Inr b' \<Rightarrow> sint (the (bt_Payout b')))"
  have "total_paid b = (\<Sum>r \<leftarrow> map (\<lambda>(d1, d2). OutcomeOf d1 d2) throws. ?pay r)"
    by (simp add: total_paid_def paid_under_def comp_def case_prod_unfold)
  also have "\<dots> = 18 * sint (Payout (bt_Amount b))"
    using assms unfolding throws_outcomes Choice_Valid_def
    by (auto simp: Bet_Settle_payout credited_def numeral_eq_Suc)
  finally show ?thesis .
qed


definition sample_bet :: Bet where
  "sample_bet = \<lparr>bt_ID = ''b'', bt_RoundID = ''r'', bt_PlayerID = ''p'', bt_Choice = ChoiceOdd,
     bt_Amount = 1000, bt_Won = None, bt_Payout = None, bt_PlacedAt = 0\<rparr>"


end
