(* ===== verification/Domain_Round.thy ===== *)
theory Domain_Round
  imports Domain_Bet "HOL-Library.AList"
begin

text \<open>
  One deal inside a room, \<open>internal/domain/game/round.go\<close>: the half-open betting window,
  the one-bet-per-player rule and the settlement of every bet.  The Go map from player to
  bet is an association list, whose order stands for the order Go happens to range over it.
  Settlement mutates the bets through pointers, so it returns the round also when it fails.
\<close>

section \<open>Data\<close>

definition MaxPlayers :: int where
  "MaxPlayers = 6"

definition MaxRounds :: int where
  "MaxRounds = 10"

definition DefaultBettingWindow :: duration where
  "DefaultBettingWindow = 15 * Second"

type_synonym RoundStatus = string

definition RoundBetting :: RoundStatus where
  "RoundBetting = ''betting''"

definition RoundSettled :: RoundStatus where
  "RoundSettled = ''settled''"

definition RoundStatus_Valid :: "RoundStatus \<Rightarrow> bool" where
  "RoundStatus_Valid s \<longleftrightarrow> s = RoundBetting \<or> s = RoundSettled"

record Round =
  rd_ID :: id
  rd_RoomID :: id
  rd_Number :: int
  rd_BettingOpensAt :: time
  rd_BettingClosesAt :: time
  rd_Die1 :: int
  rd_Die2 :: int
  rd_Outcome :: Outcome
  rd_Status :: RoundStatus
  rd_SettledAt :: "time option"
  rd_bets :: "(id \<times> Bet) list"

section \<open>Operations\<close>

definition NewRound :: "id \<Rightarrow> id \<Rightarrow> int \<Rightarrow> time \<Rightarrow> duration \<Rightarrow> error + Round" where
  "NewRound rid roomID number opensAt window =
     (if blank rid \<or> blank roomID then Inl (GameErr game_error.ErrInvalidID)
      else if number < 1 \<or> MaxRounds < number then Inl (GameErr ErrInvalidRoundNumber)
      else if window \<le> 0 then Inl (GameErr ErrInvalidBettingWindow)
      else Inr \<lparr>rd_ID = rid, rd_RoomID = roomID, rd_Number = number,
                rd_BettingOpensAt = opensAt, rd_BettingClosesAt = opensAt + window,
                rd_Die1 = 0, rd_Die2 = 0, rd_Outcome = [], rd_Status = RoundBetting,
                rd_SettledAt = None, rd_bets = []\<rparr>)"

definition RehydrateRound ::
    "id \<Rightarrow> id \<Rightarrow> int \<Rightarrow> time \<Rightarrow> time \<Rightarrow> int \<Rightarrow> int \<Rightarrow> Outcome \<Rightarrow> RoundStatus \<Rightarrow> time option \<Rightarrow>
     Bet list \<Rightarrow> error + Round" where
  "RehydrateRound rid roomID number opensAt closesAt die1 die2 outcome status settledAt bets =
     (if blank rid \<or> blank roomID then Inl (GameErr game_error.ErrInvalidID)
      else if number < 1 \<or> MaxRounds < number then Inl (GameErr ErrInvalidRoundNumber)
      else if \<not> RoundStatus_Valid status then Inl (GameErr ErrInvalidRoundNumber)
      else if \<not> opensAt < closesAt then Inl (GameErr ErrInvalidBettingWindow)
      else Inr \<lparr>rd_ID = rid, rd_RoomID = roomID, rd_Number = number,
                rd_BettingOpensAt = opensAt, rd_BettingClosesAt = closesAt,
                rd_Die1 = die1, rd_Die2 = die2, rd_Outcome = outcome, rd_Status = status,
                rd_SettledAt = settledAt,
                rd_bets = fold (\<lambda>b m. AList.update (bt_PlayerID b) b m) bets []\<rparr>)"

definition BettingOpen :: "Round \<Rightarrow> time \<Rightarrow> bool" where
  "BettingOpen r now \<longleftrightarrow>
     (if rd_Status r \<noteq> RoundBetting then False
      else \<not> now < rd_BettingOpensAt r \<and> now < rd_BettingClosesAt r)"

definition HasBet :: "Round \<Rightarrow> id \<Rightarrow> bool" where
  "HasBet r playerID \<longleftrightarrow> map_of (rd_bets r) playerID \<noteq> None"

definition Round_PlaceBet :: "Round \<Rightarrow> Bet option \<Rightarrow> time \<Rightarrow> error + Round" where
  "Round_PlaceBet r bet now =
     (case bet of
        None \<Rightarrow> Inl (GameErr game_error.ErrInvalidID)
      | Some b \<Rightarrow>
          if bt_RoundID b \<noteq> rd_ID r then Inl (GameErr game_error.ErrInvalidID)
          else if rd_Status r = RoundSettled then Inl (GameErr ErrRoundAlreadySettled)
          else if now < rd_BettingOpensAt r then Inl (GameErr ErrBettingNotOpen)
          else if \<not> now < rd_BettingClosesAt r then Inl (GameErr ErrBettingClosed)
          else if map_of (rd_bets r) (bt_PlayerID b) \<noteq> None then Inl (GameErr ErrDuplicateBet)
          else Inr (r\<lparr>rd_bets := AList.update (bt_PlayerID b) b (rd_bets r)\<rparr>))"

definition Bets :: "Round \<Rightarrow> Bet list" where
  "Bets r = insertion_sort (\<lambda>a b. bt_PlacedAt a < bt_PlacedAt b) (map snd (rd_bets r))"

text \<open>The loop of \<open>settleWith\<close>: the bets to resolve, the map they live in, the results so far.\<close>

fun settle_bets ::
    "Outcome \<Rightarrow> Bet list \<Rightarrow> (id \<times> Bet) list \<Rightarrow> Result list \<Rightarrow>
     (error + Result list) \<times> (id \<times> Bet) list" where
  "settle_bets outcome [] m results = (Inr results, m)"
| "settle_bets outcome (b # bs) m results =
     (case Bet_Settle b outcome of
        Inl e \<Rightarrow> (Inl e, m)
      | Inr b' \<Rightarrow> settle_bets outcome bs (AList.update (bt_PlayerID b') b' m)
                    (results @ [fst (Bet_Result b')]))"

definition settleWith ::
    "Round \<Rightarrow> int \<Rightarrow> int \<Rightarrow> Outcome \<Rightarrow> time \<Rightarrow> (error + Result list) \<times> Round" where
  "settleWith r die1 die2 outcome now =
     (case settle_bets outcome (Bets r) (rd_bets r) [] of
        (Inl e, m) \<Rightarrow> (Inl e, r\<lparr>rd_bets := m\<rparr>)
      | (Inr results, m) \<Rightarrow>
          (Inr results,
           r\<lparr>rd_bets := m, rd_Die1 := die1, rd_Die2 := die2, rd_Outcome := outcome,
             rd_Status := RoundSettled, rd_SettledAt := Some now\<rparr>))"

text \<open>
  \<open>Settle\<close> takes the roller (nil or what its \<open>Roll\<close> returns).
\<close>

definition Round_Settle ::
    "Round \<Rightarrow> (error + int \<times> int) option \<Rightarrow> time \<Rightarrow> (error + Result list) \<times> Round" where
  "Round_Settle r roller now =
     (if rd_Status r = RoundSettled then (Inl (GameErr ErrRoundAlreadySettled), r)
      else case roller of
        None \<Rightarrow> (Inl (GameErr ErrNoActiveRound), r)
      | Some (Inl e) \<Rightarrow> (Inl e, r)
      | Some (Inr (die1, die2)) \<Rightarrow>
          (case OutcomeOf die1 die2 of
             Inl e \<Rightarrow> (Inl e, r)
           | Inr outcome \<Rightarrow> settleWith r die1 die2 outcome now))"

definition SettleWithDice :: "Round \<Rightarrow> int \<Rightarrow> int \<Rightarrow> time \<Rightarrow> (error + Result list) \<times> Round" where
  "SettleWithDice r die1 die2 now =
     (if rd_Status r = RoundSettled then (Inl (GameErr ErrRoundAlreadySettled), r)
      else case OutcomeOf die1 die2 of
        Inl e \<Rightarrow> (Inl e, r)
      | Inr outcome \<Rightarrow> settleWith r die1 die2 outcome now)"

section \<open>The round invariant\<close>

lemma round_status_distinct [simp]: "RoundBetting \<noteq> RoundSettled" "RoundSettled \<noteq> RoundBetting"
  by (simp_all add: RoundBetting_def RoundSettled_def)

lemma round_status_valid [simp]: "RoundStatus_Valid RoundBetting" "RoundStatus_Valid RoundSettled"
  by (simp_all add: RoundStatus_Valid_def)

definition bet_of_round :: "Round \<Rightarrow> Bet \<Rightarrow> bool" where
  "bet_of_round r b \<longleftrightarrow> bt_RoundID b = rd_ID r \<and> Choice_Valid (bt_Choice b) \<and> 0 < sint (bt_Amount b) \<and>
     rd_BettingOpensAt r \<le> bt_PlacedAt b \<and> bt_PlacedAt b < rd_BettingClosesAt r"

definition bet_state :: "Round \<Rightarrow> Bet \<Rightarrow> bool" where
  "bet_state r b \<longleftrightarrow>
     (if rd_Status r = RoundBetting then bt_Won b = None \<and> bt_Payout b = None
      else bt_Won b = Some (Matches (bt_Choice b) (rd_Outcome r)) \<and>
           bt_Payout b = Some (credited (bt_Choice b) (bt_Amount b) (rd_Outcome r)))"

definition wf_round :: "Round \<Rightarrow> bool" where
  "wf_round r \<longleftrightarrow>
     \<not> blank (rd_ID r) \<and> \<not> blank (rd_RoomID r) \<and> 1 \<le> rd_Number r \<and> rd_Number r \<le> MaxRounds \<and>
     RoundStatus_Valid (rd_Status r) \<and> rd_BettingOpensAt r < rd_BettingClosesAt r \<and>
     distinct (map fst (rd_bets r)) \<and>
     (\<forall>(p, b) \<in> set (rd_bets r). p = bt_PlayerID b \<and> bet_of_round r b \<and> bet_state r b) \<and>
     (if rd_Status r = RoundBetting
      then rd_Die1 r = 0 \<and> rd_Die2 r = 0 \<and> rd_Outcome r = [] \<and> rd_SettledAt r = None
      else OutcomeOf (rd_Die1 r) (rd_Die2 r) = Inr (rd_Outcome r) \<and> rd_SettledAt r \<noteq> None)"

lemma NewRound_ok [ok_inv]:
  "NewRound rid roomID n opens window = Inr r \<longleftrightarrow>
     \<not> blank rid \<and> \<not> blank roomID \<and> 1 \<le> n \<and> n \<le> MaxRounds \<and> 0 < window \<and>
     r = \<lparr>rd_ID = rid, rd_RoomID = roomID, rd_Number = n,
          rd_BettingOpensAt = opens, rd_BettingClosesAt = opens + window,
          rd_Die1 = 0, rd_Die2 = 0, rd_Outcome = [], rd_Status = RoundBetting,
          rd_SettledAt = None, rd_bets = []\<rparr>"
  by (auto simp: NewRound_def)

lemma wf_NewRound: "NewRound rid roomID n opens window = Inr r \<Longrightarrow> wf_round r"
  by (auto simp: ok_inv wf_round_def)

text \<open>A bet is accepted exactly inside the window, once per player.\<close>

lemma Round_PlaceBet_ok [ok_inv]:
  "Round_PlaceBet r (Some b) now = Inr r' \<longleftrightarrow>
     bt_RoundID b = rd_ID r \<and> rd_Status r \<noteq> RoundSettled \<and>
     rd_BettingOpensAt r \<le> now \<and> now < rd_BettingClosesAt r \<and> \<not> HasBet r (bt_PlayerID b) \<and>
     r' = r\<lparr>rd_bets := AList.update (bt_PlayerID b) b (rd_bets r)\<rparr>"
  by (auto simp: Round_PlaceBet_def HasBet_def)

lemma AList_update_new: "map_of m k = None \<Longrightarrow> AList.update k v m = m @ [(k, v)]"
  by (induction m) (auto split: if_splits)

lemma AList_update_old:
  "k \<in> fst ` set m \<Longrightarrow> distinct (map fst m) \<Longrightarrow>
   AList.update k v m = map (\<lambda>(k', v'). (k', if k' = k then v else v')) m"
proof (induction m)
  case (Cons a m)
  then show ?case
    by (cases a) (auto intro!: map_idI [symmetric] simp: rev_image_eqI)
qed simp

lemma wf_Round_PlaceBet:
  assumes "wf_round r" and "Round_PlaceBet r (Some b) now = Inr r'"
    and "bt_PlacedAt b = now" and "Choice_Valid (bt_Choice b)" and "0 < sint (bt_Amount b)"
    and "bt_Won b = None" and "bt_Payout b = None"
  shows "wf_round r'"
proof -
  from assms(2) have r': "r' = r\<lparr>rd_bets := rd_bets r @ [(bt_PlayerID b, b)]\<rparr>"
    and new: "map_of (rd_bets r) (bt_PlayerID b) = None" and st: "rd_Status r \<noteq> RoundSettled"
    and b: "bt_RoundID b = rd_ID r" "rd_BettingOpensAt r \<le> now" "now < rd_BettingClosesAt r"
    by (auto simp: ok_inv HasBet_def AList_update_new)
  have "bt_PlayerID b \<notin> fst ` set (rd_bets r)"
    using new by (simp add: map_of_eq_None_iff)
  then show ?thesis
    using assms(1,3-) b st unfolding r'
    by (auto simp: wf_round_def bet_of_round_def bet_state_def RoundStatus_Valid_def)
qed

section \<open>Settlement\<close>

lemma Bets_eq: "Bets r = sort_key bt_PlacedAt (map snd (rd_bets r))"
  by (simp add: Bets_def insertion_sort_eq)

lemma set_Bets: "set (Bets r) = snd ` set (rd_bets r)"
  by (simp add: Bets_eq)

lemma settle_bets_ok:
  assumes "Outcome_Valid oc" and "\<forall>b \<in> set bs. \<not> Settled b"
  shows "settle_bets oc bs m results =
     (Inr (results @ map (result_under oc) bs),
      fold (\<lambda>b. AList.update (bt_PlayerID b) (settled_as b oc)) bs m)"
  using assms(2)
proof (induction bs arbitrary: m results)
  case (Cons b bs)
  then have "Bet_Settle b oc = Inr (settled_as b oc)"
    using assms(1) by (simp add: ok_inv)
  with Cons show ?case by simp
qed simp

lemma fold_update_settled:
  assumes "distinct (map fst m)" and "distinct (map bt_PlayerID bs)"
    and "\<forall>b \<in> set bs. (bt_PlayerID b, b) \<in> set m"
  shows "fold (\<lambda>b. AList.update (bt_PlayerID b) (settled_as b oc)) bs m =
     map (\<lambda>(p, b). (p, if p \<in> bt_PlayerID ` set bs then settled_as b oc else b)) m"
  using assms
proof (induction bs arbitrary: m)
  case Nil
  then show ?case by (simp add: case_prod_unfold)
next
  case (Cons b bs)
  let ?m = "map (\<lambda>(p, c). (p, if p = bt_PlayerID b then settled_as b oc else c)) m"
  have upd: "AList.update (bt_PlayerID b) (settled_as b oc) m = ?m"
    using Cons.prems by (intro AList_update_old) (auto simp: rev_image_eqI)
  have keys: "map fst ?m = map fst m" by (simp add: comp_def case_prod_unfold)
  have dist: "distinct (map fst ?m)"
    unfolding keys by (rule Cons.prems(1))
  have "\<forall>c \<in> set bs. (bt_PlayerID c, c) \<in> set ?m"
    using Cons.prems by (force simp: rev_image_eqI image_iff)
  then have "fold (\<lambda>b. AList.update (bt_PlayerID b) (settled_as b oc)) bs ?m =
      map (\<lambda>(p, c). (p, if p \<in> bt_PlayerID ` set bs then settled_as c oc else c)) ?m"
    using Cons.prems(2) by (intro Cons.IH [OF dist]) auto
  moreover have "settled_as b oc = settled_as c oc" if "(bt_PlayerID b, c) \<in> set m" for c
    using that Cons.prems by (auto dest: eq_key_imp_eq_value)
  ultimately show ?case
    using Cons.prems(2) by (fastforce simp: upd)
qed

lemma wf_round_bet_keys:
  assumes "wf_round r"
  shows "map fst (rd_bets r) = map bt_PlayerID (map snd (rd_bets r))"
  using assms by (auto simp: wf_round_def)

lemma wf_round_Bets:
  assumes "wf_round r"
  shows "distinct (map bt_PlayerID (Bets r))" and "\<forall>b \<in> set (Bets r). (bt_PlayerID b, b) \<in> set (rd_bets r)"
proof -
  have "mset (map bt_PlayerID (Bets r)) = mset (map fst (rd_bets r))"
    using wf_round_bet_keys [OF assms] by (simp add: Bets_eq mset_map del: map_map)
  from mset_eq_imp_distinct_iff [OF this] show "distinct (map bt_PlayerID (Bets r))"
    using assms by (simp add: wf_round_def)
  show "\<forall>b \<in> set (Bets r). (bt_PlayerID b, b) \<in> set (rd_bets r)"
    using assms by (auto simp: set_Bets wf_round_def)
qed

text \<open>What settlement leaves: every bet resolved against the outcome, in place.\<close>

definition settled_round :: "Round \<Rightarrow> int \<Rightarrow> int \<Rightarrow> Outcome \<Rightarrow> time \<Rightarrow> Round" where
  "settled_round r die1 die2 outcome now =
     r\<lparr>rd_bets := map (\<lambda>(p, b). (p, settled_as b outcome)) (rd_bets r),
       rd_Die1 := die1, rd_Die2 := die2, rd_Outcome := outcome,
       rd_Status := RoundSettled, rd_SettledAt := Some now\<rparr>"

lemma wf_betting_unsettled:
  assumes "wf_round r" and "rd_Status r = RoundBetting" and "b \<in> set (Bets r)"
  shows "\<not> Settled b"
  using assms by (auto simp: wf_round_def set_Bets bet_state_def Settled_def)

lemma settleWith_ok:
  assumes wf: "wf_round r" and st: "rd_Status r = RoundBetting" and oc: "Outcome_Valid oc"
  shows "settleWith r d1 d2 oc now =
    (Inr (map (result_under oc) (Bets r)), settled_round r d1 d2 oc now)"
proof -
  have uns: "\<forall>b \<in> set (Bets r). \<not> Settled b"
    using wf_betting_unsettled [OF wf st] by blast
  have "map (\<lambda>(p, b). (p, if p \<in> bt_PlayerID ` set (Bets r) then settled_as b oc else b)) (rd_bets r)
      = map (\<lambda>(p, b). (p, settled_as b oc)) (rd_bets r)"
    using wf by (auto simp: set_Bets wf_round_def rev_image_eqI)
  then show ?thesis
    using wf by (simp add: settleWith_def settle_bets_ok [OF oc uns] settled_round_def wf_round_def
        fold_update_settled [OF _ wf_round_Bets(1) wf_round_Bets(2)])
qed

lemma OutcomeOf_Valid: "OutcomeOf a b = Inr oc \<Longrightarrow> Outcome_Valid oc"
  by (auto simp: OutcomeOf_def Outcome_Valid_def split: if_splits)

lemma wf_settled_round:
  assumes "wf_round r" and "rd_Status r = RoundBetting" and "OutcomeOf d1 d2 = Inr oc"
  shows "wf_round (settled_round r d1 d2 oc now)"
  using assms
  by (auto simp: wf_round_def settled_round_def bet_of_round_def bet_state_def settled_as_def
      comp_def case_prod_unfold)

lemma Round_Settle_ok:
  assumes "wf_round r" and "rd_Status r = RoundBetting" and "OutcomeOf d1 d2 = Inr oc"
  shows "Round_Settle r (Some (Inr (d1, d2))) now =
    (Inr (map (result_under oc) (Bets r)), settled_round r d1 d2 oc now)"
  using assms settleWith_ok OutcomeOf_Valid by (simp add: Round_Settle_def)

lemma SettleWithDice_ok:
  assumes "wf_round r" and "rd_Status r = RoundBetting" and "OutcomeOf d1 d2 = Inr oc"
  shows "SettleWithDice r d1 d2 now =
    (Inr (map (result_under oc) (Bets r)), settled_round r d1 d2 oc now)"
  using assms settleWith_ok OutcomeOf_Valid by (simp add: SettleWithDice_def)

lemma Round_Settle_error:
  assumes "wf_round r" and "Round_Settle r roller now = (Inl e, r')"
  shows "r' = r"
  using assms settleWith_ok [OF assms(1) _ OutcomeOf_Valid]
  by (auto simp: Round_Settle_def wf_round_def RoundStatus_Valid_def split: if_splits option.splits sum.splits)

lemma sort_key_map_same:
  assumes "\<And>x. k (f x) = k x"
  shows "sort_key k (map f xs) = map f (sort_key k xs)"
proof (induction xs)
  case (Cons x xs)
  have "insort_key k (f y) (map f ys) = map f (insort_key k y ys)" for y ys
    using assms by (induction ys) auto
  with Cons show ?case by simp
qed simp

lemma Bets_settled_round: "Bets (settled_round r d1 d2 oc now) = map (\<lambda>b. settled_as b oc) (Bets r)"
  using sort_key_map_same [of bt_PlacedAt "\<lambda>b. settled_as b oc" "map snd (rd_bets r)"]
  by (simp add: Bets_eq settled_round_def comp_def case_prod_unfold)

text \<open>
  C23: settlement.  A well-formed round in its betting phase settled on a legal throw succeeds:
  it reports one result per bet in placement order, each with the outcome and the payout of
  that bet and no other effect on it, the round stays well-formed, and settling it again is
  refused without changing anything.
\<close>

theorem Round_Settle_resolves:
  assumes "wf_round r" and "rd_Status r = RoundBetting" and "OutcomeOf d1 d2 = Inr oc"
  shows "\<exists>r'. Round_Settle r (Some (Inr (d1, d2))) now = (Inr (map (result_under oc) (Bets r)), r')
    \<and> wf_round r' \<and> rd_Status r' = RoundSettled \<and> rd_Outcome r' = oc
    \<and> Bets r' = map (\<lambda>b. settled_as b oc) (Bets r)
    \<and> (\<forall>roller later. Round_Settle r' roller later = (Inl (GameErr ErrRoundAlreadySettled), r'))"
proof (intro exI conjI allI)
  let ?r' = "settled_round r d1 d2 oc now"
  show "Round_Settle r (Some (Inr (d1, d2))) now = (Inr (map (result_under oc) (Bets r)), ?r')"
    by (rule Round_Settle_ok [OF assms])
  show "wf_round ?r'" by (rule wf_settled_round [OF assms])
  show "Bets ?r' = map (\<lambda>b. settled_as b oc) (Bets r)"
    by (rule Bets_settled_round)
qed (simp_all add: settled_round_def Round_Settle_def)

definition sample_round :: Round where
  "sample_round = \<lparr>rd_ID = ''r'', rd_RoomID = ''room'', rd_Number = 1, rd_BettingOpensAt = 0,
     rd_BettingClosesAt = 15, rd_Die1 = 0, rd_Die2 = 0, rd_Outcome = [], rd_Status = RoundBetting,
     rd_SettledAt = None, rd_bets = [(''p'', sample_bet)]\<rparr>"

theorem Round_Settle_resolves_witness:
  "fst (Round_Settle sample_round (Some (Inr (3, 4))) 20) = Inr [result_under OutcomeOdd sample_bet]"
proof -
  have "wf_round sample_round" by code_simp
  moreover have "rd_Status sample_round = RoundBetting" by code_simp
  moreover have "OutcomeOf 3 4 = Inr OutcomeOdd" by code_simp
  ultimately have "fst (Round_Settle sample_round (Some (Inr (3, 4))) 20) =
      Inr (map (result_under OutcomeOdd) (Bets sample_round))"
    using Round_Settle_resolves [of sample_round 3 4 OutcomeOdd 20] by auto
  moreover have "Bets sample_round = [sample_bet]" by code_simp
  ultimately show ?thesis by simp
qed

end
