(* ===== verification/Domain_Room.thy ===== *)
theory Domain_Room
  imports Domain_Round
begin

text \<open>
  The table, \<open>internal/domain/game/room.go\<close>: the seats, the round counter and the lifecycle
  open, closing, closed.  Every method of \<open>Room\<close> is a function from the room to the room,
  methods that can fail return the error on the left.  \<open>SettleRound\<close> mutates the round it
  points to, so it returns the room also when it fails.  The lifecycle is a step relation over
  these methods, with one invariant \<open>wf_room\<close> that holds in every reachable room.
\<close>

section \<open>Data\<close>

type_synonym RoomStatus = string

definition RoomOpen :: RoomStatus where
  "RoomOpen = ''open''"

definition RoomClosing :: RoomStatus where
  "RoomClosing = ''closing''"

definition RoomClosed :: RoomStatus where
  "RoomClosed = ''closed''"

definition RoomStatus_Valid :: "RoomStatus \<Rightarrow> bool" where
  "RoomStatus_Valid s \<longleftrightarrow> s = RoomOpen \<or> s = RoomClosing \<or> s = RoomClosed"

record Room =
  rm_ID :: id
  rm_OwnerID :: id
  rm_Status :: RoomStatus
  rm_MaxRounds :: int
  rm_MaxPlayers :: int
  rm_CurrentRound :: int
  rm_CreatedAt :: time
  rm_ClosedAt :: "time option"
  rm_players :: "(id \<times> time) list"
  rm_round :: "Round option"

section \<open>Operations\<close>

definition NewRoom :: "id \<Rightarrow> id \<Rightarrow> time \<Rightarrow> error + Room" where
  "NewRoom rid ownerID createdAt =
     (if blank rid \<or> blank ownerID then Inl (GameErr game_error.ErrInvalidID)
      else Inr \<lparr>rm_ID = rid, rm_OwnerID = ownerID, rm_Status = RoomOpen,
                rm_MaxRounds = MaxRounds, rm_MaxPlayers = MaxPlayers, rm_CurrentRound = 0,
                rm_CreatedAt = createdAt, rm_ClosedAt = None,
                rm_players = [(ownerID, createdAt)], rm_round = None\<rparr>)"

definition RehydrateRoom ::
    "id \<Rightarrow> id \<Rightarrow> RoomStatus \<Rightarrow> int \<Rightarrow> time \<Rightarrow> time option \<Rightarrow> (id \<times> time) list \<Rightarrow> Round option \<Rightarrow>
     error + Room" where
  "RehydrateRoom rid ownerID status currentRound createdAt closedAt players liveRound =
     (if blank rid \<or> blank ownerID then Inl (GameErr game_error.ErrInvalidID)
      else if \<not> RoomStatus_Valid status then Inl (GameErr ErrRoomNotOpen)
      else Inr \<lparr>rm_ID = rid, rm_OwnerID = ownerID, rm_Status = status,
                rm_MaxRounds = MaxRounds, rm_MaxPlayers = MaxPlayers, rm_CurrentRound = currentRound,
                rm_CreatedAt = createdAt, rm_ClosedAt = closedAt,
                rm_players = players, rm_round = liveRound\<rparr>)"

definition PlayerCount :: "Room \<Rightarrow> int" where
  "PlayerCount r = int (length (rm_players r))"

definition HasPlayer :: "Room \<Rightarrow> id \<Rightarrow> bool" where
  "HasPlayer r playerID \<longleftrightarrow> map_of (rm_players r) playerID \<noteq> None"

text \<open>The join time read through the map, the zero time when absent.\<close>

definition joined_at :: "Room \<Rightarrow> id \<Rightarrow> time" where
  "joined_at r p = (case map_of (rm_players r) p of None \<Rightarrow> 0 | Some t \<Rightarrow> t)"

definition Players :: "Room \<Rightarrow> id list" where
  "Players r = insertion_sort (\<lambda>a b. joined_at r a < joined_at r b) (map fst (rm_players r))"

definition IsOwner :: "Room \<Rightarrow> id \<Rightarrow> bool" where
  "IsOwner r playerID \<longleftrightarrow> rm_OwnerID r = playerID"

definition Full :: "Room \<Rightarrow> bool" where
  "Full r \<longleftrightarrow> rm_MaxPlayers r \<le> int (length (rm_players r))"

definition Room_Active :: "Room \<Rightarrow> bool" where
  "Room_Active r \<longleftrightarrow> rm_Status r \<noteq> RoomClosed"

definition AttachRound :: "Room \<Rightarrow> Round option \<Rightarrow> Room" where
  "AttachRound r rnd =
     (case rnd of
        None \<Rightarrow> r\<lparr>rm_round := None\<rparr>
      | Some rd \<Rightarrow> if rd_Status rd = RoundSettled then r\<lparr>rm_round := None\<rparr>
                  else r\<lparr>rm_round := Some rd\<rparr>)"

definition Join :: "Room \<Rightarrow> id \<Rightarrow> time \<Rightarrow> error + Room" where
  "Join r playerID now =
     (if blank playerID then Inl (GameErr game_error.ErrInvalidID)
      else if rm_Status r = RoomClosed then Inl (GameErr ErrRoomClosed)
      else if rm_Status r = RoomClosing then Inl (GameErr ErrRoomNotOpen)
      else if map_of (rm_players r) playerID \<noteq> None then Inl (GameErr ErrAlreadyJoined)
      else if Full r then Inl (GameErr ErrRoomFull)
      else Inr (r\<lparr>rm_players := AList.update playerID now (rm_players r)\<rparr>))"

definition Leave :: "Room \<Rightarrow> id \<Rightarrow> error + Room" where
  "Leave r playerID =
     (if map_of (rm_players r) playerID = None then Inl (GameErr ErrNotAMember)
      else Inr (r\<lparr>rm_players := AList.delete playerID (rm_players r)\<rparr>))"

text \<open>A live round is one the room holds and that is not settled.\<close>

definition live_round :: "Room \<Rightarrow> bool" where
  "live_round r \<longleftrightarrow> (case rm_round r of None \<Rightarrow> False | Some rd \<Rightarrow> rd_Status rd \<noteq> RoundSettled)"

definition StartRound :: "Room \<Rightarrow> id \<Rightarrow> time \<Rightarrow> duration \<Rightarrow> error + (Round \<times> Room)" where
  "StartRound r roundID now window =
     (if rm_Status r \<noteq> RoomOpen then
        (if rm_Status r = RoomClosed then Inl (GameErr ErrRoomClosed) else Inl (GameErr ErrRoomNotOpen))
      else if live_round r then Inl (GameErr ErrRoundInProgress)
      else if length (rm_players r) = 0 then Inl (GameErr ErrNoPlayers)
      else if rm_MaxRounds r \<le> rm_CurrentRound r then Inl (GameErr ErrMaxRoundsReached)
      else case NewRound roundID (rm_ID r) (rm_CurrentRound r + 1) now window of
        Inl e \<Rightarrow> Inl e
      | Inr rd \<Rightarrow> Inr (rd, r\<lparr>rm_CurrentRound := rd_Number rd, rm_round := Some rd\<rparr>))"

definition PlaceBet :: "Room \<Rightarrow> Bet option \<Rightarrow> time \<Rightarrow> error + Room" where
  "PlaceBet r bet now =
     (case bet of
        None \<Rightarrow> Inl (GameErr game_error.ErrInvalidID)
      | Some b \<Rightarrow>
          if \<not> Room_Active r then Inl (GameErr ErrRoomClosed)
          else if \<not> HasPlayer r (bt_PlayerID b) then Inl (GameErr ErrNotAMember)
          else case rm_round r of
            None \<Rightarrow> Inl (GameErr ErrNoActiveRound)
          | Some rd \<Rightarrow>
              (case Round_PlaceBet rd (Some b) now of
                 Inl e \<Rightarrow> Inl e
               | Inr rd' \<Rightarrow> Inr (r\<lparr>rm_round := Some rd'\<rparr>)))"

definition markClosed :: "Room \<Rightarrow> time \<Rightarrow> Room" where
  "markClosed r now = r\<lparr>rm_Status := RoomClosed, rm_ClosedAt := Some now\<rparr>"

definition finishRound :: "Room \<Rightarrow> time \<Rightarrow> Room" where
  "finishRound r now =
     (if rm_Status r = RoomClosing \<or> rm_MaxRounds r \<le> rm_CurrentRound r then markClosed r now else r)"

definition SettleRound ::
    "Room \<Rightarrow> (error + int \<times> int) option \<Rightarrow> time \<Rightarrow> (error + Result list) \<times> Room" where
  "SettleRound r roller now =
     (case rm_round r of
        None \<Rightarrow> (Inl (GameErr ErrNoActiveRound), r)
      | Some rd \<Rightarrow>
          if rm_Status r = RoomClosed then (Inl (GameErr ErrRoomClosed), r)
          else case Round_Settle rd roller now of
            (Inl e, rd') \<Rightarrow> (Inl e, r\<lparr>rm_round := Some rd'\<rparr>)
          | (Inr results, rd') \<Rightarrow> (Inr results, finishRound (r\<lparr>rm_round := Some rd'\<rparr>) now))"

definition SettleRoundWithDice ::
    "Room \<Rightarrow> int \<Rightarrow> int \<Rightarrow> time \<Rightarrow> (error + Result list) \<times> Room" where
  "SettleRoundWithDice r die1 die2 now =
     (case rm_round r of
        None \<Rightarrow> (Inl (GameErr ErrNoActiveRound), r)
      | Some rd \<Rightarrow>
          if rm_Status r = RoomClosed then (Inl (GameErr ErrRoomClosed), r)
          else case SettleWithDice rd die1 die2 now of
            (Inl e, rd') \<Rightarrow> (Inl e, r\<lparr>rm_round := Some rd'\<rparr>)
          | (Inr results, rd') \<Rightarrow> (Inr results, finishRound (r\<lparr>rm_round := Some rd'\<rparr>) now))"

definition Close :: "Room \<Rightarrow> id \<Rightarrow> time \<Rightarrow> error + Room" where
  "Close r requesterID now =
     (if \<not> IsOwner r requesterID then Inl (GameErr ErrNotOwner)
      else if rm_Status r = RoomClosed then Inl (GameErr ErrRoomClosed)
      else if rm_Status r = RoomClosing then Inr r
      else if live_round r then Inr (r\<lparr>rm_Status := RoomClosing\<rparr>)
      else Inr (markClosed r now))"

definition ForceClose :: "Room \<Rightarrow> time \<Rightarrow> Room" where
  "ForceClose r now = (if rm_Status r \<noteq> RoomClosed then markClosed r now else r)"

definition RoundsRemaining :: "Room \<Rightarrow> int" where
  "RoundsRemaining r =
     (if rm_MaxRounds r - rm_CurrentRound r < 0 then 0 else rm_MaxRounds r - rm_CurrentRound r)"

lemma room_status_distinct [simp]:
  "RoomOpen \<noteq> RoomClosing" "RoomOpen \<noteq> RoomClosed" "RoomClosing \<noteq> RoomClosed"
  "RoomClosing \<noteq> RoomOpen" "RoomClosed \<noteq> RoomOpen" "RoomClosed \<noteq> RoomClosing"
  by (simp_all add: RoomOpen_def RoomClosing_def RoomClosed_def)

lemma room_status_valid [simp]:
  "RoomStatus_Valid RoomOpen" "RoomStatus_Valid RoomClosing" "RoomStatus_Valid RoomClosed"
  by (simp_all add: RoomStatus_Valid_def)

section \<open>The room invariant\<close>

definition round_fits :: "Round option \<Rightarrow> id \<Rightarrow> int \<Rightarrow> bool" where
  "round_fits rnd roomID n \<longleftrightarrow>
     (case rnd of
        None \<Rightarrow> True
      | Some rd \<Rightarrow> wf_round rd \<and> rd_RoomID rd = roomID \<and> rd_Number rd = n)"

lemma round_fits_simps [simp]:
  "round_fits None roomID n"
  "round_fits (Some rd) roomID n \<longleftrightarrow> wf_round rd \<and> rd_RoomID rd = roomID \<and> rd_Number rd = n"
  by (simp_all add: round_fits_def)

lemma live_round_simps [simp]:
  "live_round (r\<lparr>rm_players := ps\<rparr>) = live_round r"
  "live_round (r\<lparr>rm_Status := st\<rparr>) = live_round r"
  "live_round (r\<lparr>rm_ClosedAt := t\<rparr>) = live_round r"
  "live_round (r\<lparr>rm_round := None\<rparr>) = False"
  "live_round (r\<lparr>rm_round := Some rd\<rparr>) \<longleftrightarrow> rd_Status rd \<noteq> RoundSettled"
  by (simp_all add: live_round_def)

definition wf_room :: "Room \<Rightarrow> bool" where
  "wf_room r \<longleftrightarrow>
     \<not> blank (rm_ID r) \<and> \<not> blank (rm_OwnerID r) \<and> RoomStatus_Valid (rm_Status r) \<and>
     rm_MaxRounds r = MaxRounds \<and> rm_MaxPlayers r = MaxPlayers \<and>
     0 \<le> rm_CurrentRound r \<and> rm_CurrentRound r \<le> MaxRounds \<and>
     distinct (map fst (rm_players r)) \<and> PlayerCount r \<le> MaxPlayers \<and>
     (rm_Status r = RoomClosed \<longleftrightarrow> rm_ClosedAt r \<noteq> None) \<and>
     (rm_Status r = RoomClosing \<longrightarrow> live_round r) \<and>
     (rm_CurrentRound r = MaxRounds \<longrightarrow> rm_Status r = RoomClosed \<or> live_round r) \<and>
     round_fits (rm_round r) (rm_ID r) (rm_CurrentRound r)"

lemma wf_NewRoom: "NewRoom rid owner t = Inr r \<Longrightarrow> wf_room r"
  by (auto simp: NewRoom_def wf_room_def PlayerCount_def MaxPlayers_def MaxRounds_def live_round_def
      split: if_splits)

lemma Join_ok [ok_inv]:
  "Join r p now = Inr r' \<longleftrightarrow>
     \<not> blank p \<and> rm_Status r \<noteq> RoomClosed \<and> rm_Status r \<noteq> RoomClosing \<and> \<not> HasPlayer r p \<and> \<not> Full r \<and>
     r' = r\<lparr>rm_players := rm_players r @ [(p, now)]\<rparr>"
  by (auto simp: Join_def HasPlayer_def AList_update_new)

lemma wf_Join:
  assumes "wf_room r" and "Join r p now = Inr r'"
  shows "wf_room r'"
  using assms
  by (auto simp: ok_inv wf_room_def PlayerCount_def Full_def HasPlayer_def map_of_eq_None_iff)

lemma wf_Leave:
  assumes "wf_room r" and "Leave r p = Inr r'"
  shows "wf_room r'"
proof -
  have "int (length (AList.delete p (rm_players r))) \<le> int (length (rm_players r))"
    by (simp add: AList.delete_eq)
  moreover have "distinct (map fst (AList.delete p (rm_players r)))"
    using assms(1) by (simp add: wf_room_def distinct_delete)
  moreover have "r' = r\<lparr>rm_players := AList.delete p (rm_players r)\<rparr>"
    using assms(2) by (auto simp: Leave_def split: if_splits)
  ultimately show ?thesis
    using assms(1) unfolding wf_room_def PlayerCount_def by force
qed

lemma StartRound_ok [ok_inv]:
  "StartRound r rid now window = Inr (rd, r') \<longleftrightarrow>
     rm_Status r = RoomOpen \<and> \<not> live_round r \<and> rm_players r \<noteq> [] \<and>
     rm_CurrentRound r < rm_MaxRounds r \<and>
     NewRound rid (rm_ID r) (rm_CurrentRound r + 1) now window = Inr rd \<and>
     r' = r\<lparr>rm_CurrentRound := rd_Number rd, rm_round := Some rd\<rparr>"
  by (auto simp: StartRound_def split: sum.splits)

lemma wf_StartRound:
  assumes "wf_room r" and "StartRound r rid now window = Inr (rd, r')"
  shows "wf_room r' \<and> live_round r' \<and> rm_CurrentRound r' = rm_CurrentRound r + 1"
  using assms wf_NewRound [of rid "rm_ID r" "rm_CurrentRound r + 1" now window rd]
  by (auto simp: ok_inv wf_room_def PlayerCount_def live_round_def)

lemma PlaceBet_ok [ok_inv]:
  "PlaceBet r (Some b) now = Inr r' \<longleftrightarrow>
     Room_Active r \<and> HasPlayer r (bt_PlayerID b) \<and>
     (\<exists>rd rd'. rm_round r = Some rd \<and> Round_PlaceBet rd (Some b) now = Inr rd' \<and>
        r' = r\<lparr>rm_round := Some rd'\<rparr>)"
  by (auto simp: PlaceBet_def split: option.splits sum.splits)

lemma wf_PlaceBet:
  assumes "wf_room r" and "NewBet bid rid p c a now = Inr b" and "PlaceBet r (Some b) now = Inr r'"
  shows "wf_room r'"
proof -
  from assms(3) obtain rd rd' where rd: "rm_round r = Some rd" "r' = r\<lparr>rm_round := Some rd'\<rparr>"
    and pb: "Round_PlaceBet rd (Some b) now = Inr rd'" by (auto simp: ok_inv)
  have "wf_round rd'"
    using assms(1,2) rd(1) by (intro wf_Round_PlaceBet [OF _ pb]) (auto simp: wf_room_def ok_inv)
  moreover have "rd_RoomID rd' = rd_RoomID rd" "rd_Number rd' = rd_Number rd"
    "rd_Status rd' = rd_Status rd"
    using pb by (auto simp: ok_inv)
  ultimately show ?thesis
    using assms(1) rd by (auto simp: wf_room_def PlayerCount_def live_round_def)
qed

lemma wf_markClosed: "wf_room r \<Longrightarrow> wf_room (markClosed r now)"
  by (auto simp: wf_room_def markClosed_def PlayerCount_def)

lemma wf_Close: "wf_room r \<Longrightarrow> Close r who now = Inr r' \<Longrightarrow> wf_room r'"
  by (auto simp: Close_def wf_markClosed split: if_splits)
     (auto simp: wf_room_def PlayerCount_def)

lemma wf_ForceClose: "wf_room r \<Longrightarrow> wf_room (ForceClose r now)"
  by (simp add: ForceClose_def wf_markClosed)

lemma wf_AttachRound:
  assumes "wf_room r" and "wf_round rd" and "rd_RoomID rd = rm_ID r" and "rd_Number rd = rm_CurrentRound r"
    and "rd_Status rd = RoundBetting"
  shows "wf_room (AttachRound r (Some rd))"
  using assms by (auto simp: AttachRound_def wf_room_def PlayerCount_def live_round_def)

text \<open>The room after the live round is settled.\<close>

lemma wf_finish_settled:
  assumes "wf_room r" and "rm_round r = Some rd" and "rm_Status r \<noteq> RoomClosed"
    and "rd_Status rd = RoundBetting" and "OutcomeOf d1 d2 = Inr oc"
  shows "wf_room (finishRound (r\<lparr>rm_round := Some (settled_round rd d1 d2 oc now)\<rparr>) now)"
proof -
  have "wf_round (settled_round rd d1 d2 oc now)"
    using assms by (intro wf_settled_round) (auto simp: wf_room_def)
  with assms show ?thesis
    by (auto simp: finishRound_def markClosed_def wf_room_def PlayerCount_def RoomStatus_Valid_def)
       (auto simp: settled_round_def)
qed

lemma wf_round_status: "wf_round rd \<Longrightarrow> rd_Status rd = RoundBetting \<or> rd_Status rd = RoundSettled"
  by (auto simp: wf_round_def RoundStatus_Valid_def)

lemma SettleRound_cases:
  assumes "wf_room r"
  obtains (fail) e where "SettleRound r roller now = (Inl e, r)"
  | (ok) rd d1 d2 oc where "rm_round r = Some rd" "rd_Status rd = RoundBetting"
      "rm_Status r \<noteq> RoomClosed" "roller = Some (Inr (d1, d2))" "OutcomeOf d1 d2 = Inr oc"
      "SettleRound r roller now = (Inr (map (result_under oc) (Bets rd)),
         finishRound (r\<lparr>rm_round := Some (settled_round rd d1 d2 oc now)\<rparr>) now)"
proof (cases "rm_round r")
  case None
  then show ?thesis using fail by (simp add: SettleRound_def)
next
  case (Some rd)
  then have wf: "wf_round rd" using assms by (simp add: wf_room_def)
  have same: "r\<lparr>rm_round := Some rd\<rparr> = r" using Some by simp
  show ?thesis
  proof (cases "rm_Status r = RoomClosed")
    case True
    then show ?thesis using fail Some by (simp add: SettleRound_def)
  next
    case False
    obtain res rd' where st: "Round_Settle rd roller now = (res, rd')" by fastforce
    show ?thesis
    proof (cases res)
      case (Inl e)
      with st have "rd' = rd" using Round_Settle_error [OF wf] by blast
      then show ?thesis using fail Some False Inl st same by (simp add: SettleRound_def)
    next
      case (Inr rs)
      with st obtain d1 d2 oc where r: "roller = Some (Inr (d1, d2))" "OutcomeOf d1 d2 = Inr oc"
        and b: "rd_Status rd = RoundBetting" using wf_round_status [OF wf]
        by (auto simp: Round_Settle_def split: if_splits option.splits sum.splits prod.splits)
      with Some False wf show ?thesis
        by (intro ok [OF Some b False]) (auto simp: SettleRound_def Round_Settle_ok)
    qed
  qed
qed

lemma wf_SettleRound:
  assumes "wf_room r"
  shows "wf_room (snd (SettleRound r roller now))"
  by (rule SettleRound_cases [OF assms, of roller now]) (simp_all add: assms wf_finish_settled)

lemma SettleRoundWithDice_eq: "SettleRoundWithDice r d1 d2 now = SettleRound r (Some (Inr (d1, d2))) now"
  by (auto simp: SettleRoundWithDice_def SettleRound_def SettleWithDice_def Round_Settle_def
      split: option.splits sum.splits)

section \<open>The lifecycle\<close>

text \<open>
  One call of a method of \<open>Room\<close>; a call that fails is a step only where it may have changed
  the room.  Bets come from \<open>NewBet\<close>, stamped with the time they are placed.
\<close>

inductive room_step :: "Room \<Rightarrow> Room \<Rightarrow> bool" where
  step_Join: "Join r p now = Inr r' \<Longrightarrow> room_step r r'"
| step_Leave: "Leave r p = Inr r' \<Longrightarrow> room_step r r'"
| step_StartRound: "StartRound r rid now window = Inr (rd, r') \<Longrightarrow> room_step r r'"
| step_PlaceBet: "NewBet bid rid p c a now = Inr b \<Longrightarrow> PlaceBet r (Some b) now = Inr r' \<Longrightarrow> room_step r r'"
| step_SettleRound: "SettleRound r roller now = (res, r') \<Longrightarrow> room_step r r'"
| step_SettleRoundWithDice: "SettleRoundWithDice r d1 d2 now = (res, r') \<Longrightarrow> room_step r r'"
| step_Close: "Close r who now = Inr r' \<Longrightarrow> room_step r r'"
| step_ForceClose: "r' = ForceClose r now \<Longrightarrow> room_step r r'"

definition room_init :: "Room \<Rightarrow> bool" where
  "room_init r \<longleftrightarrow> (\<exists>rid owner t. NewRoom rid owner t = Inr r)"

definition status_rank :: "RoomStatus \<Rightarrow> nat" where
  "status_rank s = (if s = RoomOpen then 0 else if s = RoomClosing then 1 else 2)"

lemma status_rank_simps [simp]:
  "status_rank RoomOpen = 0" "status_rank RoomClosing = 1" "status_rank RoomClosed = 2"
  "status_rank s \<le> 2"
  by (simp_all add: status_rank_def)

lemma wf_room_step: "room_step r r' \<Longrightarrow> wf_room r \<Longrightarrow> wf_room r'"
proof (induction rule: room_step.induct)
  case (step_SettleRound r roller now res r')
  then show ?case using wf_SettleRound [of r roller now] by simp
next
  case (step_SettleRoundWithDice r d1 d2 now res r')
  then show ?case
    using wf_SettleRound [of r "Some (Inr (d1, d2))" now] by (simp add: SettleRoundWithDice_eq)
qed (auto intro: wf_Join wf_Leave wf_PlaceBet wf_Close wf_ForceClose dest: wf_StartRound)

lemma wf_room_status:
  "wf_room r \<Longrightarrow> rm_Status r = RoomOpen \<or> rm_Status r = RoomClosing \<or> rm_Status r = RoomClosed"
  unfolding wf_room_def RoomStatus_Valid_def by blast

lemma SettleRound_progress:
  assumes "wf_room r" and "SettleRound r roller now = (res, r')"
  shows "status_rank (rm_Status r) \<le> status_rank (rm_Status r') \<and> rm_CurrentRound r' = rm_CurrentRound r"
  using assms(2) by (cases rule: SettleRound_cases [OF assms(1), of roller now])
    (auto simp: finishRound_def markClosed_def)

lemma room_step_progress:
  "room_step r r' \<Longrightarrow> wf_room r \<Longrightarrow>
   status_rank (rm_Status r) \<le> status_rank (rm_Status r') \<and> rm_CurrentRound r \<le> rm_CurrentRound r'"
proof (induction rule: room_step.induct)
  case (step_SettleRound r roller now res r')
  then show ?case using SettleRound_progress by fastforce
next
  case (step_SettleRoundWithDice r d1 d2 now res r')
  then show ?case using SettleRound_progress by (fastforce simp: SettleRoundWithDice_eq)
next
  case (step_StartRound r rid now window rd r')
  then show ?case using wf_StartRound [of r rid now window rd r'] by (auto simp: ok_inv)
qed (auto simp: ok_inv Leave_def Close_def ForceClose_def markClosed_def split: if_splits
      dest: wf_room_status)

interpretation room_lifecycle: step_ranked room_init room_step wf_room "\<lambda>r. status_rank (rm_Status r)"
  by unfold_locales (auto simp: room_init_def wf_NewRoom wf_room_step dest: room_step_progress)

interpretation room_rounds: step_ranked room_init room_step wf_room "\<lambda>r. rm_CurrentRound r"
  by unfold_locales (auto dest: room_step_progress)


text \<open>A room with a joined guest and one live round, for the witnesses.\<close>

definition room_new :: Room where
  "room_new = \<lparr>rm_ID = ''room'', rm_OwnerID = ''o'', rm_Status = RoomOpen, rm_MaxRounds = 10,
     rm_MaxPlayers = 6, rm_CurrentRound = 0, rm_CreatedAt = 0, rm_ClosedAt = None,
     rm_players = [(''o'', 0)], rm_round = None\<rparr>"

definition room_joined :: Room where
  "room_joined = room_new\<lparr>rm_players := [(''o'', 0), (''p'', 1)]\<rparr>"

definition room_live :: Room where
  "room_live = room_joined\<lparr>rm_CurrentRound := 1, rm_round := Some (sample_round\<lparr>rd_bets := []\<rparr>)\<rparr>"

lemma room_new_reachable: "reach room_init room_step room_new"
proof (rule reach_init)
  have "NewRoom ''room'' ''o'' 0 = Inr room_new" by code_simp
  then show "room_init room_new" by (auto simp: room_init_def)
qed

lemma room_joined_reachable: "reach room_init room_step room_joined"
proof (rule reach_step [OF room_new_reachable])
  have "Join room_new ''p'' 1 = Inr room_joined" by code_simp
  then show "room_step room_new room_joined" by (rule step_Join)
qed

lemma room_live_step: "room_step room_joined room_live"
proof -
  have "StartRound room_joined ''r'' 0 15 = Inr (sample_round\<lparr>rd_bets := []\<rparr>, room_live)" by code_simp
  then show ?thesis by (rule step_StartRound)
qed


text \<open>
  C21: the lifecycle only moves forward.  Along any run from a reachable room the status goes
  through open, closing, closed in this order and the round counter never decreases; a closed
  room stays closed.
\<close>

theorem room_lifecycle_moves_forward:
  assumes "reach room_init room_step r" and "room_step\<^sup>*\<^sup>* r r'"
  shows "status_rank (rm_Status r) \<le> status_rank (rm_Status r') \<and> rm_CurrentRound r \<le> rm_CurrentRound r' \<and>
         (rm_Status r = RoomClosed \<longrightarrow> rm_Status r' = RoomClosed)"
proof -
  have wf: "wf_room r" by (rule room_lifecycle.reach_inv [OF assms(1)])
  then have wf': "wf_room r'" by (rule room_lifecycle.run_inv [OF assms(2)])
  have "status_rank (rm_Status r) \<le> status_rank (rm_Status r')"
    by (rule room_lifecycle.run_rank [OF assms(2) wf])
  moreover have "rm_CurrentRound r \<le> rm_CurrentRound r'"
    by (rule room_rounds.run_rank [OF assms(2) wf])
  ultimately show ?thesis
    using wf' by (auto simp: wf_room_def RoomStatus_Valid_def)
qed

theorem room_lifecycle_moves_forward_witness:
  "rm_CurrentRound room_joined \<le> rm_CurrentRound room_live"
  using room_lifecycle_moves_forward [OF room_joined_reachable r_into_rtranclp [of room_step, OF room_live_step]]
  by blast

text \<open>
  C22: a requested close never cuts a live round short.  When the owner closes a room with an
  unsettled round the room only becomes closing, with its round and bets untouched; settling
  that round on a legal throw resolves every bet and closes the room at that moment.
\<close>

theorem close_waits_for_the_live_round:
  assumes "wf_room r" and "rm_Status r = RoomOpen" and "rm_round r = Some rd"
    and "rd_Status rd = RoundBetting" and "OutcomeOf d1 d2 = Inr oc"
  shows "\<exists>r'. Close r (rm_OwnerID r) now = Inr r' \<and> rm_Status r' = RoomClosing \<and> rm_round r' = Some rd \<and>
    fst (SettleRound r' (Some (Inr (d1, d2))) later) = Inr (map (result_under oc) (Bets rd)) \<and>
    rm_Status (snd (SettleRound r' (Some (Inr (d1, d2))) later)) = RoomClosed \<and>
    rm_ClosedAt (snd (SettleRound r' (Some (Inr (d1, d2))) later)) = Some later"
proof (intro exI conjI)
  let ?r' = "r\<lparr>rm_Status := RoomClosing\<rparr>"
  show "Close r (rm_OwnerID r) now = Inr ?r'"
    using assms by (auto simp: Close_def IsOwner_def live_round_def)
  have "wf_round rd" using assms by (simp add: wf_room_def)
  note settle = Round_Settle_ok [OF this assms(4,5), of later]
  show "fst (SettleRound ?r' (Some (Inr (d1, d2))) later) = Inr (map (result_under oc) (Bets rd))"
    "rm_Status (snd (SettleRound ?r' (Some (Inr (d1, d2))) later)) = RoomClosed"
    "rm_ClosedAt (snd (SettleRound ?r' (Some (Inr (d1, d2))) later)) = Some later"
    using assms(3) settle by (simp_all add: SettleRound_def finishRound_def markClosed_def)
qed (simp_all add: assms)

theorem close_waits_for_the_live_round_witness:
  "\<exists>r'. Close room_live ''o'' 9 = Inr r' \<and> rm_Status r' = RoomClosing \<and>
    rm_Status (snd (SettleRound r' (Some (Inr (2, 5))) 15)) = RoomClosed"
proof -
  have "wf_room room_live" by code_simp
  moreover have "rm_Status room_live = RoomOpen" "rm_OwnerID room_live = ''o''" by code_simp+
  moreover have "rm_round room_live = Some (sample_round\<lparr>rd_bets := []\<rparr>)" by (simp add: room_live_def)
  moreover have "rd_Status (sample_round\<lparr>rd_bets := []\<rparr>) = RoundBetting" by code_simp
  moreover have "OutcomeOf 2 5 = Inr OutcomeOdd" by code_simp
  ultimately show ?thesis
    using close_waits_for_the_live_round [of room_live "sample_round\<lparr>rd_bets := []\<rparr>" 2 5 OutcomeOdd 9 15]
    by auto
qed

section \<open>Seats in join order\<close>

lemma Players_eq: "Players r = sort_key (joined_at r) (map fst (rm_players r))"
  by (simp add: Players_def insertion_sort_eq)

lemma set_Players: "set (Players r) = fst ` set (rm_players r)"
  by (simp add: Players_eq)



end
