(* ===== verification/Pg_Schema.thy ===== *)
theory Pg_Schema
  imports Domain_Player Domain_Room
begin

text \<open>
  The relational store: the row types of \<open>sqlcgen/models.go\<close>, the tables of the schema with
  their CHECK constraints, and the transactions of one row each that \<open>db/queries\<close> (embedded as
  text in the generated \<open>sqlcgen\<close> package) performs.  A table is the list of its rows in
  insertion order.  A statement maps the database to a driver error or to its result and the
  new database; constraints are checked in the server's order: CHECK, then UNIQUE, then
  FOREIGN KEY.  Rows that tie in an ORDER BY keep their insertion order.
\<close>

section \<open>Rows and tables\<close>

record PlayerRow =
  pr_ID :: id
  pr_Email :: string
  pr_PasswordHash :: string
  pr_Balance :: int64
  pr_CreatedAt :: time

record RoomRow =
  mr_ID :: id
  mr_OwnerID :: id
  mr_Status :: string
  mr_MaxRounds :: int
  mr_MaxPlayers :: int
  mr_CurrentRound :: int
  mr_CreatedAt :: time
  mr_ClosedAt :: "time option"

record RoomPlayerRow =
  sr_RoomID :: id
  sr_PlayerID :: id
  sr_JoinedAt :: time

record RoundRow =
  dr_ID :: id
  dr_RoomID :: id
  dr_Number :: int
  dr_BettingOpensAt :: time
  dr_BettingClosesAt :: time
  dr_Die1 :: "int option"
  dr_Die2 :: "int option"
  dr_Outcome :: "string option"
  dr_Status :: string
  dr_CreatedAt :: time
  dr_SettledAt :: "time option"

record BetRow =
  br_ID :: id
  br_RoundID :: id
  br_PlayerID :: id
  br_Choice :: string
  br_Amount :: int64
  br_Won :: "bool option"
  br_Payout :: "int64 option"
  br_PlacedAt :: time
  br_SettledAt :: "time option"

record TransactionRow =
  lr_ID :: id
  lr_PlayerID :: id
  lr_Type :: string
  lr_Amount :: int64
  lr_RoundID :: "id option"
  lr_CreatedAt :: time

record db =
  db_players :: "PlayerRow list"
  db_rooms :: "RoomRow list"
  db_room_players :: "RoomPlayerRow list"
  db_rounds :: "RoundRow list"
  db_bets :: "BetRow list"
  db_transactions :: "TransactionRow list"

text \<open>What a statement can fail with: no row, an error the server reports, a broken connection.\<close>

datatype pg_error = ErrNoRows | PgError string string | DriverError

definition codeUniqueViolation :: string where
  "codeUniqueViolation = ''23505''"

definition codeCheckViolation :: string where
  "codeCheckViolation = ''23514''"

definition codeRestrictViolation :: string where
  "codeRestrictViolation = ''23001''"

definition codeForeignKeyViolation :: string where
  "codeForeignKeyViolation = ''23503''"

lemma pg_codes_distinct [simp]:
  "codeUniqueViolation \<noteq> codeCheckViolation" "codeCheckViolation \<noteq> codeUniqueViolation"
  "codeUniqueViolation \<noteq> codeForeignKeyViolation" "codeForeignKeyViolation \<noteq> codeUniqueViolation"
  "codeCheckViolation \<noteq> codeForeignKeyViolation" "codeForeignKeyViolation \<noteq> codeCheckViolation"
  by (simp_all add: codeUniqueViolation_def codeCheckViolation_def codeForeignKeyViolation_def)

definition numeric_out_of_range :: string where
  "numeric_out_of_range = ''22003''"

text \<open>\<open>LIMIT\<close> and \<open>OFFSET\<close>.\<close>

definition paged :: "int \<Rightarrow> int \<Rightarrow> 'a list \<Rightarrow> pg_error + 'a list" where
  "paged limit off xs =
     (if limit < 0 then Inl (PgError ''2201W'' [])
      else if off < 0 then Inl (PgError ''2201X'' [])
      else Inr (take (nat limit) (drop (nat off) xs)))"

definition one_row :: "'a option \<Rightarrow> pg_error + 'a" where
  "one_row r = (case r of None \<Rightarrow> Inl ErrNoRows | Some x \<Rightarrow> Inr x)"

lemma one_row_ok [ok_inv]: "one_row r = Inr x \<longleftrightarrow> r = Some x"
  by (auto simp: one_row_def split: option.splits)

section \<open>CHECK constraints\<close>

definition btrim_empty :: "string \<Rightarrow> bool" where
  "btrim_empty s \<longleftrightarrow> list_all (\<lambda>c. c = CHR '' '') s"

definition players_check :: "PlayerRow \<Rightarrow> string option" where
  "players_check r =
     (if \<not> 0 \<le> sint (pr_Balance r) then Some ''players_balance_non_negative''
      else if btrim_empty (pr_Email r) then Some ''players_email_not_blank''
      else None)"

definition rooms_check :: "RoomRow \<Rightarrow> string option" where
  "rooms_check r =
     (if mr_Status r \<notin> {''open'', ''closing'', ''closed''} then Some ''rooms_status_valid''
      else if \<not> 0 < mr_MaxRounds r then Some ''rooms_max_rounds_pos''
      else if \<not> 0 < mr_MaxPlayers r then Some ''rooms_max_players_pos''
      else if \<not> (0 \<le> mr_CurrentRound r \<and> mr_CurrentRound r \<le> mr_MaxRounds r) then Some ''rooms_round_range''
      else if (mr_Status r = ''closed'') \<noteq> (mr_ClosedAt r \<noteq> None) then Some ''rooms_closed_at_set''
      else None)"

definition rounds_check :: "RoundRow \<Rightarrow> string option" where
  "rounds_check r =
     (if \<not> 1 \<le> dr_Number r then Some ''rounds_number_positive''
      else if dr_Status r \<notin> {''betting'', ''settled''} then Some ''rounds_status_valid''
      else if \<not> (dr_Outcome r = None \<or> the (dr_Outcome r) \<in> {''even'', ''odd''}) then Some ''rounds_outcome_valid''
      else if \<not> (dr_Die1 r = None \<or> 1 \<le> the (dr_Die1 r) \<and> the (dr_Die1 r) \<le> 6) then Some ''rounds_die1_range''
      else if \<not> (dr_Die2 r = None \<or> 1 \<le> the (dr_Die2 r) \<and> the (dr_Die2 r) \<le> 6) then Some ''rounds_die2_range''
      else if \<not> dr_BettingOpensAt r < dr_BettingClosesAt r then Some ''rounds_window_valid''
      else if \<not> (dr_Status r = ''settled'' \<and> dr_Die1 r \<noteq> None \<and> dr_Die2 r \<noteq> None \<and>
                 dr_Outcome r \<noteq> None \<and> dr_SettledAt r \<noteq> None \<or>
                 dr_Status r = ''betting'' \<and> dr_Die1 r = None \<and> dr_Die2 r = None \<and>
                 dr_Outcome r = None \<and> dr_SettledAt r = None) then Some ''rounds_settled_complete''
      else None)"

definition bets_check :: "BetRow \<Rightarrow> string option" where
  "bets_check r =
     (if br_Choice r \<notin> {''even'', ''odd''} then Some ''bets_choice_valid''
      else if \<not> 0 < sint (br_Amount r) then Some ''bets_amount_positive''
      else if \<not> (br_Payout r = None \<or> 0 \<le> sint (the (br_Payout r))) then Some ''bets_payout_non_negative''
      else if (br_Won r = None) \<noteq> (br_Payout r = None) then Some ''bets_settlement_consistent''
      else None)"

definition transactions_check :: "TransactionRow \<Rightarrow> string option" where
  "transactions_check r =
     (if lr_Type r \<notin> {''deposit'', ''withdraw'', ''bet'', ''payout''} then Some ''transactions_type_valid''
      else if \<not> 0 < sint (lr_Amount r) then Some ''transactions_amount_positive''
      else None)"

text \<open>A statement that writes one row: the CHECKs, the UNIQUE and the FOREIGN KEY conditions.\<close>

definition guarded :: "string option \<Rightarrow> (bool \<times> string) list \<Rightarrow> (bool \<times> string) list \<Rightarrow> pg_error option" where
  "guarded chk uniques fks =
     (case chk of
        Some c \<Rightarrow> Some (PgError codeCheckViolation c)
      | None \<Rightarrow>
          (case find (\<lambda>(ok, _). \<not> ok) uniques of
             Some (_, c) \<Rightarrow> Some (PgError codeUniqueViolation c)
           | None \<Rightarrow>
               (case find (\<lambda>(ok, _). \<not> ok) fks of
                  Some (_, c) \<Rightarrow> Some (PgError codeForeignKeyViolation c)
                | None \<Rightarrow> None)))"

definition writes :: "pg_error option \<Rightarrow> 'a \<Rightarrow> db \<Rightarrow> pg_error + 'a \<times> db" where
  "writes e x d = (case e of Some err \<Rightarrow> Inl err | None \<Rightarrow> Inr (x, d))"

definition reads :: "pg_error + 'a \<Rightarrow> db \<Rightarrow> pg_error + 'a \<times> db" where
  "reads r d = (case r of Inl e \<Rightarrow> Inl e | Inr x \<Rightarrow> Inr (x, d))"

lemma first_violation_None: "find (\<lambda>(ok, _). \<not> ok) cs = None \<longleftrightarrow> (\<forall>(ok, c) \<in> set cs. ok)"
  by (auto simp: find_None_iff)

lemma guarded_None [simp]:
  "guarded chk uniques fks = None \<longleftrightarrow>
     chk = None \<and> (\<forall>(ok, c) \<in> set uniques. ok) \<and> (\<forall>(ok, c) \<in> set fks. ok)"
  unfolding first_violation_None [symmetric] by (auto simp: guarded_def split: option.splits)

lemma writes_ok [ok_inv]: "writes e x d = Inr (y, d') \<longleftrightarrow> e = None \<and> y = x \<and> d' = d"
  by (auto simp: writes_def split: option.splits)

lemma reads_ok [ok_inv]: "reads r d = Inr (y, d') \<longleftrightarrow> r = Inr y \<and> d' = d"
  by (auto simp: reads_def split: sum.splits)

end
