(* ===== verification/Pg_Queries.thy ===== *)
theory Pg_Queries
  imports Pg_Schema
begin

text \<open>
  The statements of \<open>db/queries\<close> as the generated package \<open>sqlcgen\<close> issues them, one
  definition per method of \<open>Queries\<close>, and for each what its success says about the database.
\<close>

section \<open>players.sql.go\<close>

definition has_player :: "db \<Rightarrow> id \<Rightarrow> bool" where
  "has_player d p \<longleftrightarrow> list_ex (\<lambda>r. pr_ID r = p) (db_players d)"

definition has_room :: "db \<Rightarrow> id \<Rightarrow> bool" where
  "has_room d i \<longleftrightarrow> list_ex (\<lambda>r. mr_ID r = i) (db_rooms d)"

definition has_round :: "db \<Rightarrow> id \<Rightarrow> bool" where
  "has_round d i \<longleftrightarrow> list_ex (\<lambda>r. dr_ID r = i) (db_rounds d)"

definition CreatePlayer :: "PlayerRow \<Rightarrow> db \<Rightarrow> pg_error + PlayerRow \<times> db" where
  "CreatePlayer r d =
     writes (guarded (players_check r)
        [(\<not> has_player d (pr_ID r), ''players_pkey''),
         (list_all (\<lambda>q. ToLower (pr_Email q) \<noteq> ToLower (pr_Email r)) (db_players d), ''players_email_key'')]
        []) r (d\<lparr>db_players := db_players d @ [r]\<rparr>)"

definition GetPlayerByID :: "id \<Rightarrow> db \<Rightarrow> pg_error + PlayerRow \<times> db" where
  "GetPlayerByID i d = reads (one_row (find (\<lambda>r. pr_ID r = i) (db_players d))) d"

definition GetPlayerByEmail :: "string \<Rightarrow> db \<Rightarrow> pg_error + PlayerRow \<times> db" where
  "GetPlayerByEmail email d =
     reads (one_row (find (\<lambda>r. ToLower (pr_Email r) = ToLower email) (db_players d))) d"

definition GetPlayerForUpdate :: "id \<Rightarrow> db \<Rightarrow> pg_error + PlayerRow \<times> db" where
  "GetPlayerForUpdate i d = reads (one_row (find (\<lambda>r. pr_ID r = i) (db_players d))) d"

text \<open>An UPDATE of the rows with a given key: the new rows pass the CHECKs, or nothing changes.\<close>

definition put_balance :: "id \<Rightarrow> int64 \<Rightarrow> db \<Rightarrow> db" where
  "put_balance i b d =
     d\<lparr>db_players := map (\<lambda>r. if pr_ID r = i then r\<lparr>pr_Balance := b\<rparr> else r) (db_players d)\<rparr>"

definition UpdatePlayerBalance :: "id \<Rightarrow> int64 \<Rightarrow> db \<Rightarrow> pg_error + PlayerRow \<times> db" where
  "UpdatePlayerBalance i b d =
     (case find (\<lambda>r. pr_ID r = i) (db_players d) of
        None \<Rightarrow> Inl ErrNoRows
      | Some r \<Rightarrow> writes (guarded (players_check (r\<lparr>pr_Balance := b\<rparr>)) [] [])
                   (r\<lparr>pr_Balance := b\<rparr>) (put_balance i b d))"

definition AddPlayerBalance :: "int64 \<Rightarrow> id \<Rightarrow> db \<Rightarrow> pg_error + PlayerRow \<times> db" where
  "AddPlayerBalance delta i d =
     (case find (\<lambda>r. pr_ID r = i) (db_players d) of
        None \<Rightarrow> Inl ErrNoRows
      | Some r \<Rightarrow>
          if \<not> fits64 (sint (pr_Balance r) + sint delta) then Inl (PgError numeric_out_of_range [])
          else writes (guarded (players_check (r\<lparr>pr_Balance := pr_Balance r + delta\<rparr>)) [] [])
                 (r\<lparr>pr_Balance := pr_Balance r + delta\<rparr>) (put_balance i (pr_Balance r + delta) d))"

section \<open>transactions.sql.go\<close>

definition InsertTransaction :: "TransactionRow \<Rightarrow> db \<Rightarrow> pg_error + TransactionRow \<times> db" where
  "InsertTransaction t d =
     writes (guarded (transactions_check t)
        [(list_all (\<lambda>q. lr_ID q \<noteq> lr_ID t) (db_transactions d), ''transactions_pkey'')]
        [(has_player d (lr_PlayerID t), ''transactions_player_id_fkey''),
         (case lr_RoundID t of None \<Rightarrow> True | Some i \<Rightarrow> has_round d i, ''transactions_round_id_fkey'')])
      t (d\<lparr>db_transactions := db_transactions d @ [t]\<rparr>)"

definition ListTransactionsByPlayer :: "id \<Rightarrow> int \<Rightarrow> int \<Rightarrow> db \<Rightarrow> pg_error + TransactionRow list \<times> db" where
  "ListTransactionsByPlayer p limit off d =
     reads (paged limit off
       (sort_key (\<lambda>t. - lr_CreatedAt t) (filter (\<lambda>t. lr_PlayerID t = p) (db_transactions d)))) d"

definition signed_row :: "TransactionRow \<Rightarrow> int" where
  "signed_row t = (if lr_Type t \<in> {''deposit'', ''payout''} then sint (lr_Amount t) else - sint (lr_Amount t))"

definition net :: "id \<Rightarrow> TransactionRow list \<Rightarrow> int" where
  "net p ts = (\<Sum>t \<leftarrow> filter (\<lambda>t. lr_PlayerID t = p) ts. signed_row t)"

definition SumTransactionsByPlayer :: "id \<Rightarrow> db \<Rightarrow> pg_error + int64 \<times> db" where
  "SumTransactionsByPlayer p d =
     (if fits64 (net p (db_transactions d)) then Inr (word_of_int (net p (db_transactions d)), d)
      else Inl (PgError numeric_out_of_range []))"

section \<open>rooms.sql.go\<close>

definition CreateRoom_sql :: "RoomRow \<Rightarrow> db \<Rightarrow> pg_error + RoomRow \<times> db" where
  "CreateRoom_sql r d =
     writes (guarded (rooms_check r)
        [(\<not> has_room d (mr_ID r), ''rooms_pkey'')]
        [(has_player d (mr_OwnerID r), ''rooms_owner_id_fkey'')])
      r (d\<lparr>db_rooms := db_rooms d @ [r]\<rparr>)"

definition AddRoomPlayer :: "RoomPlayerRow \<Rightarrow> db \<Rightarrow> pg_error + RoomPlayerRow \<times> db" where
  "AddRoomPlayer s d =
     writes (guarded None
        [(list_all (\<lambda>q. \<not> (sr_RoomID q = sr_RoomID s \<and> sr_PlayerID q = sr_PlayerID s)) (db_room_players d),
          ''room_players_pkey'')]
        [(has_room d (sr_RoomID s), ''room_players_room_id_fkey''),
         (has_player d (sr_PlayerID s), ''room_players_player_id_fkey'')])
      s (d\<lparr>db_room_players := db_room_players d @ [s]\<rparr>)"

definition RemoveRoomPlayer :: "id \<Rightarrow> id \<Rightarrow> db \<Rightarrow> pg_error + int \<times> db" where
  "RemoveRoomPlayer i p d =
     (let gone = filter (\<lambda>s. sr_RoomID s = i \<and> sr_PlayerID s = p) (db_room_players d);
          kept = filter (\<lambda>s. \<not> (sr_RoomID s = i \<and> sr_PlayerID s = p)) (db_room_players d)
      in Inr (int (length gone), d\<lparr>db_room_players := kept\<rparr>))"

definition seats_of :: "db \<Rightarrow> id \<Rightarrow> RoomPlayerRow list" where
  "seats_of d i = filter (\<lambda>s. sr_RoomID s = i) (db_room_players d)"

definition CountRoomPlayers :: "id \<Rightarrow> db \<Rightarrow> pg_error + int \<times> db" where
  "CountRoomPlayers i d = Inr (int (length (seats_of d i)), d)"

definition FindActiveRoomForPlayer_sql :: "id \<Rightarrow> db \<Rightarrow> pg_error + id \<times> db" where
  "FindActiveRoomForPlayer_sql p d =
     reads (one_row (find (\<lambda>_. True)
       (concat (map (\<lambda>s. map mr_ID (filter (\<lambda>r. mr_ID r = sr_RoomID s \<and> mr_Status r \<noteq> ''closed'') (db_rooms d)))
         (sort_key (\<lambda>s. - sr_JoinedAt s) (filter (\<lambda>s. sr_PlayerID s = p) (db_room_players d))))))) d"

definition GetRoomByID :: "id \<Rightarrow> db \<Rightarrow> pg_error + RoomRow \<times> db" where
  "GetRoomByID i d = reads (one_row (find (\<lambda>r. mr_ID r = i) (db_rooms d))) d"

definition GetRoomForUpdate :: "id \<Rightarrow> db \<Rightarrow> pg_error + RoomRow \<times> db" where
  "GetRoomForUpdate i d = reads (one_row (find (\<lambda>r. mr_ID r = i) (db_rooms d))) d"

definition ListActiveRoomIDs_sql :: "db \<Rightarrow> pg_error + id list \<times> db" where
  "ListActiveRoomIDs_sql d =
     Inr (map mr_ID (sort_key mr_CreatedAt (filter (\<lambda>r. mr_Status r \<noteq> ''closed'') (db_rooms d))), d)"

definition ListOpenRooms_sql :: "int \<Rightarrow> int \<Rightarrow> db \<Rightarrow> pg_error + (RoomRow \<times> int) list \<times> db" where
  "ListOpenRooms_sql limit off d =
     reads (paged limit off
       (map (\<lambda>r. (r, int (length (seats_of d (mr_ID r)))))
         (sort_key (\<lambda>r. - mr_CreatedAt r) (filter (\<lambda>r. mr_Status r = ''open'') (db_rooms d))))) d"

definition ListRoomPlayers :: "id \<Rightarrow> db \<Rightarrow> pg_error + RoomPlayerRow list \<times> db" where
  "ListRoomPlayers i d = Inr (sort_key sr_JoinedAt (seats_of d i), d)"

definition upd_room :: "id \<Rightarrow> (RoomRow \<Rightarrow> RoomRow) \<Rightarrow> db \<Rightarrow> db" where
  "upd_room i f d = d\<lparr>db_rooms := map (\<lambda>r. if mr_ID r = i then f r else r) (db_rooms d)\<rparr>"

definition UpdateRoomCurrentRound :: "id \<Rightarrow> int \<Rightarrow> db \<Rightarrow> pg_error + RoomRow \<times> db" where
  "UpdateRoomCurrentRound i n d =
     (case find (\<lambda>r. mr_ID r = i) (db_rooms d) of
        None \<Rightarrow> Inl ErrNoRows
      | Some r \<Rightarrow> writes (guarded (rooms_check (r\<lparr>mr_CurrentRound := n\<rparr>)) [] [])
                   (r\<lparr>mr_CurrentRound := n\<rparr>) (upd_room i (\<lambda>r. r\<lparr>mr_CurrentRound := n\<rparr>) d))"

definition UpdateRoomStatus :: "string \<Rightarrow> time option \<Rightarrow> id \<Rightarrow> db \<Rightarrow> pg_error + RoomRow \<times> db" where
  "UpdateRoomStatus st closedAt i d =
     (case find (\<lambda>r. mr_ID r = i) (db_rooms d) of
        None \<Rightarrow> Inl ErrNoRows
      | Some r \<Rightarrow> writes (guarded (rooms_check (r\<lparr>mr_Status := st, mr_ClosedAt := closedAt\<rparr>)) [] [])
                   (r\<lparr>mr_Status := st, mr_ClosedAt := closedAt\<rparr>)
                   (upd_room i (\<lambda>r. r\<lparr>mr_Status := st, mr_ClosedAt := closedAt\<rparr>) d))"

section \<open>rounds.sql.go\<close>

text \<open>\<open>created_at\<close> is the server's \<open>now()\<close>.\<close>

definition CreateRound :: "id \<Rightarrow> id \<Rightarrow> int \<Rightarrow> time \<Rightarrow> time \<Rightarrow> time \<Rightarrow> db \<Rightarrow> pg_error + RoundRow \<times> db" where
  "CreateRound i roomID number opensAt closesAt now d =
     (let r = \<lparr>dr_ID = i, dr_RoomID = roomID, dr_Number = number, dr_BettingOpensAt = opensAt,
               dr_BettingClosesAt = closesAt, dr_Die1 = None, dr_Die2 = None, dr_Outcome = None,
               dr_Status = ''betting'', dr_CreatedAt = now, dr_SettledAt = None\<rparr>
      in writes (guarded (rounds_check r)
           [(\<not> has_round d i, ''rounds_pkey''),
            (list_all (\<lambda>q. \<not> (dr_RoomID q = roomID \<and> dr_Number q = number)) (db_rounds d),
             ''rounds_room_number_key'')]
           [(has_room d roomID, ''rounds_room_id_fkey'')])
         r (d\<lparr>db_rounds := db_rounds d @ [r]\<rparr>))"

definition rounds_of :: "db \<Rightarrow> id \<Rightarrow> RoundRow list" where
  "rounds_of d i = filter (\<lambda>r. dr_RoomID r = i) (db_rounds d)"

definition GetCurrentRound :: "id \<Rightarrow> db \<Rightarrow> pg_error + RoundRow \<times> db" where
  "GetCurrentRound i d = reads (one_row (find (\<lambda>_. True) (sort_key (\<lambda>r. - dr_Number r) (rounds_of d i)))) d"

definition GetRoundByID :: "id \<Rightarrow> db \<Rightarrow> pg_error + RoundRow \<times> db" where
  "GetRoundByID i d = reads (one_row (find (\<lambda>r. dr_ID r = i) (db_rounds d))) d"

definition GetRoundByRoomAndNumber :: "id \<Rightarrow> int \<Rightarrow> db \<Rightarrow> pg_error + RoundRow \<times> db" where
  "GetRoundByRoomAndNumber i n d =
     reads (one_row (find (\<lambda>r. dr_RoomID r = i \<and> dr_Number r = n) (db_rounds d))) d"

definition ListRoundsByRoom :: "id \<Rightarrow> db \<Rightarrow> pg_error + RoundRow list \<times> db" where
  "ListRoundsByRoom i d = Inr (sort_key dr_Number (rounds_of d i), d)"

definition upd_round :: "id \<Rightarrow> (RoundRow \<Rightarrow> RoundRow) \<Rightarrow> db \<Rightarrow> db" where
  "upd_round i f d = d\<lparr>db_rounds := map (\<lambda>r. if dr_ID r = i then f r else r) (db_rounds d)\<rparr>"

definition settle_row :: "int \<Rightarrow> int \<Rightarrow> string \<Rightarrow> time \<Rightarrow> RoundRow \<Rightarrow> RoundRow" where
  "settle_row die1 die2 outcome settledAt r =
     r\<lparr>dr_Die1 := Some die1, dr_Die2 := Some die2, dr_Outcome := Some outcome,
       dr_Status := ''settled'', dr_SettledAt := Some settledAt\<rparr>"

definition SettleRound_sql :: "int \<Rightarrow> int \<Rightarrow> string \<Rightarrow> time \<Rightarrow> id \<Rightarrow> db \<Rightarrow> pg_error + RoundRow \<times> db" where
  "SettleRound_sql die1 die2 outcome settledAt i d =
     (case find (\<lambda>r. dr_ID r = i \<and> dr_Status r = ''betting'') (db_rounds d) of
        None \<Rightarrow> Inl ErrNoRows
      | Some r \<Rightarrow> writes (guarded (rounds_check (settle_row die1 die2 outcome settledAt r)) [] [])
                   (settle_row die1 die2 outcome settledAt r)
                   (upd_round i (\<lambda>r. if dr_Status r = ''betting''
                                      then settle_row die1 die2 outcome settledAt r else r) d))"

section \<open>bets.sql.go\<close>

definition InsertBet :: "id \<Rightarrow> id \<Rightarrow> id \<Rightarrow> string \<Rightarrow> int64 \<Rightarrow> time \<Rightarrow> db \<Rightarrow> pg_error + BetRow \<times> db" where
  "InsertBet i roundID playerID choice amount placedAt d =
     (let b = \<lparr>br_ID = i, br_RoundID = roundID, br_PlayerID = playerID, br_Choice = choice,
               br_Amount = amount, br_Won = None, br_Payout = None, br_PlacedAt = placedAt,
               br_SettledAt = None\<rparr>
      in writes (guarded (bets_check b)
           [(list_all (\<lambda>q. br_ID q \<noteq> i) (db_bets d), ''bets_pkey''),
            (list_all (\<lambda>q. \<not> (br_RoundID q = roundID \<and> br_PlayerID q = playerID)) (db_bets d),
             ''bets_round_player_key'')]
           [(has_round d roundID, ''bets_round_id_fkey''),
            (has_player d playerID, ''bets_player_id_fkey'')])
         b (d\<lparr>db_bets := db_bets d @ [b]\<rparr>))"

definition GetBetByRoundAndPlayer :: "id \<Rightarrow> id \<Rightarrow> db \<Rightarrow> pg_error + BetRow \<times> db" where
  "GetBetByRoundAndPlayer i p d =
     reads (one_row (find (\<lambda>b. br_RoundID b = i \<and> br_PlayerID b = p) (db_bets d))) d"

definition ListBetsByPlayer :: "id \<Rightarrow> int \<Rightarrow> int \<Rightarrow> db \<Rightarrow> pg_error + BetRow list \<times> db" where
  "ListBetsByPlayer p limit off d =
     reads (paged limit off
       (sort_key (\<lambda>b. - br_PlacedAt b) (filter (\<lambda>b. br_PlayerID b = p) (db_bets d)))) d"

definition ListBetsByRound :: "id \<Rightarrow> db \<Rightarrow> pg_error + BetRow list \<times> db" where
  "ListBetsByRound i d = Inr (sort_key br_PlacedAt (filter (\<lambda>b. br_RoundID b = i) (db_bets d)), d)"

definition upd_bet :: "id \<Rightarrow> (BetRow \<Rightarrow> BetRow) \<Rightarrow> db \<Rightarrow> db" where
  "upd_bet i f d = d\<lparr>db_bets := map (\<lambda>b. if br_ID b = i then f b else b) (db_bets d)\<rparr>"

definition resolve_row :: "bool \<Rightarrow> int64 \<Rightarrow> time \<Rightarrow> BetRow \<Rightarrow> BetRow" where
  "resolve_row won payout settledAt b =
     b\<lparr>br_Won := Some won, br_Payout := Some payout, br_SettledAt := Some settledAt\<rparr>"

definition SettleBet_sql :: "bool \<Rightarrow> int64 \<Rightarrow> time \<Rightarrow> id \<Rightarrow> db \<Rightarrow> pg_error + BetRow \<times> db" where
  "SettleBet_sql won payout settledAt i d =
     (case find (\<lambda>b. br_ID b = i \<and> br_Won b = None) (db_bets d) of
        None \<Rightarrow> Inl ErrNoRows
      | Some b \<Rightarrow> writes (guarded (bets_check (resolve_row won payout settledAt b)) [] [])
                   (resolve_row won payout settledAt b)
                   (upd_bet i (\<lambda>b. if br_Won b = None then resolve_row won payout settledAt b else b) d))"

end
