(* ===== verification/World.thy ===== *)
theory World
  imports Pg_Queries
begin

text \<open>
  What a use case runs against.  A program is a function from the world to a result and the
  new world; the world holds the database, the state of the ambient transaction, the
  Redis server and counters for the calls made so far.

  Everything that is not code of the repository enters through the record \<open>ext\<close>: the parser
  of \<open>google/uuid\<close>, the stream of identifiers it generates, the readings of the clocks, when a
  call to the database server fails and how a commit ends, the draws of \<open>crypto/rand\<close>, and the
  Redis server as a function of its state.  The theorems hold for every such record unless
  they state a hypothesis about it.

  Transactions run one at a time.  Inside one, a statement that the server rejects aborts the
  transaction, as PostgreSQL does: every later statement fails and so does the commit.
\<close>

section \<open>External code\<close>

text \<open>Redis commands, the values the program stores, and the replies.\<close>

record cachedRoom =
  cr_ID :: id
  cr_OwnerID :: id
  cr_Status :: string
  cr_CurrentRound :: int
  cr_MaxRounds :: int
  cr_PlayerCount :: int
  cr_MaxPlayers :: int
  cr_CreatedAt :: time

text \<open>A stored value is a plain string, the JSON text of a cached room, or text that is neither.\<close>

datatype payload = Text string | JsonRoom cachedRoom | Garbage string

datatype redis_cmd =
    SETNX string payload duration
  | SET string payload duration
  | GET string
  | DEL string
  | HSET string string payload
  | HDEL string string
  | HGETALL string
  | EVAL_release string payload

datatype redis_reply = RBool bool | RNil | RVal payload | RHash "(string \<times> payload) list" | ROk

datatype commit_fate = Committed | NotCommitted | AckLost

text \<open>The claims of an access token, and how its parser can refuse it.\<close>

record token_claims =
  tc_Email :: string
  tc_Subject :: string
  tc_Issuer :: string
  tc_IssuedAt :: time
  tc_NotBefore :: time
  tc_ExpiresAt :: "time option"

datatype jwt_error = TokenExpired | TokenUnusable

record 'r ext =
  x_uuid :: "string \<Rightarrow> string option"
  x_newid :: "nat \<Rightarrow> string"
  x_clock :: "nat \<Rightarrow> time"
  x_server_now :: "nat \<Rightarrow> time"
  x_fault :: "nat \<Rightarrow> bool"
  x_commit :: "nat \<Rightarrow> commit_fate"
  x_rand :: "nat \<Rightarrow> int option"
  x_redis :: "redis_cmd list \<Rightarrow> 'r \<Rightarrow> (string + redis_reply list) \<times> 'r"
  x_bcrypt :: "nat \<Rightarrow> string \<Rightarrow> string option"
  x_bcrypt_match :: "string \<Rightarrow> string \<Rightarrow> bool option"
  x_jwt_sign :: "token_claims \<Rightarrow> string option"
  x_jwt_parse :: "time \<Rightarrow> string \<Rightarrow> string \<Rightarrow> jwt_error + token_claims"

text \<open>
  The documented behaviour of \<open>uuid.Parse\<close> and \<open>UUID.String\<close>: the canonical text of an
  identifier is not blank, and parsing it gives that identifier back.
\<close>

definition uuid_canonical :: "'r ext \<Rightarrow> bool" where
  "uuid_canonical X \<longleftrightarrow> (\<forall>s u. x_uuid X s = Some u \<longrightarrow> x_uuid X u = Some u \<and> \<not> blank u)"

text \<open>The documented behaviour of \<open>rand.Int\<close>: a value below the bound.\<close>

definition rand_bounded :: "'r ext \<Rightarrow> bool" where
  "rand_bounded X \<longleftrightarrow> (\<forall>n v. x_rand X n = Some v \<longrightarrow> 0 \<le> v \<and> v < 6)"

section \<open>The world\<close>

datatype tx_state = NoTx | InTx | TxAborted

record 'r world =
  w_db :: db
  w_tx :: tx_state
  w_calls :: nat
  w_ids :: nat
  w_ticks :: nat
  w_rolls :: nat
  w_salts :: nat
  w_redis :: 'r

type_synonym ('r, 'e, 'a) prog = "'r world \<Rightarrow> ('e + 'a) \<times> 'r world"

definition ret :: "'a \<Rightarrow> ('r, 'e, 'a) prog" where
  "ret x = (\<lambda>w. (Inr x, w))"

definition fail :: "'e \<Rightarrow> ('r, 'e, 'a) prog" where
  "fail e = (\<lambda>w. (Inl e, w))"

definition lift :: "'e + 'a \<Rightarrow> ('r, 'e, 'a) prog" where
  "lift r = (\<lambda>w. (r, w))"

definition bnd :: "('r, 'e, 'a) prog \<Rightarrow> ('a \<Rightarrow> ('r, 'e, 'b) prog) \<Rightarrow> ('r, 'e, 'b) prog" where
  "bnd m k = (\<lambda>w. case m w of (Inl e, w') \<Rightarrow> (Inl e, w') | (Inr x, w') \<Rightarrow> k x w')"

text \<open>The result of a call whatever it is, for the callers that inspect or drop an error.\<close>

definition attempt :: "('r, 'e, 'a) prog \<Rightarrow> ('r, 'f, 'e + 'a) prog" where
  "attempt m = (\<lambda>w. case m w of (r, w') \<Rightarrow> (Inr r, w'))"

definition on_error :: "('e \<Rightarrow> 'f) \<Rightarrow> ('r, 'e, 'a) prog \<Rightarrow> ('r, 'f, 'a) prog" where
  "on_error f m = (\<lambda>w. case m w of (Inl e, w') \<Rightarrow> (Inl (f e), w') | (Inr x, w') \<Rightarrow> (Inr x, w'))"

primrec each :: "('a \<Rightarrow> ('r, 'e, unit) prog) \<Rightarrow> 'a list \<Rightarrow> ('r, 'e, unit) prog" where
  "each f [] = ret ()"
| "each f (x # xs) = bnd (f x) (\<lambda>_. each f xs)"

primrec collect :: "('a \<Rightarrow> ('r, 'e, 'b) prog) \<Rightarrow> 'a list \<Rightarrow> ('r, 'e, 'b list) prog" where
  "collect f [] = ret []"
| "collect f (x # xs) = bnd (f x) (\<lambda>y. bnd (collect f xs) (\<lambda>ys. ret (y # ys)))"

lemma ret_ok [ok_inv]: "ret x w = (Inr y, w') \<longleftrightarrow> y = x \<and> w' = w"
  by (auto simp: ret_def)

lemma fail_ok [ok_inv]: "fail e w = (Inr y, w') \<longleftrightarrow> False"
  by (simp add: fail_def)

lemma lift_ok [ok_inv]: "lift r w = (Inr y, w') \<longleftrightarrow> r = Inr y \<and> w' = w"
  by (auto simp: lift_def)

lemma bnd_ok [ok_inv]:
  "bnd m k w = (Inr y, w') \<longleftrightarrow> (\<exists>x w1. m w = (Inr x, w1) \<and> k x w1 = (Inr y, w'))"
  by (auto simp: bnd_def split: prod.splits sum.splits)

lemma ex_unit: "(\<exists>u. P u) \<longleftrightarrow> P ()"
  by auto

text \<open>Unfolds a successful run of a sequence of calls into the runs of the calls.\<close>

lemmas run_ok = bnd_ok lift_ok ret_ok ex_unit split_paired_Ex prod.case

lemma attempt_ok [ok_inv]: "attempt m w = (Inr r, w') \<longleftrightarrow> m w = (r, w')"
  by (auto simp: attempt_def split: prod.splits)

lemma on_error_ok [ok_inv]: "on_error f m w = (Inr x, w') \<longleftrightarrow> m w = (Inr x, w')"
  by (auto simp: on_error_def split: prod.splits sum.splits)

lemma if_prog_ok [ok_inv]:
  "(if c then fail e else m) w = (Inr y, w') \<longleftrightarrow> \<not> c \<and> m w = (Inr y, w')"
  "(if c then m else fail e) w = (Inr y, w') \<longleftrightarrow> c \<and> m w = (Inr y, w')"
  by (auto simp: ok_inv)

section \<open>Calls to the outside\<close>

text \<open>\<open>IDGenerator.NewID\<close>, \<open>Clock.Now\<close>.\<close>

definition NewID :: "'r ext \<Rightarrow> ('r, error, id) prog" where
  "NewID X = (\<lambda>w. (Inr (x_newid X (w_ids w)), w\<lparr>w_ids := Suc (w_ids w)\<rparr>))"

definition Now :: "'r ext \<Rightarrow> ('r, error, time) prog" where
  "Now X = (\<lambda>w. (Inr (x_clock X (w_ticks w)), w\<lparr>w_ticks := Suc (w_ticks w)\<rparr>))"

lemma NewID_ok [ok_inv]:
  "NewID X w = (Inr i, w') \<longleftrightarrow> i = x_newid X (w_ids w) \<and> w' = w\<lparr>w_ids := Suc (w_ids w)\<rparr>"
  by (auto simp: NewID_def)

lemma Now_ok [ok_inv]:
  "Now X w = (Inr t, w') \<longleftrightarrow> t = x_clock X (w_ticks w) \<and> w' = w\<lparr>w_ticks := Suc (w_ticks w)\<rparr>"
  by (auto simp: Now_def)

text \<open>The dice of \<open>internal/infrastructure/dice\<close>: two draws of \<open>crypto/rand\<close>.\<close>

definition faces :: int where
  "faces = 6"

definition rollOne :: "'r ext \<Rightarrow> ('r, error, int) prog" where
  "rollOne X = (\<lambda>w. (case x_rand X (w_rolls w) of
       None \<Rightarrow> Inl (InfraErr ''dice: crypto/rand failed'')
     | Some n \<Rightarrow> Inr (n + 1), w\<lparr>w_rolls := Suc (w_rolls w)\<rparr>))"

definition Roll :: "'r ext \<Rightarrow> ('r, error, int \<times> int) prog" where
  "Roll X = bnd (rollOne X) (\<lambda>die1. bnd (rollOne X) (\<lambda>die2. ret (die1, die2)))"

text \<open>One statement sent to the database server.\<close>

definition exec :: "'r ext \<Rightarrow> (db \<Rightarrow> pg_error + 'a \<times> db) \<Rightarrow> ('r, pg_error, 'a) prog" where
  "exec X q = (\<lambda>w.
     let w1 = w\<lparr>w_calls := Suc (w_calls w)\<rparr>;
         spoilt = w1\<lparr>w_tx := (if w_tx w = NoTx then NoTx else TxAborted)\<rparr>
     in if x_fault X (w_calls w) then (Inl DriverError, spoilt)
        else if w_tx w = TxAborted then (Inl (PgError ''25P02'' []), w1)
        else case q (w_db w) of
          Inl ErrNoRows \<Rightarrow> (Inl ErrNoRows, w1)
        | Inl e \<Rightarrow> (Inl e, spoilt)
        | Inr (x, d) \<Rightarrow> (Inr x, w1\<lparr>w_db := d\<rparr>))"

lemma exec_ok [ok_inv]:
  "exec X q w = (Inr x, w') \<longleftrightarrow>
     \<not> x_fault X (w_calls w) \<and> w_tx w \<noteq> TxAborted \<and>
     (\<exists>d. q (w_db w) = Inr (x, d) \<and> w' = w\<lparr>w_calls := Suc (w_calls w), w_db := d\<rparr>)"
  by (auto simp: exec_def Let_def split: sum.splits pg_error.splits)

text \<open>The server's own clock, read by \<open>DEFAULT now()\<close>.\<close>

definition server_now :: "'r ext \<Rightarrow> 'r world \<Rightarrow> time" where
  "server_now X w = x_server_now X (w_calls w)"

section \<open>Transactions\<close>

definition WithinTx :: "'r ext \<Rightarrow> ('r, error, 'a) prog \<Rightarrow> ('r, error, 'a) prog" where
  "WithinTx X fn = (\<lambda>w.
     if w_tx w \<noteq> NoTx then fn w
     else
       let before = w_db w;
           w1 = w\<lparr>w_calls := Suc (w_calls w)\<rparr>
       in if x_fault X (w_calls w) then (Inl (InfraErr ''begin transaction''), w1)
          else case fn (w1\<lparr>w_tx := InTx\<rparr>) of
            (Inl e, w2) \<Rightarrow> (Inl e, w2\<lparr>w_db := before, w_tx := NoTx\<rparr>)
          | (Inr x, w2) \<Rightarrow>
              let w3 = w2\<lparr>w_calls := Suc (w_calls w2), w_tx := NoTx\<rparr> in
              if w_tx w2 = TxAborted then (Inl (InfraErr ''commit transaction''), w3\<lparr>w_db := before\<rparr>)
              else (case x_commit X (w_calls w2) of
                 Committed \<Rightarrow> (Inr x, w3)
               | NotCommitted \<Rightarrow> (Inl (InfraErr ''commit transaction''), w3\<lparr>w_db := before\<rparr>)
               | AckLost \<Rightarrow> (Inl (InfraErr ''commit transaction''), w3)))"

text \<open>
  How a transaction ends when none was open: with the database it started from, or with the
  database its body left after succeeding.
\<close>

lemma WithinTx_cases:
  assumes "WithinTx X fn w = (r, w')" and "w_tx w = NoTx"
  obtains (unchanged) e where "r = Inl e" "w_db w' = w_db w" "w_tx w' = NoTx"
  | (committed) x w2 where
      "fn (w\<lparr>w_calls := Suc (w_calls w), w_tx := InTx\<rparr>) = (Inr x, w2)" "w_tx w2 \<noteq> TxAborted"
      "w' = w2\<lparr>w_calls := Suc (w_calls w2), w_tx := NoTx\<rparr>"
      "r = Inr x \<or> r = Inl (InfraErr ''commit transaction'') \<and> x_commit X (w_calls w2) = AckLost"
proof -
  let ?w1 = "w\<lparr>w_calls := Suc (w_calls w), w_tx := InTx\<rparr>"
  obtain rb w2 where body: "fn ?w1 = (rb, w2)" by fastforce
  show ?thesis
  proof (cases "x_fault X (w_calls w)")
    case True
    then show ?thesis using assms unchanged by (auto simp: WithinTx_def Let_def)
  next
    case False
    show ?thesis
    proof (cases rb)
      case (Inl e)
      then show ?thesis using assms False body unchanged by (auto simp: WithinTx_def Let_def)
    next
      case (Inr x)
      then show ?thesis
        using assms False body unchanged committed [of x w2]
        by (cases "x_commit X (w_calls w2)"; cases "w_tx w2 = TxAborted")
           (auto simp: WithinTx_def Let_def)
    qed
  qed
qed

lemma WithinTx_ok:
  assumes "WithinTx X fn w = (Inr x, w')" and "w_tx w = NoTx"
  obtains w2 where "fn (w\<lparr>w_calls := Suc (w_calls w), w_tx := InTx\<rparr>) = (Inr x, w2)"
    "w_tx w2 \<noteq> TxAborted" "w' = w2\<lparr>w_calls := Suc (w_calls w2), w_tx := NoTx\<rparr>"
  using assms by (cases rule: WithinTx_cases [OF assms]) auto

end
