(* ===== verification/Pg_Repos.thy ===== *)
theory Pg_Repos
  imports World
begin

text \<open>
  The repositories of \<open>internal/infrastructure/postgres\<close>: identifiers are parsed, one or more
  statements are sent, driver errors become domain errors and rows become domain values.
  An identifier column holds the canonical text of its UUID, which is what \<open>fromUUID\<close> prints.
\<close>

section \<open>Conversions\<close>

text \<open>\<open>toUUID\<close>, with the error its caller answers for text that is not a UUID.\<close>

definition toUUID :: "'r ext \<Rightarrow> error \<Rightarrow> string \<Rightarrow> ('r, error, id) prog" where
  "toUUID X e s = (case x_uuid X s of None \<Rightarrow> fail e | Some u \<Rightarrow> ret u)"

definition toNullUUID :: "'r ext \<Rightarrow> error \<Rightarrow> string option \<Rightarrow> ('r, error, id option) prog" where
  "toNullUUID X e s =
     (case s of
        None \<Rightarrow> ret None
      | Some t \<Rightarrow> if t = [] then ret None else bnd (toUUID X e t) (\<lambda>u. ret (Some u)))"

definition fromInt2 :: "int option \<Rightarrow> int" where
  "fromInt2 v = (case v of None \<Rightarrow> 0 | Some n \<Rightarrow> n)"

definition pgErrorCode :: "pg_error \<Rightarrow> string" where
  "pgErrorCode e = (case e of PgError code _ \<Rightarrow> code | _ \<Rightarrow> [])"

definition isNoRows :: "pg_error \<Rightarrow> bool" where
  "isNoRows e \<longleftrightarrow> e = ErrNoRows"

lemma toUUID_ok [ok_inv]: "toUUID X e s w = (Inr u, w') \<longleftrightarrow> x_uuid X s = Some u \<and> w' = w"
  by (auto simp: toUUID_def ok_inv split: option.splits)

lemma toNullUUID_ok [ok_inv]:
  "toNullUUID X e s w = (Inr u, w') \<longleftrightarrow>
     w' = w \<and> u = (case s of None \<Rightarrow> None | Some t \<Rightarrow> if t = [] then None else x_uuid X t) \<and>
     (\<forall>t. s = Some t \<longrightarrow> t \<noteq> [] \<longrightarrow> x_uuid X t \<noteq> None)"
  by (auto simp: toNullUUID_def ok_inv split: option.splits)

section \<open>PlayerRepository\<close>

definition toDomainPlayer :: "PlayerRow \<Rightarrow> error + Player" where
  "toDomainPlayer row =
     RehydratePlayer (pr_ID row) (pr_Email row) (pr_PasswordHash row) (pr_Balance row) (pr_CreatedAt row)"

definition Player_Create :: "'r ext \<Rightarrow> Player \<Rightarrow> ('r, error, unit) prog" where
  "Player_Create X p =
     bnd (toUUID X (InfraErr ''player id'') (pl_ID p)) (\<lambda>i.
     bnd (on_error (\<lambda>e. if pgErrorCode e = codeUniqueViolation then PlayerErr ErrEmailAlreadyUsed
                        else InfraErr ''create player'')
       (exec X (CreatePlayer \<lparr>pr_ID = i, pr_Email = pl_Email p, pr_PasswordHash = pl_PasswordHash p,
          pr_Balance = pl_Balance p, pr_CreatedAt = pl_CreatedAt p\<rparr>))) (\<lambda>_.
     ret ()))"

definition Player_GetByID :: "'r ext \<Rightarrow> string \<Rightarrow> ('r, error, Player) prog" where
  "Player_GetByID X i =
     bnd (toUUID X (PlayerErr ErrNotFound) i) (\<lambda>pid.
     bnd (on_error (\<lambda>e. if isNoRows e then PlayerErr ErrNotFound else InfraErr ''get player'')
       (exec X (GetPlayerByID pid))) (\<lambda>row.
     lift (toDomainPlayer row)))"

definition Player_GetByEmail :: "'r ext \<Rightarrow> string \<Rightarrow> ('r, error, Player) prog" where
  "Player_GetByEmail X email =
     bnd (on_error (\<lambda>e. if isNoRows e then PlayerErr ErrNotFound else InfraErr ''get player by email'')
       (exec X (GetPlayerByEmail email))) (\<lambda>row.
     lift (toDomainPlayer row))"

definition Player_GetForUpdate :: "'r ext \<Rightarrow> string \<Rightarrow> ('r, error, Player) prog" where
  "Player_GetForUpdate X i =
     bnd (toUUID X (PlayerErr ErrNotFound) i) (\<lambda>pid.
     bnd (on_error (\<lambda>e. if isNoRows e then PlayerErr ErrNotFound else InfraErr ''lock player'')
       (exec X (GetPlayerForUpdate pid))) (\<lambda>row.
     lift (toDomainPlayer row)))"

definition UpdateBalance :: "'r ext \<Rightarrow> string \<Rightarrow> int64 \<Rightarrow> ('r, error, unit) prog" where
  "UpdateBalance X i balance =
     bnd (toUUID X (PlayerErr ErrNotFound) i) (\<lambda>pid.
     bnd (on_error (\<lambda>e. if isNoRows e then PlayerErr ErrNotFound
                        else if pgErrorCode e = codeCheckViolation then PlayerErr ErrInsufficientBalance
                        else InfraErr ''update balance'')
       (exec X (UpdatePlayerBalance pid balance))) (\<lambda>_.
     ret ()))"

section \<open>TransactionRepository\<close>

definition Transaction_Insert :: "'r ext \<Rightarrow> Transaction \<Rightarrow> ('r, error, unit) prog" where
  "Transaction_Insert X t =
     bnd (toUUID X (InfraErr ''transaction id'') (tx_ID t)) (\<lambda>i.
     bnd (toUUID X (InfraErr ''transaction player id'') (tx_PlayerID t)) (\<lambda>playerID.
     bnd (toNullUUID X (InfraErr ''transaction round id'') (tx_RoundID t)) (\<lambda>roundID.
     bnd (on_error (\<lambda>_. InfraErr ''insert transaction'')
       (exec X (InsertTransaction \<lparr>lr_ID = i, lr_PlayerID = playerID, lr_Type = tx_Type t,
          lr_Amount = tx_Amount t, lr_RoundID = roundID, lr_CreatedAt = tx_CreatedAt t\<rparr>))) (\<lambda>_.
     ret ()))))"

definition Transaction_ListByPlayer :: "'r ext \<Rightarrow> string \<Rightarrow> int \<Rightarrow> int \<Rightarrow> ('r, error, Transaction list) prog" where
  "Transaction_ListByPlayer X playerID limit off =
     bnd (toUUID X (PlayerErr ErrNotFound) playerID) (\<lambda>pid.
     bnd (on_error (\<lambda>_. InfraErr ''list transactions'') (exec X (ListTransactionsByPlayer pid limit off))) (\<lambda>rows.
     ret (map (\<lambda>row. \<lparr>tx_ID = lr_ID row, tx_PlayerID = lr_PlayerID row, tx_Type = lr_Type row,
            tx_Amount = lr_Amount row, tx_RoundID = lr_RoundID row, tx_CreatedAt = lr_CreatedAt row\<rparr>) rows)))"

section \<open>RoomRepository\<close>

record RoomSummary =
  su_ID :: id
  su_OwnerID :: id
  su_Status :: RoomStatus
  su_CurrentRound :: int
  su_MaxRounds :: int
  su_PlayerCount :: int
  su_MaxPlayers :: int
  su_CreatedAt :: time

definition AddPlayer :: "'r ext \<Rightarrow> string \<Rightarrow> string \<Rightarrow> time \<Rightarrow> ('r, error, unit) prog" where
  "AddPlayer X roomID playerID joinedAt =
     bnd (toUUID X (GameErr ErrRoomNotFound) roomID) (\<lambda>rid.
     bnd (toUUID X (GameErr game_error.ErrInvalidID) playerID) (\<lambda>pid.
     bnd (on_error (\<lambda>e. if pgErrorCode e = codeUniqueViolation then GameErr ErrAlreadyJoined
                        else if pgErrorCode e = codeForeignKeyViolation then GameErr ErrRoomNotFound
                        else InfraErr ''add room player'')
       (exec X (AddRoomPlayer \<lparr>sr_RoomID = rid, sr_PlayerID = pid, sr_JoinedAt = joinedAt\<rparr>))) (\<lambda>_.
     ret ())))"

definition Room_Create :: "'r ext \<Rightarrow> Room \<Rightarrow> ('r, error, unit) prog" where
  "Room_Create X room =
     bnd (toUUID X (InfraErr ''room id'') (rm_ID room)) (\<lambda>i.
     bnd (toUUID X (InfraErr ''room owner id'') (rm_OwnerID room)) (\<lambda>ownerID.
     bnd (on_error (\<lambda>_. InfraErr ''create room'')
       (exec X (CreateRoom_sql \<lparr>mr_ID = i, mr_OwnerID = ownerID, mr_Status = rm_Status room,
          mr_MaxRounds = trunc32 (rm_MaxRounds room), mr_MaxPlayers = trunc32 (rm_MaxPlayers room),
          mr_CurrentRound = trunc32 (rm_CurrentRound room), mr_CreatedAt = rm_CreatedAt room,
          mr_ClosedAt = None\<rparr>))) (\<lambda>_.
     each (\<lambda>playerID. AddPlayer X (rm_ID room) playerID (rm_CreatedAt room)) (Players room))))"

definition Room_load :: "'r ext \<Rightarrow> string \<Rightarrow> bool \<Rightarrow> ('r, error, Room) prog" where
  "Room_load X i forUpdate =
     bnd (toUUID X (GameErr ErrRoomNotFound) i) (\<lambda>rid.
     bnd (on_error (\<lambda>e. if isNoRows e then GameErr ErrRoomNotFound else InfraErr ''get room'')
       (if forUpdate then exec X (GetRoomForUpdate rid) else exec X (GetRoomByID rid))) (\<lambda>row.
     bnd (on_error (\<lambda>_. InfraErr ''list room players'') (exec X (ListRoomPlayers rid))) (\<lambda>seatRows.
     lift (RehydrateRoom (mr_ID row) (mr_OwnerID row) (mr_Status row) (mr_CurrentRound row)
       (mr_CreatedAt row) (mr_ClosedAt row)
       (fold (\<lambda>s m. AList.update (sr_PlayerID s) (sr_JoinedAt s) m) seatRows []) None))))"

definition Room_GetByID :: "'r ext \<Rightarrow> string \<Rightarrow> ('r, error, Room) prog" where
  "Room_GetByID X i = Room_load X i False"

definition Room_GetForUpdate :: "'r ext \<Rightarrow> string \<Rightarrow> ('r, error, Room) prog" where
  "Room_GetForUpdate X i = Room_load X i True"

definition ListOpen :: "'r ext \<Rightarrow> int \<Rightarrow> int \<Rightarrow> ('r, error, RoomSummary list) prog" where
  "ListOpen X limit off =
     bnd (on_error (\<lambda>_. InfraErr ''list open rooms'') (exec X (ListOpenRooms_sql limit off))) (\<lambda>rows.
     ret (map (\<lambda>(row, n). \<lparr>su_ID = mr_ID row, su_OwnerID = mr_OwnerID row, su_Status = mr_Status row,
        su_CurrentRound = mr_CurrentRound row, su_MaxRounds = mr_MaxRounds row, su_PlayerCount = n,
        su_MaxPlayers = mr_MaxPlayers row, su_CreatedAt = mr_CreatedAt row\<rparr>) rows))"

definition ListActiveRoomIDs :: "'r ext \<Rightarrow> ('r, error, id list) prog" where
  "ListActiveRoomIDs X = on_error (\<lambda>_. InfraErr ''list active rooms'') (exec X ListActiveRoomIDs_sql)"

definition UpdateStatus :: "'r ext \<Rightarrow> string \<Rightarrow> RoomStatus \<Rightarrow> time option \<Rightarrow> ('r, error, unit) prog" where
  "UpdateStatus X i status closedAt =
     bnd (toUUID X (GameErr ErrRoomNotFound) i) (\<lambda>rid.
     bnd (on_error (\<lambda>e. if isNoRows e then GameErr ErrRoomNotFound else InfraErr ''update room status'')
       (exec X (UpdateRoomStatus status closedAt rid))) (\<lambda>_.
     ret ()))"

definition SetCurrentRound :: "'r ext \<Rightarrow> string \<Rightarrow> int \<Rightarrow> ('r, error, unit) prog" where
  "SetCurrentRound X i currentRound =
     bnd (toUUID X (GameErr ErrRoomNotFound) i) (\<lambda>rid.
     bnd (on_error (\<lambda>e. if isNoRows e then GameErr ErrRoomNotFound else InfraErr ''update current round'')
       (exec X (UpdateRoomCurrentRound rid (trunc32 currentRound)))) (\<lambda>_.
     ret ()))"

definition RemovePlayer :: "'r ext \<Rightarrow> string \<Rightarrow> string \<Rightarrow> ('r, error, unit) prog" where
  "RemovePlayer X roomID playerID =
     bnd (toUUID X (GameErr ErrRoomNotFound) roomID) (\<lambda>rid.
     bnd (toUUID X (GameErr game_error.ErrInvalidID) playerID) (\<lambda>pid.
     bnd (on_error (\<lambda>_. InfraErr ''remove room player'') (exec X (RemoveRoomPlayer rid pid))) (\<lambda>affected.
     if affected = 0 then fail (GameErr ErrNotAMember) else ret ())))"

definition CountPlayers :: "'r ext \<Rightarrow> string \<Rightarrow> ('r, error, int) prog" where
  "CountPlayers X roomID =
     bnd (toUUID X (GameErr ErrRoomNotFound) roomID) (\<lambda>rid.
     on_error (\<lambda>_. InfraErr ''count room players'') (exec X (CountRoomPlayers rid)))"

text \<open>The empty string stands for no active room.\<close>

definition FindActiveRoomForPlayer :: "'r ext \<Rightarrow> string \<Rightarrow> ('r, error, string) prog" where
  "FindActiveRoomForPlayer X playerID =
     bnd (toUUID X (GameErr game_error.ErrInvalidID) playerID) (\<lambda>pid.
     bnd (attempt (exec X (FindActiveRoomForPlayer_sql pid))) (\<lambda>r.
     case r of
       Inl e \<Rightarrow> if isNoRows e then ret [] else fail (InfraErr ''find active room'')
     | Inr i \<Rightarrow> ret i))"

section \<open>BetRepository\<close>

definition toDomainBet :: "BetRow \<Rightarrow> Bet" where
  "toDomainBet row =
     \<lparr>bt_ID = br_ID row, bt_RoundID = br_RoundID row, bt_PlayerID = br_PlayerID row,
      bt_Choice = br_Choice row, bt_Amount = br_Amount row, bt_Won = br_Won row,
      bt_Payout = br_Payout row, bt_PlacedAt = br_PlacedAt row\<rparr>"

definition Bet_Insert :: "'r ext \<Rightarrow> Bet \<Rightarrow> ('r, error, unit) prog" where
  "Bet_Insert X b =
     bnd (toUUID X (InfraErr ''bet id'') (bt_ID b)) (\<lambda>i.
     bnd (toUUID X (InfraErr ''bet round id'') (bt_RoundID b)) (\<lambda>roundID.
     bnd (toUUID X (InfraErr ''bet player id'') (bt_PlayerID b)) (\<lambda>playerID.
     bnd (on_error (\<lambda>e. if pgErrorCode e = codeUniqueViolation then GameErr ErrDuplicateBet
                        else if pgErrorCode e = codeCheckViolation then GameErr game_error.ErrInvalidAmount
                        else if pgErrorCode e = codeForeignKeyViolation then GameErr ErrRoundNotFound
                        else InfraErr ''insert bet'')
       (exec X (InsertBet i roundID playerID (bt_Choice b) (bt_Amount b) (bt_PlacedAt b)))) (\<lambda>_.
     ret ()))))"

definition Bet_GetByRoundAndPlayer :: "'r ext \<Rightarrow> string \<Rightarrow> string \<Rightarrow> ('r, error, Bet) prog" where
  "Bet_GetByRoundAndPlayer X roundID playerID =
     bnd (toUUID X (GameErr ErrRoundNotFound) roundID) (\<lambda>rid.
     bnd (toUUID X (GameErr game_error.ErrInvalidID) playerID) (\<lambda>pid.
     bnd (on_error (\<lambda>e. if isNoRows e then GameErr ErrBetNotFound else InfraErr ''get bet'')
       (exec X (GetBetByRoundAndPlayer rid pid))) (\<lambda>row.
     ret (toDomainBet row))))"

definition Bet_ListByRound :: "'r ext \<Rightarrow> string \<Rightarrow> ('r, error, Bet list) prog" where
  "Bet_ListByRound X roundID =
     bnd (toUUID X (GameErr ErrRoundNotFound) roundID) (\<lambda>rid.
     bnd (on_error (\<lambda>_. InfraErr ''list bets'') (exec X (ListBetsByRound rid))) (\<lambda>rows.
     ret (map toDomainBet rows)))"

definition SettleBet :: "'r ext \<Rightarrow> string \<Rightarrow> bool \<Rightarrow> int64 \<Rightarrow> ('r, error, unit) prog" where
  "SettleBet X betID won payout =
     bnd (toUUID X (GameErr ErrBetNotFound) betID) (\<lambda>i.
     bnd (Now X) (\<lambda>settledAt.
     bnd (on_error (\<lambda>e. if isNoRows e then GameErr ErrRoundAlreadySettled else InfraErr ''settle bet'')
       (exec X (SettleBet_sql won payout settledAt i))) (\<lambda>_.
     ret ())))"

section \<open>RoundRepository\<close>

definition Round_Create :: "'r ext \<Rightarrow> Round \<Rightarrow> ('r, error, unit) prog" where
  "Round_Create X rnd =
     bnd (toUUID X (InfraErr ''round id'') (rd_ID rnd)) (\<lambda>i.
     bnd (toUUID X (InfraErr ''round room id'') (rd_RoomID rnd)) (\<lambda>roomID.
     bnd (on_error (\<lambda>e. if pgErrorCode e = codeUniqueViolation then GameErr ErrRoundInProgress
                        else InfraErr ''create round'')
       (\<lambda>w. exec X (CreateRound i roomID (trunc32 (rd_Number rnd)) (rd_BettingOpensAt rnd)
                     (rd_BettingClosesAt rnd) (server_now X w)) w)) (\<lambda>_.
     ret ())))"

definition hydrate :: "'r ext \<Rightarrow> RoundRow \<Rightarrow> ('r, error, Round) prog" where
  "hydrate X row =
     bnd (Bet_ListByRound X (dr_ID row)) (\<lambda>bets.
     lift (RehydrateRound (dr_ID row) (dr_RoomID row) (dr_Number row) (dr_BettingOpensAt row)
       (dr_BettingClosesAt row) (fromInt2 (dr_Die1 row)) (fromInt2 (dr_Die2 row))
       (case dr_Outcome row of None \<Rightarrow> [] | Some oc \<Rightarrow> oc) (dr_Status row) (dr_SettledAt row) bets))"

definition Round_GetByID :: "'r ext \<Rightarrow> string \<Rightarrow> ('r, error, Round) prog" where
  "Round_GetByID X i =
     bnd (toUUID X (GameErr ErrRoundNotFound) i) (\<lambda>rid.
     bnd (on_error (\<lambda>e. if isNoRows e then GameErr ErrRoundNotFound else InfraErr ''get round'')
       (exec X (GetRoundByID rid))) (\<lambda>row.
     hydrate X row))"

definition Round_GetByRoomAndNumber :: "'r ext \<Rightarrow> string \<Rightarrow> int \<Rightarrow> ('r, error, Round) prog" where
  "Round_GetByRoomAndNumber X roomID number =
     bnd (toUUID X (GameErr ErrRoomNotFound) roomID) (\<lambda>rid.
     bnd (on_error (\<lambda>e. if isNoRows e then GameErr ErrRoundNotFound else InfraErr ''get round by number'')
       (exec X (GetRoundByRoomAndNumber rid (trunc32 number)))) (\<lambda>row.
     hydrate X row))"

definition Round_GetCurrent :: "'r ext \<Rightarrow> string \<Rightarrow> ('r, error, Round) prog" where
  "Round_GetCurrent X roomID =
     bnd (toUUID X (GameErr ErrRoomNotFound) roomID) (\<lambda>rid.
     bnd (on_error (\<lambda>e. if isNoRows e then GameErr ErrRoundNotFound else InfraErr ''get current round'')
       (exec X (GetCurrentRound rid))) (\<lambda>row.
     hydrate X row))"

definition Round_ListByRoom :: "'r ext \<Rightarrow> string \<Rightarrow> ('r, error, Round list) prog" where
  "Round_ListByRoom X roomID =
     bnd (toUUID X (GameErr ErrRoomNotFound) roomID) (\<lambda>rid.
     bnd (on_error (\<lambda>_. InfraErr ''list rounds'') (exec X (ListRoundsByRoom rid))) (\<lambda>rows.
     collect (hydrate X) rows))"

definition Round_SettleRow :: "'r ext \<Rightarrow> Round \<Rightarrow> ('r, error, unit) prog" where
  "Round_SettleRow X rnd =
     bnd (toUUID X (GameErr ErrRoundNotFound) (rd_ID rnd)) (\<lambda>i.
     case rd_SettledAt rnd of
       None \<Rightarrow> fail (GameErr ErrRoundAlreadySettled)
     | Some settledAt \<Rightarrow>
         bnd (on_error (\<lambda>e. if isNoRows e then GameErr ErrRoundAlreadySettled else InfraErr ''settle round'')
           (exec X (SettleRound_sql (trunc16 (rd_Die1 rnd)) (trunc16 (rd_Die2 rnd)) (rd_Outcome rnd)
              settledAt i))) (\<lambda>_.
         ret ()))"

end
