(* ===== verification/Audit_Trail.thy ===== *)
theory Audit_Trail
  imports Go_Json Pg_Repos
begin

text \<open>
  The audit trail: the entity of \<open>internal/domain/audit\<close>, the table \<open>audit_logs\<close> with its statements and
  repository, and the redaction of payloads in \<open>interfaces/rest/audit.go\<close> that both channels share.

  The table is the list of its rows in insertion order.  PostgreSQL refuses a zero byte in a text column and
  in a string of a \<open>jsonb\<close> value.  \<open>json.Unmarshal\<close> into \<open>any\<close> turns a number into a \<open>float64\<close>; the argument \<open>fl\<close> gives
  the literal that \<open>json.Marshal\<close> prints for it, and nothing for a number out of range.
\<close>

section \<open>Entries\<close>

type_synonym Channel = string

definition ChannelREST :: Channel where "ChannelREST = ''rest''"
definition ChannelWS :: Channel where "ChannelWS = ''ws''"

definition Channel_Valid :: "Channel \<Rightarrow> bool" where
  "Channel_Valid c \<longleftrightarrow> c = ChannelREST \<or> c = ChannelWS"

record Entry =
  en_ID :: string
  en_OccurredAt :: time
  en_ActorID :: "string option"
  en_Channel :: Channel
  en_EndpointOrEvent :: string
  en_HTTPMethod :: "string option"
  en_Action :: string
  en_Error :: "string option"
  en_Payload :: "json option"

definition NewEntry :: "string \<Rightarrow> time \<Rightarrow> string option \<Rightarrow> Channel \<Rightarrow> string \<Rightarrow> string \<Rightarrow> string option \<Rightarrow>
    string option \<Rightarrow> json option \<Rightarrow> error + Entry" where
  "NewEntry i occurredAt actorID channel endpointOrEvent act httpMethod opErr payload =
     (if \<not> Channel_Valid channel then Inl (AuditErr ErrInvalidChannel)
      else if TrimSpace endpointOrEvent = [] then Inl (AuditErr ErrInvalidEndpoint)
      else if TrimSpace act = [] then Inl (AuditErr ErrInvalidAction)
      else Inr \<lparr>en_ID = i, en_OccurredAt = occurredAt, en_ActorID = actorID, en_Channel = channel,
                en_EndpointOrEvent = endpointOrEvent, en_HTTPMethod = httpMethod, en_Action = act,
                en_Error = opErr, en_Payload = payload\<rparr>)"

definition Succeeded :: "Entry \<Rightarrow> bool" where
  "Succeeded e \<longleftrightarrow> en_Error e = None"

section \<open>The table\<close>

record AuditLog =
  al_ID :: id
  al_OccurredAt :: time
  al_ActorID :: "id option"
  al_Channel :: string
  al_EndpointOrEvent :: string
  al_HttpMethod :: "string option"
  al_Action :: string
  al_Error :: "string option"
  al_Payload :: "json option"

definition no_nul :: "string \<Rightarrow> bool" where
  "no_nul s \<longleftrightarrow> list_all (\<lambda>c. char_code c \<noteq> 0) s"

fun jsonb_ok :: "json \<Rightarrow> bool" where
  "jsonb_ok (JStr s) = no_nul s"
| "jsonb_ok (JArr vs) = list_all jsonb_ok vs"
| "jsonb_ok (JObj kvs) = list_all (\<lambda>kv. no_nul (fst kv) \<and> jsonb_ok (snd kv)) kvs"
| "jsonb_ok _ = True"

definition unset_or :: "('a \<Rightarrow> bool) \<Rightarrow> 'a option \<Rightarrow> bool" where
  "unset_or P v = (case v of None \<Rightarrow> True | Some x \<Rightarrow> P x)"

definition text_ok :: "AuditLog \<Rightarrow> bool" where
  "text_ok r \<longleftrightarrow> no_nul (al_Channel r) \<and> no_nul (al_EndpointOrEvent r) \<and> no_nul (al_Action r) \<and>
     unset_or no_nul (al_HttpMethod r) \<and> unset_or no_nul (al_Error r) \<and> unset_or jsonb_ok (al_Payload r)"

definition audit_logs_check :: "AuditLog \<Rightarrow> string option" where
  "audit_logs_check r =
     (if btrim_empty (al_Action r) then Some ''audit_logs_action_not_blank''
      else if al_Channel r \<notin> {''rest'', ''ws''} then Some ''audit_logs_channel_valid''
      else if btrim_empty (al_EndpointOrEvent r) then Some ''audit_logs_endpoint_not_blank''
      else None)"

definition InsertAuditLog :: "AuditLog \<Rightarrow> AuditLog list \<Rightarrow> db \<Rightarrow> pg_error + AuditLog list \<times> db" where
  "InsertAuditLog r logs d =
     (if \<not> text_ok r then Inl (PgError ''22021'' [])
      else writes (guarded (audit_logs_check r)
        [(list_all (\<lambda>q. al_ID q \<noteq> al_ID r) logs, ''audit_logs_pkey'')]
        [(case al_ActorID r of None \<Rightarrow> True | Some i \<Rightarrow> has_player d i, ''audit_logs_actor_id_fkey'')])
      (logs @ [r]) d)"

definition ListAuditLogs :: "int \<Rightarrow> int \<Rightarrow> AuditLog list \<Rightarrow> pg_error + AuditLog list" where
  "ListAuditLogs limit off logs = paged limit off (sort_key (\<lambda>r. - al_OccurredAt r) logs)"

definition ListAuditLogsByActor :: "id \<Rightarrow> int \<Rightarrow> int \<Rightarrow> AuditLog list \<Rightarrow> pg_error + AuditLog list" where
  "ListAuditLogsByActor actor limit off logs =
     paged limit off (sort_key (\<lambda>r. - al_OccurredAt r) (filter (\<lambda>r. al_ActorID r = Some actor) logs))"

text \<open>The triggers of the table: any change of existing rows is refused.\<close>

definition audit_logs_deny_mutation :: "AuditLog list \<Rightarrow> pg_error + AuditLog list" where
  "audit_logs_deny_mutation logs = Inl (PgError codeRestrictViolation [])"

text \<open>
  \<open>AuditRepository.Append\<close>; the result is the table after it.  It runs on the pool, so outside the transaction
  of its caller, if there is one.
\<close>

definition on_pool :: "('r, 'e, 'a) prog \<Rightarrow> ('r, 'e, 'a) prog" where
  "on_pool m w = (case m (w\<lparr>w_tx := NoTx\<rparr>) of (r, w') \<Rightarrow> (r, w'\<lparr>w_tx := w_tx w\<rparr>))"

definition Append :: "'r ext \<Rightarrow> Entry \<Rightarrow> AuditLog list \<Rightarrow> ('r, error, AuditLog list) prog" where
  "Append X e logs =
     bnd (toUUID X (InfraErr ''audit id'') (en_ID e)) (\<lambda>i.
     bnd (attempt (toNullUUID X (InfraErr ''actor'') (en_ActorID e))) (\<lambda>actor.
     let actorID = (case actor of Inl _ \<Rightarrow> None | Inr a \<Rightarrow> a) in
     on_error (\<lambda>err. if pgErrorCode err = codeRestrictViolation then AuditErr ErrImmutable
                     else InfraErr ''append audit log'')
       (on_pool (exec X (InsertAuditLog \<lparr>al_ID = i, al_OccurredAt = en_OccurredAt e, al_ActorID = actorID,
          al_Channel = en_Channel e, al_EndpointOrEvent = en_EndpointOrEvent e, al_HttpMethod = en_HTTPMethod e,
          al_Action = en_Action e, al_Error = en_Error e, al_Payload = en_Payload e\<rparr> logs)))))"

section \<open>Redaction\<close>

text \<open>\<open>json.Unmarshal\<close> into \<open>any\<close>: the last value of a repeated key wins, numbers pass through \<open>float64\<close>.\<close>

fun numbers_fit :: "(string \<Rightarrow> string option) \<Rightarrow> json \<Rightarrow> bool" where
  "numbers_fit fl (JNum s) = (fl s \<noteq> None)"
| "numbers_fit fl (JArr vs) = list_all (numbers_fit fl) vs"
| "numbers_fit fl (JObj kvs) = list_all (\<lambda>kv. numbers_fit fl (snd kv)) kvs"
| "numbers_fit fl _ = True"

definition put_all :: "(string \<times> 'a) list \<Rightarrow> (string \<times> 'a) list" where
  "put_all kvs = fold (\<lambda>(k, v). AList.update k v) kvs []"

primrec any_value :: "(string \<Rightarrow> string option) \<Rightarrow> json \<Rightarrow> json" where
  "any_value fl JNull = JNull"
| "any_value fl (JBool b) = JBool b"
| "any_value fl (JNum s) = JNum (case fl s of None \<Rightarrow> s | Some t \<Rightarrow> t)"
| "any_value fl (JStr s) = JStr s"
| "any_value fl (JArr vs) = JArr (map (any_value fl) vs)"
| "any_value fl (JObj kvs) = JObj (put_all (map (map_prod id (any_value fl)) kvs))"

definition secret_key :: "string \<Rightarrow> bool" where
  "secret_key k \<longleftrightarrow> Contains (ToLower k) ''password''"

primrec redactValue :: "json \<Rightarrow> json" where
  "redactValue JNull = JNull"
| "redactValue (JBool b) = JBool b"
| "redactValue (JNum s) = JNum s"
| "redactValue (JStr s) = JStr s"
| "redactValue (JArr vs) = JArr (map redactValue vs)"
| "redactValue (JObj kvs) =
     JObj (map (\<lambda>(k, v). (k, if secret_key k then JStr ''[REDACTED]'' else v)) (map (map_prod id redactValue) kvs))"

definition redactPayload :: "(string \<Rightarrow> string option) \<Rightarrow> string \<Rightarrow> json option" where
  "redactPayload fl raw0 =
     (let raw = TrimSpace raw0 in
      if raw = [] then None
      else case json_text raw of
        None \<Rightarrow> None
      | Some v \<Rightarrow> if numbers_fit fl v then Some (redactValue (any_value fl v)) else None)"

section \<open>Appending\<close>

text \<open>The row an entry becomes: an actor that is not an identifier is dropped, the entry is kept.\<close>

definition row_of :: "'r ext \<Rightarrow> Entry \<Rightarrow> id \<Rightarrow> AuditLog" where
  "row_of X e i = \<lparr>al_ID = i, al_OccurredAt = en_OccurredAt e,
     al_ActorID = (case en_ActorID e of None \<Rightarrow> None | Some t \<Rightarrow> if t = [] then None else x_uuid X t),
     al_Channel = en_Channel e, al_EndpointOrEvent = en_EndpointOrEvent e, al_HttpMethod = en_HTTPMethod e,
     al_Action = en_Action e, al_Error = en_Error e, al_Payload = en_Payload e\<rparr>"

lemma Append_eq:
  "Append X e logs = bnd (toUUID X (InfraErr ''audit id'') (en_ID e)) (\<lambda>i.
     on_error (\<lambda>err. if pgErrorCode err = codeRestrictViolation then AuditErr ErrImmutable
                     else InfraErr ''append audit log'') (on_pool (exec X (InsertAuditLog (row_of X e i) logs))))"
proof -
  have a: "attempt (toNullUUID X (InfraErr ''actor'') s) = (\<lambda>w. (Inr (case s of None \<Rightarrow> Inr None
     | Some t \<Rightarrow> if t = [] then Inr None else case x_uuid X t of None \<Rightarrow> Inl (InfraErr ''actor'') | Some u \<Rightarrow> Inr (Some u)), w))" for s
    by (auto simp: fun_eq_iff attempt_def toNullUUID_def toUUID_def bnd_def ret_def fail_def split: option.splits)
  show ?thesis
    unfolding Append_def a by (cases "en_ActorID e") (auto simp: row_of_def bnd_def fun_eq_iff Let_def split: option.split prod.split sum.split)
qed

lemma InsertAuditLog_ok:
  "InsertAuditLog r logs d = Inr (logs', d') \<longleftrightarrow>
     d' = d \<and> logs' = logs @ [r] \<and> text_ok r \<and> audit_logs_check r = None \<and>
     (\<forall>q \<in> set logs. al_ID q \<noteq> al_ID r) \<and> (\<forall>i. al_ActorID r = Some i \<longrightarrow> has_player d i)"
  by (auto simp: InsertAuditLog_def ok_inv list_all_iff split: option.splits)

lemma InsertAuditLog_keeps: "InsertAuditLog r logs d = Inr (logs', d') \<Longrightarrow> d' = d \<and> logs' = logs @ [r]"
  by (simp add: InsertAuditLog_ok)

text \<open>Appending never touches the game, and a success adds exactly the row of the entry.\<close>

lemma Append_run:
  assumes "Append X e logs w = (r, w')"
  shows "w_db w' = w_db w" and "w_tx w' = w_tx w"
    and "r = Inr logs' \<Longrightarrow> \<exists>i. x_uuid X (en_ID e) = Some i \<and> logs' = logs @ [row_of X e i]"
  using assms
  by (auto simp: Append_eq bnd_def toUUID_def ret_def fail_def on_error_def on_pool_def exec_def Let_def
      split: option.splits prod.splits sum.splits if_splits pg_error.splits dest: InsertAuditLog_keeps)

lemma Append_succeeds:
  assumes "x_uuid X (en_ID e) = Some i" and "\<not> x_fault X (w_calls w)" and "InsertAuditLog (row_of X e i) logs (w_db w) = Inr (logs', d)"
  shows "\<exists>w'. Append X e logs w = (Inr (logs @ [row_of X e i]), w')"
  using assms InsertAuditLog_keeps [OF assms(3)]
  by (auto simp: Append_eq bnd_def toUUID_def ret_def on_error_def on_pool_def exec_def Let_def)

section \<open>What redaction hides\<close>

fun clean :: "json \<Rightarrow> bool" where
  "clean (JArr vs) = list_all clean vs"
| "clean (JObj kvs) =
     list_all (\<lambda>kv. if secret_key (fst kv) then snd kv = JStr ''[REDACTED]'' else clean (snd kv)) kvs"
| "clean _ = True"

text \<open>The same value but for what stands below a secret key, at any depth.\<close>

inductive same_public :: "json \<Rightarrow> json \<Rightarrow> bool" where
  sp_refl: "same_public v v"
| sp_arr: "list_all2 same_public vs ws \<Longrightarrow> same_public (JArr vs) (JArr ws)"
| sp_obj: "list_all2 (\<lambda>x y. fst x = fst y \<and> (secret_key (fst x) \<or> same_public (snd x) (snd y))) kvs kws \<Longrightarrow>
    same_public (JObj kvs) (JObj kws)"

lemma redactValue_clean: "clean (redactValue v)"
  by (induction v) (auto simp: list_all_iff)

lemma clean_redactValue: "clean v \<Longrightarrow> redactValue v = v"
proof (induction v)
  case (JObj kvs)
  then show ?case
    by (auto simp: list_all_iff intro!: map_idI split: if_splits)
qed (auto simp: list_all_iff intro!: map_idI)

lemma map_update:
  "map (\<lambda>(k, v). (k, g k v)) (AList.update k v m) = AList.update k (g k v) (map (\<lambda>(k, v). (k, g k v)) m)"
  by (induction m) auto

lemma map_put_all: "map (\<lambda>(k, v). (k, g k v)) (put_all kvs) = put_all (map (\<lambda>(k, v). (k, g k v)) kvs)"
proof -
  have "map (\<lambda>(k, v). (k, g k v)) (fold (\<lambda>(k, v). AList.update k v) kvs m) =
      fold (\<lambda>(k, v). AList.update k v) (map (\<lambda>(k, v). (k, g k v)) kvs) (map (\<lambda>(k, v). (k, g k v)) m)" for m
    by (induction kvs arbitrary: m) (auto simp: map_update)
  from this [of "[]"] show ?thesis by (simp add: put_all_def)
qed

definition shown :: "(string \<Rightarrow> string option) \<Rightarrow> string \<Rightarrow> json \<Rightarrow> json" where
  "shown fl k v = (if secret_key k then JStr ''[REDACTED]'' else redactValue (any_value fl v))"

lemma redact_object:
  "redactValue (any_value fl (JObj kvs)) = JObj (put_all (map (\<lambda>(k, v). (k, shown fl k v)) kvs))"
proof -
  let ?r = "\<lambda>k v. if secret_key k then JStr ''[REDACTED]'' else redactValue v"
  have "redactValue (any_value fl (JObj kvs)) = JObj (map (\<lambda>(k, v). (k, ?r k v)) (put_all (map (map_prod id (any_value fl)) kvs)))"
    by (simp add: comp_def case_prod_unfold map_prod_def)
  also have "\<dots> = JObj (put_all (map (\<lambda>(k, v). (k, ?r k v)) (map (map_prod id (any_value fl)) kvs)))"
    by (simp only: map_put_all)
  also have "\<dots> = JObj (put_all (map (\<lambda>(k, v). (k, shown fl k v)) kvs))"
    by (simp add: comp_def case_prod_unfold shown_def cong: if_cong)
  finally show ?thesis .
qed

lemma redact_same_public: "same_public v w \<Longrightarrow> redactValue (any_value fl v) = redactValue (any_value fl w)"
proof (induction rule: same_public.induct)
  case (sp_obj kvs kws)
  then have "map (\<lambda>(k, v). (k, shown fl k v)) kvs = map (\<lambda>(k, v). (k, shown fl k v)) kws"
    by (induction rule: list_all2_induct) (auto simp: shown_def case_prod_unfold)
  then show ?case by (simp only: redact_object)
next
  case (sp_arr vs ws)
  then show ?case by (induction rule: list_all2_induct) auto
qed simp

text \<open>C33: passwords never reach the audit trail.  Two request bodies that differ only in what they
  put below keys containing ``password'', at any depth and in any case, leave the same audit payload, and in
  the stored payload every such key carries the redaction mark, so redacting it again changes nothing.  (The hypothesis on numbers excludes
  bodies with a number that no float can hold, for which no payload is stored at all.)\<close>

theorem redaction_hides_passwords:
  assumes "json_text (TrimSpace a) = Some v" and "json_text (TrimSpace b) = Some w" and "same_public v w"
    and "numbers_fit fl v" and "numbers_fit fl w"
  shows "redactPayload fl a = redactPayload fl b \<and> (\<exists>p. redactPayload fl a = Some p \<and> clean p \<and> redactValue p = p)"
proof -
  have "TrimSpace a \<noteq> []" "TrimSpace b \<noteq> []"
    using assms by (auto simp: json_text_def)
  then show ?thesis
    using assms redact_same_public [OF assms(3), of fl] redactValue_clean [of "any_value fl v"]
    by (simp add: redactPayload_def clean_redactValue)
qed

theorem redaction_hides_passwords_witness:
  "redactPayload Some ''{\"email\":\"a@b\",\"Password\":\"one\"}'' = redactPayload Some ''{\"email\":\"a@b\",\"Password\":[2]}''"
proof -
  let ?v = "JObj [(''email'', JStr ''a@b''), (''Password'', JStr ''one'')]"
  let ?w = "JObj [(''email'', JStr ''a@b''), (''Password'', JArr [JNum ''2''])]"
  have a: "json_text (TrimSpace ''{\"email\":\"a@b\",\"Password\":\"one\"}'') = Some ?v" by code_simp
  have b: "json_text (TrimSpace ''{\"email\":\"a@b\",\"Password\":[2]}'') = Some ?w" by code_simp
  have "secret_key ''Password''" by code_simp
  then have "same_public ?v ?w" by (intro sp_obj) (simp add: sp_refl)
  from redaction_hides_passwords [OF a b this, of Some] show ?thesis by simp
qed

end
