(* ===== verification/Redis_Stores.thy ===== *)
theory Redis_Stores
  imports Pg_Repos
begin

text \<open>
  The Redis adapters of \<open>internal/infrastructure/redis\<close>: the binding of a player to a room, the
  cache of room summaries and the join lock, as sequences of commands sent to the server.  A
  list of commands is one atomic exchange (\<open>TxPipeline\<close>, or a single command).
\<close>

definition keyOpenRooms :: string where
  "keyOpenRooms = ''cassino:rooms:open''"

definition keyRoomPrefix :: string where
  "keyRoomPrefix = ''cassino:room:''"

definition keyJoinLock :: string where
  "keyJoinLock = ''cassino:room:joinlock:''"

definition keyActivePlay :: string where
  "keyActivePlay = ''cassino:active_player:''"

definition redis_do :: "'r ext \<Rightarrow> redis_cmd list \<Rightarrow> ('r, string, redis_reply list) prog" where
  "redis_do X cmds = (\<lambda>w. case x_redis X cmds (w_redis w) of (r, s) \<Rightarrow> (r, w\<lparr>w_redis := s\<rparr>))"

text \<open>The error of a reply that is not of the kind the client expects.\<close>

definition bad_reply :: string where
  "bad_reply = ''unexpected reply''"

section \<open>PlayerSessionStore\<close>

definition BindPlayerToRoom :: "'r ext \<Rightarrow> string \<Rightarrow> string \<Rightarrow> duration \<Rightarrow> ('r, error, bool) prog" where
  "BindPlayerToRoom X playerID roomID ttl =
     on_error (\<lambda>e. InfraErr ''redis: bind player'')
       (bnd (redis_do X [SETNX (keyActivePlay @ playerID) (Text roomID) ttl]) (\<lambda>rs.
        case rs of [RBool ok] \<Rightarrow> ret ok | _ \<Rightarrow> fail bad_reply))"

definition ActiveRoom :: "'r ext \<Rightarrow> string \<Rightarrow> ('r, error, string) prog" where
  "ActiveRoom X playerID =
     on_error (\<lambda>e. InfraErr ''redis: active room'')
       (bnd (redis_do X [GET (keyActivePlay @ playerID)]) (\<lambda>rs.
        case rs of
          [RNil] \<Rightarrow> ret []
        | [RVal (Text roomID)] \<Rightarrow> ret roomID
        | _ \<Rightarrow> fail bad_reply))"

definition ReleasePlayer :: "'r ext \<Rightarrow> string \<Rightarrow> ('r, error, unit) prog" where
  "ReleasePlayer X playerID =
     on_error (\<lambda>e. InfraErr ''redis: release player'')
       (bnd (redis_do X [DEL (keyActivePlay @ playerID)]) (\<lambda>_. ret ()))"

section \<open>RoomStateStore\<close>

definition toCached :: "RoomSummary \<Rightarrow> cachedRoom" where
  "toCached s =
     \<lparr>cr_ID = su_ID s, cr_OwnerID = su_OwnerID s, cr_Status = su_Status s,
      cr_CurrentRound = su_CurrentRound s, cr_MaxRounds = su_MaxRounds s,
      cr_PlayerCount = su_PlayerCount s, cr_MaxPlayers = su_MaxPlayers s, cr_CreatedAt = su_CreatedAt s\<rparr>"

definition fromCached :: "cachedRoom \<Rightarrow> RoomSummary" where
  "fromCached c =
     \<lparr>su_ID = cr_ID c, su_OwnerID = cr_OwnerID c, su_Status = cr_Status c,
      su_CurrentRound = cr_CurrentRound c, su_MaxRounds = cr_MaxRounds c,
      su_PlayerCount = cr_PlayerCount c, su_MaxPlayers = cr_MaxPlayers c, su_CreatedAt = cr_CreatedAt c\<rparr>"

lemma fromCached_toCached [simp]: "fromCached (toCached s) = s"
  by (simp add: fromCached_def toCached_def)

definition SaveRoom :: "'r ext \<Rightarrow> RoomSummary \<Rightarrow> duration \<Rightarrow> ('r, error, unit) prog" where
  "SaveRoom X summary ttl =
     (let payload = JsonRoom (toCached summary) in
      on_error (\<lambda>e. InfraErr ''redis: save room'')
        (bnd (redis_do X
           [SET (keyRoomPrefix @ su_ID summary) payload ttl,
            if su_Status summary = RoomOpen then HSET keyOpenRooms (su_ID summary) payload
            else HDEL keyOpenRooms (su_ID summary)]) (\<lambda>_. ret ())))"

definition GetRoom :: "'r ext \<Rightarrow> string \<Rightarrow> ('r, error, RoomSummary option) prog" where
  "GetRoom X roomID =
     on_error (\<lambda>e. InfraErr ''redis: get room'')
       (bnd (redis_do X [GET (keyRoomPrefix @ roomID)]) (\<lambda>rs.
        case rs of
          [RNil] \<Rightarrow> ret None
        | [RVal (JsonRoom c)] \<Rightarrow> ret (Some (fromCached c))
        | [RVal _] \<Rightarrow> ret None
        | _ \<Rightarrow> fail bad_reply))"

text \<open>Entries whose JSON does not parse are skipped.\<close>

definition ListOpenRooms_cached :: "'r ext \<Rightarrow> ('r, error, RoomSummary list) prog" where
  "ListOpenRooms_cached X =
     on_error (\<lambda>e. InfraErr ''redis: list open rooms'')
       (bnd (redis_do X [HGETALL keyOpenRooms]) (\<lambda>rs.
        case rs of
          [RHash entries] \<Rightarrow>
            ret (concat (map (\<lambda>(_, raw). case raw of JsonRoom c \<Rightarrow> [fromCached c] | _ \<Rightarrow> []) entries))
        | _ \<Rightarrow> fail bad_reply))"

definition RemoveRoom :: "'r ext \<Rightarrow> string \<Rightarrow> ('r, error, unit) prog" where
  "RemoveRoom X roomID =
     on_error (\<lambda>e. InfraErr ''redis: remove room'')
       (bnd (redis_do X [DEL (keyRoomPrefix @ roomID), HDEL keyOpenRooms roomID]) (\<lambda>_. ret ()))"

text \<open>A join lock is its key and token; \<open>None\<close> when another join holds it.\<close>

definition AcquireJoinLock :: "'r ext \<Rightarrow> string \<Rightarrow> duration \<Rightarrow> ('r, error, (string \<times> string) option) prog" where
  "AcquireJoinLock X roomID ttl =
     (let key = keyJoinLock @ roomID in
      bnd (NewID X) (\<lambda>token.
      on_error (\<lambda>e. InfraErr ''redis: acquire join lock'')
        (bnd (redis_do X [SETNX key (Text token) ttl]) (\<lambda>rs.
         case rs of
           [RBool ok] \<Rightarrow> ret (if ok then Some (key, token) else None)
         | _ \<Rightarrow> fail bad_reply))))"

definition releaseLock :: "'r ext \<Rightarrow> string \<times> string \<Rightarrow> ('r, error, unit) prog" where
  "releaseLock X lock =
     on_error (\<lambda>e. InfraErr ''redis: release join lock'')
       (bnd (redis_do X [EVAL_release (fst lock) (Text (snd lock))]) (\<lambda>_. ret ()))"

section \<open>Redis calls leave the database alone\<close>

text \<open>A program that never touches the database, whatever it returns.\<close>

definition off_db :: "('r, 'e, 'a) prog \<Rightarrow> bool" where
  "off_db m \<longleftrightarrow> (\<forall>w. w_db (snd (m w)) = w_db w \<and> w_tx (snd (m w)) = w_tx w)"

lemma off_dbD: "off_db m \<Longrightarrow> m w = (r, w') \<Longrightarrow> w_db w' = w_db w \<and> w_tx w' = w_tx w"
  by (metis off_db_def snd_conv)

named_theorems off_db_rules

lemma off_db_ret [off_db_rules, intro]: "off_db (ret x)"
  by (simp add: off_db_def ret_def)

lemma off_db_fail [off_db_rules, intro]: "off_db (fail e)"
  by (simp add: off_db_def fail_def)

lemma off_db_lift [off_db_rules, intro]: "off_db (lift r)"
  by (simp add: off_db_def lift_def)

lemma off_db_bnd [off_db_rules, intro]: "off_db m \<Longrightarrow> (\<And>x. off_db (k x)) \<Longrightarrow> off_db (bnd m k)"
  by (simp add: off_db_def bnd_def split: prod.split sum.split) (metis snd_conv)

lemma off_db_on_error [off_db_rules, intro]: "off_db m \<Longrightarrow> off_db (on_error f m)"
  by (simp add: off_db_def on_error_def split: prod.split sum.split) (metis snd_conv)

lemma off_db_attempt [off_db_rules, intro]: "off_db m \<Longrightarrow> off_db (attempt m)"
  by (simp add: off_db_def attempt_def split: prod.split) (metis snd_conv)

lemma off_db_each [off_db_rules, intro]: "(\<And>x. off_db (f x)) \<Longrightarrow> off_db (each f xs)"
  by (induction xs) auto

lemma off_db_prims [off_db_rules, intro]:
  "off_db (NewID X)" "off_db (Now X)" "off_db (rollOne X)" "off_db (redis_do X cmds)"
  by (simp_all add: off_db_def NewID_def Now_def rollOne_def redis_do_def split: prod.split)

lemma off_db_Roll [off_db_rules, intro]: "off_db (Roll X)"
  unfolding Roll_def by auto

lemma off_db_stores [off_db_rules, intro]:
  "off_db (BindPlayerToRoom X p r t)" "off_db (ActiveRoom X p)" "off_db (ReleasePlayer X p)"
  "off_db (SaveRoom X s t)" "off_db (GetRoom X r)" "off_db (ListOpenRooms_cached X)"
  "off_db (RemoveRoom X r)" "off_db (AcquireJoinLock X r t)" "off_db (releaseLock X l)"
  by (auto simp: BindPlayerToRoom_def ActiveRoom_def ReleasePlayer_def SaveRoom_def GetRoom_def
      ListOpenRooms_cached_def RemoveRoom_def AcquireJoinLock_def releaseLock_def Let_def
      intro!: off_db_rules split: list.split redis_reply.split payload.split)

end
