(* ===== verification/Wallet_Ledger.thy ===== *)
theory Wallet_Ledger
  imports Pg_Repos
begin

text \<open>
  The wallet contract between the use cases and the store.  Every balance change of the
  program is the same move: lock the player row, change the balance in memory, write it back,
  append a ledger entry.  The locale \<open>wallet_store\<close> states what the three repository calls
  promise about two abstract observations, the balance of a player and the signed sum of the
  player's ledger entries, and proves that a whole move keeps the two equal.  The PostgreSQL
  repositories are shown to meet the contract.
\<close>

section \<open>The contract\<close>

definition reconciles :: "(id \<Rightarrow> int option) \<Rightarrow> (id \<Rightarrow> int) \<Rightarrow> bool" where
  "reconciles bal ledger \<longleftrightarrow>
     (\<forall>p. case bal p of None \<Rightarrow> ledger p = 0 | Some b \<Rightarrow> ledger p = b \<and> 0 \<le> b)"

lemma reconciles_None: "reconciles bal ledger \<Longrightarrow> bal p = None \<Longrightarrow> ledger p = 0"
  by (auto simp: reconciles_def dest: spec [of _ p])

lemma reconciles_Some: "reconciles bal ledger \<Longrightarrow> bal p = Some b \<Longrightarrow> ledger p = b \<and> 0 \<le> b"
  by (auto simp: reconciles_def dest: spec [of _ p])

lemma reconcilesI:
  "(\<And>p. bal p = None \<Longrightarrow> ledger p = 0) \<Longrightarrow> (\<And>p b. bal p = Some b \<Longrightarrow> ledger p = b \<and> 0 \<le> b) \<Longrightarrow>
   reconciles bal ledger"
  by (auto simp: reconciles_def split: option.split)

lemma reconciles_move:
  assumes "reconciles bal ledger" and "bal p = Some b" and "0 \<le> b + x"
  shows "reconciles (bal(p \<mapsto> b + x)) (ledger(p := ledger p + x))"
  using assms by (intro reconcilesI) (auto split: if_splits dest: reconciles_None reconciles_Some)

locale wallet_store =
  fixes codec_ok :: bool
    and canon :: "id \<Rightarrow> bool"
    and get :: "string \<Rightarrow> 'w \<Rightarrow> (error + Player) \<times> 'w"
    and upd :: "string \<Rightarrow> int64 \<Rightarrow> 'w \<Rightarrow> (error + unit) \<times> 'w"
    and ins :: "Transaction \<Rightarrow> 'w \<Rightarrow> (error + unit) \<times> 'w"
    and bal :: "'w \<Rightarrow> id \<Rightarrow> int option"
    and ledger :: "'w \<Rightarrow> id \<Rightarrow> int"
    and rest :: "'w \<Rightarrow> 'f"
  assumes get_ok: "codec_ok \<Longrightarrow> get i w = (Inr p, w') \<Longrightarrow>
      canon (pl_ID p) \<and> bal w (pl_ID p) = Some (sint (pl_Balance p)) \<and> 0 \<le> sint (pl_Balance p) \<and>
      bal w' = bal w \<and> ledger w' = ledger w \<and> rest w' = rest w"
    and upd_ok: "canon i \<Longrightarrow> upd i b w = (Inr (), w') \<Longrightarrow>
      0 \<le> sint b \<and> bal w' = (bal w)(i \<mapsto> sint b) \<and> ledger w' = ledger w \<and> rest w' = rest w"
    and ins_ok: "canon (tx_PlayerID t) \<Longrightarrow> ins t w = (Inr (), w') \<Longrightarrow>
      bal w' = bal w \<and> rest w' = rest w \<and>
      ledger w' = (ledger w)(tx_PlayerID t :=
        ledger w (tx_PlayerID t) + signed_amount (tx_Type t) (tx_Amount t))"
begin

text \<open>What a completed move did: the balance and the ledger of one player moved by \<open>x\<close>.\<close>

definition moved :: "id \<Rightarrow> int \<Rightarrow> 'w \<Rightarrow> 'w \<Rightarrow> bool" where
  "moved p x w w' \<longleftrightarrow> (\<exists>b. bal w p = Some b \<and> 0 \<le> b \<and> 0 \<le> b + x \<and> bal w' = (bal w)(p \<mapsto> b + x)) \<and>
     ledger w' = (ledger w)(p := ledger w p + x) \<and> rest w' = rest w"

lemma move:
  assumes ok: codec_ok and g: "get i w = (Inr p, w1)" and u: "upd (pl_ID p) b' w1 = (Inr (), w2)"
    and between: "bal w3 = bal w2" "ledger w3 = ledger w2" "rest w3 = rest w2"
    and t: "NewTransaction tid (pl_ID p) ty a rid at = Inr e" and n: "ins e w3 = (Inr (), w4)"
    and x: "sint b' = sint (pl_Balance p) + signed_amount ty a"
  shows "moved (pl_ID p) (signed_amount ty a) w w4"
proof -
  note get = get_ok [OF ok g]
  then have upd: "0 \<le> sint b' \<and> bal w2 = (bal w1)(pl_ID p \<mapsto> sint b') \<and> ledger w2 = ledger w1 \<and> rest w2 = rest w1"
    using upd_ok [OF _ u] by simp
  from t have e: "tx_PlayerID e = pl_ID p" "tx_Type e = ty" "tx_Amount e = a"
    by (auto simp: ok_inv)
  have "bal w4 = bal w3 \<and> rest w4 = rest w3 \<and>
      ledger w4 = (ledger w3)(pl_ID p := ledger w3 (pl_ID p) + signed_amount ty a)"
    using ins_ok [OF _ n] get e by simp
  with get upd between x show ?thesis
    by (auto simp: moved_def)
qed

lemma move_credit:
  assumes codec_ok and "get i w = (Inr p, w1)" and c: "Credit p a = Inr p'"
    and u: "upd (pl_ID p') (pl_Balance p') w1 = (Inr (), w2)"
    and "bal w3 = bal w2" "ledger w3 = ledger w2" "rest w3 = rest w2"
    and "NewTransaction tid (pl_ID p') ty a rid at = Inr e" and "ins e w3 = (Inr (), w4)"
    and ty: "ty = TransactionDeposit \<or> ty = TransactionPayout"
  shows "moved (pl_ID p) (sint a) w w4" and "sint (pl_Balance p') = sint (pl_Balance p) + sint a"
proof -
  have g: "canon (pl_ID p)" "0 \<le> sint (pl_Balance p)" using get_ok [OF assms(1,2)] by auto
  have id: "pl_ID p' = pl_ID p" using c by (auto simp: ok_inv)
  have "0 \<le> sint (pl_Balance p')" using upd_ok [OF _ u] g id by simp
  then show x: "sint (pl_Balance p') = sint (pl_Balance p) + sint a"
    using Credit_exact_or_negative [OF g(2) c] by (auto split: if_splits)
  have s: "signed_amount ty a = sint a" using ty by auto
  show "moved (pl_ID p) (sint a) w w4"
    using move [OF assms(1,2) u [unfolded id] assms(5-7) assms(8) [unfolded id] assms(9)] x
    by (simp add: s)
qed

lemma move_debit:
  assumes codec_ok and "get i w = (Inr p, w1)" and c: "Debit p a = Inr p'"
    and u: "upd (pl_ID p') (pl_Balance p') w1 = (Inr (), w2)"
    and "bal w3 = bal w2" "ledger w3 = ledger w2" "rest w3 = rest w2"
    and "NewTransaction tid (pl_ID p') ty a rid at = Inr e" and "ins e w3 = (Inr (), w4)"
    and ty: "ty = TransactionWithdraw \<or> ty = TransactionBet"
  shows "moved (pl_ID p) (- sint a) w w4" and "sint (pl_Balance p') = sint (pl_Balance p) - sint a"
proof -
  have id: "pl_ID p' = pl_ID p" using c by (auto simp: ok_inv)
  show x: "sint (pl_Balance p') = sint (pl_Balance p) - sint a" by (rule Debit_exact [OF c])
  have s: "signed_amount ty a = - sint a" using ty by auto
  show "moved (pl_ID p) (- sint a) w w4"
    using move [OF assms(1,2) u [unfolded id] assms(5-7) assms(8) [unfolded id] assms(9)] x
    by (simp add: s)
qed

lemma moved_reconciles: "moved p x w w' \<Longrightarrow> reconciles (bal w) (ledger w) \<Longrightarrow> reconciles (bal w') (ledger w')"
  unfolding moved_def by (auto intro: reconciles_move)

end

section \<open>The PostgreSQL store meets the contract\<close>

definition balance_of :: "db \<Rightarrow> id \<Rightarrow> int option" where
  "balance_of d p = map_option (\<lambda>r. sint (pr_Balance r)) (find (\<lambda>r. pr_ID r = p) (db_players d))"

definition ledger_of :: "db \<Rightarrow> id \<Rightarrow> int" where
  "ledger_of d p = net p (db_transactions d)"

text \<open>Everything of the database that a balance move leaves alone.\<close>

definition besides :: "db \<Rightarrow> PlayerRow list \<times> RoomRow list \<times> RoomPlayerRow list \<times> RoundRow list \<times> BetRow list" where
  "besides d = (map (\<lambda>r. r\<lparr>pr_Balance := 0\<rparr>) (db_players d), db_rooms d, db_room_players d, db_rounds d, db_bets d)"

definition wallets_ok :: "db \<Rightarrow> bool" where
  "wallets_ok d \<longleftrightarrow> reconciles (balance_of d) (ledger_of d)"

lemma net_snoc: "net p (ts @ [t]) = net p ts + (if lr_PlayerID t = p then signed_row t else 0)"
  by (simp add: net_def)

lemma signed_row_amount:
  "signed_row \<lparr>lr_ID = i, lr_PlayerID = p, lr_Type = ty, lr_Amount = a, lr_RoundID = r, lr_CreatedAt = t\<rparr>
   = signed_amount ty a"
  by (simp add: signed_row_def signed_amount_def TransactionDeposit_def TransactionPayout_def)

lemma find_map_same:
  assumes "\<And>r. P (f r) = P r"
  shows "find P (map f xs) = map_option f (find P xs)"
  using assms by (induction xs) auto

lemma find_Some_pr_ID: "find (\<lambda>r. pr_ID r = i) xs = Some r \<Longrightarrow> pr_ID r = i \<and> r \<in> set xs"
  by (induction xs) (auto split: if_splits)

lemma balance_of_put:
  assumes "find (\<lambda>r. pr_ID r = i) (db_players d) = Some r"
  shows "balance_of (put_balance i b d) = (balance_of d)(i \<mapsto> sint b)"
proof
  fix p
  have "find (\<lambda>r. pr_ID r = p) (db_players (put_balance i b d)) =
      map_option (\<lambda>r. if pr_ID r = i then r\<lparr>pr_Balance := b\<rparr> else r) (find (\<lambda>r. pr_ID r = p) (db_players d))"
    by (simp add: put_balance_def find_map_same)
  with assms show "balance_of (put_balance i b d) p = ((balance_of d)(i \<mapsto> sint b)) p"
    using find_Some_pr_ID [OF assms]
    by (cases "find (\<lambda>r. pr_ID r = p) (db_players d)")
       (auto simp: balance_of_def dest: find_Some_pr_ID)
qed

lemma put_balance_frame [simp]:
  "ledger_of (put_balance i b d) = ledger_of d" "besides (put_balance i b d) = besides d"
  by (auto simp: ledger_of_def put_balance_def besides_def)

lemma Player_GetForUpdate_ok [ok_inv]:
  "Player_GetForUpdate X i w = (Inr p, w') \<longleftrightarrow>
     (\<exists>pid row. x_uuid X i = Some pid \<and> \<not> x_fault X (w_calls w) \<and> w_tx w \<noteq> TxAborted \<and>
        find (\<lambda>r. pr_ID r = pid) (db_players (w_db w)) = Some row \<and> toDomainPlayer row = Inr p \<and>
        w' = w\<lparr>w_calls := Suc (w_calls w), w_db := w_db w\<rparr>)"
  by (auto simp: Player_GetForUpdate_def GetPlayerForUpdate_def ok_inv)

lemma UpdateBalance_ok [ok_inv]:
  "UpdateBalance X i b w = (Inr u, w') \<longleftrightarrow>
     (\<exists>pid row. x_uuid X i = Some pid \<and> \<not> x_fault X (w_calls w) \<and> w_tx w \<noteq> TxAborted \<and>
        find (\<lambda>r. pr_ID r = pid) (db_players (w_db w)) = Some row \<and>
        players_check (row\<lparr>pr_Balance := b\<rparr>) = None \<and>
        w' = w\<lparr>w_calls := Suc (w_calls w), w_db := put_balance pid b (w_db w)\<rparr>)"
  by (auto simp: UpdateBalance_def UpdatePlayerBalance_def ok_inv split: option.splits)

lemma Transaction_Insert_ok:
  assumes "Transaction_Insert X t w = (Inr u, w')"
  obtains i p rid where "x_uuid X (tx_ID t) = Some i" "x_uuid X (tx_PlayerID t) = Some p"
    "has_player (w_db w) p" "0 < sint (tx_Amount t)" "w_tx w \<noteq> TxAborted"
    "w' = w\<lparr>w_calls := Suc (w_calls w), w_db := (w_db w)\<lparr>db_transactions := db_transactions (w_db w) @
       [\<lparr>lr_ID = i, lr_PlayerID = p, lr_Type = tx_Type t, lr_Amount = tx_Amount t,
         lr_RoundID = rid, lr_CreatedAt = tx_CreatedAt t\<rparr>]\<rparr>\<rparr>"
  using assms
  by (auto simp: Transaction_Insert_def InsertTransaction_def ok_inv transactions_check_def split: if_splits)

lemma toDomainPlayer_ok [ok_inv]:
  "toDomainPlayer row = Inr p \<longleftrightarrow> \<not> blank (pr_ID row) \<and> 0 \<le> sint (pr_Balance row) \<and>
     p = \<lparr>pl_ID = pr_ID row, pl_Email = pr_Email row, pl_PasswordHash = pr_PasswordHash row,
          pl_Balance = pr_Balance row, pl_CreatedAt = pr_CreatedAt row\<rparr>"
  by (auto simp: toDomainPlayer_def ok_inv)

interpretation pg: wallet_store "uuid_canonical X" "\<lambda>i. x_uuid X i = Some i"
    "Player_GetForUpdate X" "UpdateBalance X" "Transaction_Insert X"
    "\<lambda>w. balance_of (w_db w)" "\<lambda>w. ledger_of (w_db w)" "\<lambda>w. besides (w_db w)"
  for X :: "'r ext"
proof unfold_locales
  fix i p and w w' :: "'r world"
  assume "uuid_canonical X" and "Player_GetForUpdate X i w = (Inr p, w')"
  then show "x_uuid X (pl_ID p) = Some (pl_ID p) \<and>
      balance_of (w_db w) (pl_ID p) = Some (sint (pl_Balance p)) \<and> 0 \<le> sint (pl_Balance p) \<and>
      balance_of (w_db w') = balance_of (w_db w) \<and> ledger_of (w_db w') = ledger_of (w_db w) \<and>
      besides (w_db w') = besides (w_db w)"
    by (auto simp: ok_inv uuid_canonical_def balance_of_def) (metis find_Some_pr_ID)+
next
  fix i b and w w' :: "'r world"
  assume "x_uuid X i = Some i" and "UpdateBalance X i b w = (Inr (), w')"
  then show "0 \<le> sint b \<and> balance_of (w_db w') = (balance_of (w_db w))(i \<mapsto> sint b) \<and>
      ledger_of (w_db w') = ledger_of (w_db w) \<and> besides (w_db w') = besides (w_db w)"
    by (auto simp: ok_inv balance_of_put players_check_def split: if_splits)
next
  fix t and w w' :: "'r world"
  assume i: "x_uuid X (tx_PlayerID t) = Some (tx_PlayerID t)" and "Transaction_Insert X t w = (Inr (), w')"
  from this(2) show "balance_of (w_db w') = balance_of (w_db w) \<and>
      besides (w_db w') = besides (w_db w) \<and>
      ledger_of (w_db w') = (ledger_of (w_db w))(tx_PlayerID t :=
        ledger_of (w_db w) (tx_PlayerID t) + signed_amount (tx_Type t) (tx_Amount t))"
    by (rule Transaction_Insert_ok)
       (use i in \<open>auto simp: balance_of_def besides_def ledger_of_def net_snoc signed_row_amount\<close>)
qed

end
