(* ===== verification/Prog_Logic.thy ===== *)
theory Prog_Logic
  imports Redis_Stores Wallet_Ledger
begin

text \<open>
  Reasoning about use cases.  \<open>preserves I m\<close>: called outside a transaction, \<open>m\<close> keeps the database
  invariant \<open>I\<close> whatever it returns and whatever fails.  \<open>establishes P m Q\<close>: when \<open>m\<close> succeeds from a
  world satisfying \<open>P\<close>, its result and the new world satisfy \<open>Q\<close>.  A transaction preserves \<open>I\<close> as soon
  as its body re-establishes it on success: every other end rolls back.
\<close>

definition preserves :: "(db \<Rightarrow> bool) \<Rightarrow> ('r, 'e, 'a) prog \<Rightarrow> bool" where
  "preserves I m \<longleftrightarrow> (\<forall>w r w'. w_tx w = NoTx \<longrightarrow> I (w_db w) \<longrightarrow> m w = (r, w') \<longrightarrow>
     I (w_db w') \<and> w_tx w' = NoTx)"

definition establishes :: "('r world \<Rightarrow> bool) \<Rightarrow> ('r, 'e, 'a) prog \<Rightarrow> ('a \<Rightarrow> 'r world \<Rightarrow> bool) \<Rightarrow> bool" where
  "establishes P m Q \<longleftrightarrow> (\<forall>w x w'. P w \<longrightarrow> m w = (Inr x, w') \<longrightarrow> Q x w')"

named_theorems pres_rules

lemma preservesD:
  "preserves I m \<Longrightarrow> m w = (r, w') \<Longrightarrow> w_tx w = NoTx \<Longrightarrow> I (w_db w) \<Longrightarrow> I (w_db w') \<and> w_tx w' = NoTx"
  unfolding preserves_def by blast

lemma establishesI: "(\<And>w x w'. P w \<Longrightarrow> m w = (Inr x, w') \<Longrightarrow> Q x w') \<Longrightarrow> establishes P m Q"
  unfolding establishes_def by blast

lemma establishesD: "establishes P m Q \<Longrightarrow> P w \<Longrightarrow> m w = (Inr x, w') \<Longrightarrow> Q x w'"
  unfolding establishes_def by blast

lemma establishes_bnd:
  assumes "establishes P m R" and "\<And>x. establishes (R x) (k x) Q"
  shows "establishes P (bnd m k) Q"
  using assms unfolding establishes_def bnd_ok by meson

lemma establishes_each:
  assumes "\<And>x. x \<in> set xs \<Longrightarrow> establishes I (f x) (\<lambda>_. I)"
  shows "establishes I (each f xs) (\<lambda>_. I)"
  using assms
proof (induction xs)
  case Nil
  show ?case by (rule establishesI) (simp add: ok_inv)
next
  case (Cons x xs)
  have "establishes I (f x) (\<lambda>_. I)" "establishes I (each f xs) (\<lambda>_. I)" using Cons by simp_all
  then show ?case unfolding establishes_def each.simps ok_inv by meson
qed

lemma establishes_collect:
  assumes "\<And>x. x \<in> set xs \<Longrightarrow> establishes I (f x) (\<lambda>_. I)"
  shows "establishes I (collect f xs) (\<lambda>_. I)"
  using assms
proof (induction xs)
  case Nil
  show ?case by (rule establishesI) (simp add: ok_inv)
next
  case (Cons x xs)
  have "establishes I (f x) (\<lambda>_. I)" "establishes I (collect f xs) (\<lambda>_. I)" using Cons by simp_all
  then show ?case unfolding establishes_def collect.simps ok_inv by meson
qed

text \<open>How a composed program ends, success or not.\<close>

lemma bnd_run:
  "bnd m k w = (r, w') \<longleftrightarrow> (\<exists>e. m w = (Inl e, w') \<and> r = Inl e) \<or> (\<exists>x w1. m w = (Inr x, w1) \<and> k x w1 = (r, w'))"
  by (cases "m w"; cases "fst (m w)") (auto simp: bnd_def)

lemma attempt_run: "attempt m w = (r, w') \<longleftrightarrow> (\<exists>q. m w = (q, w') \<and> r = Inr q)"
  by (cases "m w") (auto simp: attempt_def)

lemma on_error_run:
  "on_error f m w = (r, w') \<longleftrightarrow> (\<exists>e. m w = (Inl e, w') \<and> r = Inl (f e)) \<or> (\<exists>x. m w = (Inr x, w') \<and> r = Inr x)"
  by (cases "m w"; cases "fst (m w)") (auto simp: on_error_def)

lemma preserves_bnd [pres_rules]: "preserves I m \<Longrightarrow> (\<And>x. preserves I (k x)) \<Longrightarrow> preserves I (bnd m k)"
  unfolding preserves_def bnd_run by meson

lemma preserves_attempt [pres_rules]: "preserves I m \<Longrightarrow> preserves I (attempt m)"
  unfolding preserves_def attempt_run by meson

lemma preserves_on_error [pres_rules]: "preserves I m \<Longrightarrow> preserves I (on_error f m)"
  unfolding preserves_def on_error_run by meson

lemma preserves_off_db: "off_db m \<Longrightarrow> preserves I m"
  unfolding preserves_def using off_dbD by metis

lemmas preserves_calls [pres_rules] =
  off_db_ret [THEN preserves_off_db] off_db_fail [THEN preserves_off_db] off_db_lift [THEN preserves_off_db]
  off_db_prims [THEN preserves_off_db] off_db_Roll [THEN preserves_off_db] off_db_stores [THEN preserves_off_db]

lemma preserves_if [pres_rules]:
  "(c \<Longrightarrow> preserves I m) \<Longrightarrow> (\<not> c \<Longrightarrow> preserves I n) \<Longrightarrow> preserves I (if c then m else n)"
  by simp

lemma preserves_each [pres_rules]: "(\<And>x. preserves I (f x)) \<Longrightarrow> preserves I (each f xs)"
  by (induction xs) (auto intro: pres_rules)

lemma preserves_exec:
  assumes "\<And>d x d'. I d \<Longrightarrow> q d = Inr (x, d') \<Longrightarrow> I d'"
  shows "preserves I (exec X q)"
  unfolding preserves_def
proof (intro allI impI)
  fix w r w' assume w: "w_tx w = NoTx" "I (w_db w)" and run: "exec X q w = (r, w')"
  show "I (w_db w') \<and> w_tx w' = NoTx"
  proof (cases r)
    case (Inl e)
    with run have "w_db w' = w_db w" "w_tx w' = w_tx w"
      using w(1) by (auto simp: exec_def Let_def split: if_splits sum.splits pg_error.splits)
    with w show ?thesis by simp
  next
    case (Inr x)
    with run obtain d where "q (w_db w) = Inr (x, d)" "w_db w' = d" "w_tx w' = w_tx w"
      by (auto simp: ok_inv)
    with w show ?thesis using assms [of "w_db w" x d] by simp
  qed
qed

lemma preserves_toUUID [pres_rules]: "preserves I (toUUID X e s)"
  unfolding toUUID_def by (cases "x_uuid X s") (auto intro: pres_rules)

lemma preserves_WithinTx:
  assumes "establishes (\<lambda>w. w_tx w = InTx \<and> I (w_db w)) fn (\<lambda>_ w. I (w_db w))"
  shows "preserves I (WithinTx X fn)"
  unfolding preserves_def
proof (intro allI impI)
  fix w r w' assume w: "w_tx w = NoTx" "I (w_db w)" and run: "WithinTx X fn w = (r, w')"
  from run w(1) show "I (w_db w') \<and> w_tx w' = NoTx"
  proof (cases rule: WithinTx_cases)
    case (committed x w2)
    then have "I (w_db w2)" using establishesD [OF assms _ committed(1)] w by simp
    with committed show ?thesis by simp
  qed (use w in auto)
qed

section \<open>Atomicity\<close>

text \<open>
  Called outside a transaction, a program that reports an error left the database as it was,
  unless a commit took place whose acknowledgement was lost.
\<close>

definition atomic :: "'r ext \<Rightarrow> ('r, 'e, 'a) prog \<Rightarrow> bool" where
  "atomic X m \<longleftrightarrow> (\<forall>w e w'. w_tx w = NoTx \<longrightarrow> (\<forall>n. x_commit X n \<noteq> AckLost) \<longrightarrow> m w = (Inl e, w') \<longrightarrow>
     w_db w' = w_db w)"

text \<open>A program that never reports an error.\<close>

definition nofail :: "('r, 'e, 'a) prog \<Rightarrow> bool" where
  "nofail m \<longleftrightarrow> (\<forall>w e w'. m w \<noteq> (Inl e, w'))"

named_theorems atomic_rules

lemma atomic_off_db: "off_db m \<Longrightarrow> atomic X m"
  unfolding atomic_def using off_dbD by metis

lemma atomic_WithinTx [atomic_rules]: "atomic X (WithinTx X fn)"
  unfolding atomic_def
proof (intro allI impI)
  fix w e w' assume w: "w_tx w = NoTx" "\<forall>n. x_commit X n \<noteq> AckLost" and run: "WithinTx X fn w = (Inl e, w')"
  show "w_db w' = w_db w"
    using run w by (cases rule: WithinTx_cases [OF run w(1)]) auto
qed

lemma atomic_bnd_off_db [atomic_rules]:
  "off_db m \<Longrightarrow> (\<And>x. atomic X (k x)) \<Longrightarrow> atomic X (bnd m k)"
  unfolding atomic_def bnd_run using off_dbD by (metis sum.inject(1))

lemma atomic_bnd_nofail: "atomic X m \<Longrightarrow> (\<And>x. nofail (k x)) \<Longrightarrow> atomic X (bnd m k)"
  unfolding atomic_def nofail_def bnd_run by (metis sum.inject(1))

lemma atomic_if [atomic_rules]:
  "(c \<Longrightarrow> atomic X m) \<Longrightarrow> (\<not> c \<Longrightarrow> atomic X n) \<Longrightarrow> atomic X (if c then m else n)"
  by simp

lemmas atomic_calls [atomic_rules] =
  off_db_ret [THEN atomic_off_db] off_db_fail [THEN atomic_off_db] off_db_lift [THEN atomic_off_db]

lemma nofail_rules [atomic_rules]:
  "nofail (ret x)" "nofail (attempt m)"
  by (simp_all add: nofail_def ret_def attempt_def split: prod.split)

lemma nofail_bnd [atomic_rules]: "nofail m \<Longrightarrow> (\<And>x. nofail (k x)) \<Longrightarrow> nofail (bnd m k)"
  unfolding nofail_def bnd_run by metis

section \<open>Reads\<close>

text \<open>A program that leaves the database as it is, whatever it returns.\<close>

definition reading :: "('r, 'e, 'a) prog \<Rightarrow> bool" where
  "reading m \<longleftrightarrow> (\<forall>w r w'. m w = (r, w') \<longrightarrow> w_db w' = w_db w)"

named_theorems reading_rules

lemma readingD: "reading m \<Longrightarrow> m w = (r, w') \<Longrightarrow> w_db w' = w_db w"
  unfolding reading_def by blast

lemma reading_off_db: "off_db m \<Longrightarrow> reading m"
  unfolding reading_def using off_dbD by metis

lemmas reading_calls [reading_rules] =
  off_db_ret [THEN reading_off_db] off_db_fail [THEN reading_off_db] off_db_lift [THEN reading_off_db]
  off_db_prims [THEN reading_off_db] off_db_Roll [THEN reading_off_db] off_db_stores [THEN reading_off_db]

lemma reading_bnd [reading_rules]: "reading m \<Longrightarrow> (\<And>x. reading (k x)) \<Longrightarrow> reading (bnd m k)"
  unfolding reading_def bnd_run by metis

lemma reading_on_error [reading_rules]: "reading m \<Longrightarrow> reading (on_error f m)"
  unfolding reading_def on_error_run by metis

lemma reading_attempt [reading_rules]: "reading m \<Longrightarrow> reading (attempt m)"
  unfolding reading_def attempt_run by metis

lemma reading_collect [reading_rules]: "(\<And>x. reading (f x)) \<Longrightarrow> reading (collect f xs)"
  by (induction xs) (auto intro!: reading_rules)

lemma reading_each [reading_rules]: "(\<And>x. reading (f x)) \<Longrightarrow> reading (each f xs)"
  by (induction xs) (auto intro!: reading_rules)

lemma reading_if [reading_rules]:
  "(c \<Longrightarrow> reading m) \<Longrightarrow> (\<not> c \<Longrightarrow> reading n) \<Longrightarrow> reading (if c then m else n)"
  by simp

lemma reading_case_option [reading_rules]:
  "reading f \<Longrightarrow> (\<And>x. reading (g x)) \<Longrightarrow> reading (case r of None \<Rightarrow> f | Some x \<Rightarrow> g x)"
  by (cases r) auto

lemma reading_case_prod [reading_rules]: "(\<And>x y. reading (f x y)) \<Longrightarrow> reading (case r of (x, y) \<Rightarrow> f x y)"
  by (cases r) auto

lemma reading_case_sum [reading_rules]:
  "(\<And>e. reading (f e)) \<Longrightarrow> (\<And>x. reading (g x)) \<Longrightarrow> reading (case r of Inl e \<Rightarrow> f e | Inr x \<Rightarrow> g x)"
  by (cases r) auto

lemma reading_toUUID [reading_rules]: "reading (toUUID X e s)"
  unfolding toUUID_def by (cases "x_uuid X s") (auto intro: reading_rules)

lemma exec_fail_db: "exec X q w = (Inl e, w') \<Longrightarrow> w_db w' = w_db w"
  by (auto simp: exec_def Let_def split: if_splits sum.splits pg_error.splits)

lemma reading_exec:
  assumes "\<And>d x d'. q d = Inr (x, d') \<Longrightarrow> d' = d"
  shows "reading (exec X q)"
  unfolding reading_def
proof (intro allI impI)
  fix w r w' assume run: "exec X q w = (r, w')"
  show "w_db w' = w_db w"
  proof (cases r)
    case (Inr x)
    with run obtain d where "q (w_db w) = Inr (x, d)" "w_db w' = d" by (auto simp: exec_ok)
    with assms [of "w_db w" x d] show ?thesis by simp
  qed (use run exec_fail_db in blast)
qed

lemma reading_statements [reading_rules]:
  "reading (exec X (GetPlayerByID i))" "reading (exec X (GetPlayerByEmail em))"
  "reading (exec X (GetPlayerForUpdate i))" "reading (exec X (ListTransactionsByPlayer i l off))"
  "reading (exec X (SumTransactionsByPlayer i))"
  "reading (exec X (GetRoomByID i))" "reading (exec X (GetRoomForUpdate i))"
  "reading (exec X (ListRoomPlayers i))" "reading (exec X (CountRoomPlayers i))"
  "reading (exec X (FindActiveRoomForPlayer_sql i))" "reading (exec X ListActiveRoomIDs_sql)"
  "reading (exec X (ListOpenRooms_sql l off))"
  "reading (exec X (GetCurrentRound i))" "reading (exec X (GetRoundByID i))"
  "reading (exec X (GetRoundByRoomAndNumber i n))" "reading (exec X (ListRoundsByRoom i))"
  "reading (exec X (GetBetByRoundAndPlayer i p))" "reading (exec X (ListBetsByPlayer i l off))"
  "reading (exec X (ListBetsByRound i))"
  by (rule reading_exec;
      auto simp: GetPlayerByID_def GetPlayerByEmail_def GetPlayerForUpdate_def ListTransactionsByPlayer_def
        SumTransactionsByPlayer_def GetRoomByID_def GetRoomForUpdate_def ListRoomPlayers_def CountRoomPlayers_def
        FindActiveRoomForPlayer_sql_def ListActiveRoomIDs_sql_def ListOpenRooms_sql_def GetCurrentRound_def
        GetRoundByID_def GetRoundByRoomAndNumber_def ListRoundsByRoom_def GetBetByRoundAndPlayer_def
        ListBetsByPlayer_def ListBetsByRound_def ok_inv split: if_splits)+

lemma reading_repos [reading_rules]:
  "reading (Player_GetByID X i)" "reading (Player_GetByEmail X em)" "reading (Player_GetForUpdate X i)"
  "reading (Transaction_ListByPlayer X i l off)"
  "reading (Room_load X i u)" "reading (Room_GetByID X i)" "reading (Room_GetForUpdate X i)"
  "reading (ListOpen X l off)" "reading (ListActiveRoomIDs X)" "reading (CountPlayers X i)"
  "reading (Bet_GetByRoundAndPlayer X i p)" "reading (Bet_ListByRound X i)" "reading (hydrate X row)"
  "reading (Round_GetByID X i)" "reading (Round_GetByRoomAndNumber X i n)" "reading (Round_GetCurrent X i)"
  "reading (Round_ListByRoom X i)" "reading (FindActiveRoomForPlayer X i)"
  by (auto simp: Player_GetByID_def Player_GetByEmail_def Player_GetForUpdate_def Transaction_ListByPlayer_def
      Room_load_def Room_GetByID_def Room_GetForUpdate_def ListOpen_def ListActiveRoomIDs_def CountPlayers_def
      Bet_GetByRoundAndPlayer_def Bet_ListByRound_def hydrate_def Round_GetByID_def Round_GetByRoomAndNumber_def
      Round_GetCurrent_def Round_ListByRoom_def FindActiveRoomForPlayer_def intro!: reading_rules)

lemma FindActiveRoomForPlayer_ok:
  assumes "FindActiveRoomForPlayer X i w = (Inr x, w')"
  obtains (free) p where "x_uuid X i = Some p" "exec X (FindActiveRoomForPlayer_sql p) w = (Inl ErrNoRows, w')" "x = []"
  | (seated) p where "x_uuid X i = Some p" "exec X (FindActiveRoomForPlayer_sql p) w = (Inr x, w')"
proof -
  from assms obtain p r where p: "x_uuid X i = Some p"
    and run: "exec X (FindActiveRoomForPlayer_sql p) w = (r, w')"
    and x: "(case r of Inl e \<Rightarrow> if isNoRows e then ret [] else fail (InfraErr ''find active room'')
             | Inr i \<Rightarrow> ret i) w' = (Inr x, w')"
    unfolding FindActiveRoomForPlayer_def bnd_ok toUUID_ok attempt_ok
    by (force simp: ret_def fail_def split: sum.split_asm if_splits)
  show ?thesis
    using x p run free seated by (cases r) (auto simp: ret_def fail_def isNoRows_def split: if_splits)
qed

section \<open>Invariants inside a transaction\<close>

text \<open>
  \<open>steady I m\<close>: \<open>m\<close> keeps the database invariant whatever it returns.  \<open>keeps I m\<close>: it keeps it when it
  succeeds, which is enough inside a transaction.
\<close>

definition steady :: "(db \<Rightarrow> bool) \<Rightarrow> ('r, 'e, 'a) prog \<Rightarrow> bool" where
  "steady I m \<longleftrightarrow> (\<forall>w r w'. I (w_db w) \<longrightarrow> m w = (r, w') \<longrightarrow> I (w_db w'))"

definition keeps :: "(db \<Rightarrow> bool) \<Rightarrow> ('r, 'e, 'a) prog \<Rightarrow> bool" where
  "keeps I m \<longleftrightarrow> (\<forall>w x w'. I (w_db w) \<longrightarrow> m w = (Inr x, w') \<longrightarrow> I (w_db w'))"

named_theorems keeps_rules

lemma keepsD: "keeps I m \<Longrightarrow> m w = (Inr x, w') \<Longrightarrow> I (w_db w) \<Longrightarrow> I (w_db w')"
  unfolding keeps_def by blast

lemma keepsI: "(\<And>w x w'. m w = (Inr x, w') \<Longrightarrow> I (w_db w) \<Longrightarrow> I (w_db w')) \<Longrightarrow> keeps I m"
  unfolding keeps_def by blast

lemma steady_reading: "reading m \<Longrightarrow> steady I m"
  unfolding steady_def reading_def by metis

lemma keeps_steady: "steady I m \<Longrightarrow> keeps I m"
  unfolding steady_def keeps_def by blast

lemma keeps_reading: "reading m \<Longrightarrow> keeps I m"
  by (rule keeps_steady [OF steady_reading])

lemma steady_exec:
  assumes "\<And>d x d'. I d \<Longrightarrow> q d = Inr (x, d') \<Longrightarrow> I d'"
  shows "steady I (exec X q)"
  unfolding steady_def
proof (intro allI impI)
  fix w r w' assume I: "I (w_db w)" and run: "exec X q w = (r, w')"
  show "I (w_db w')"
  proof (cases r)
    case (Inr x)
    with run obtain d where "q (w_db w) = Inr (x, d)" "w_db w' = d" by (auto simp: exec_ok)
    with assms [of "w_db w" x d] I show ?thesis by simp
  qed (use run I exec_fail_db in metis)
qed

lemma steady_bnd [keeps_rules]: "steady I m \<Longrightarrow> (\<And>x. steady I (k x)) \<Longrightarrow> steady I (bnd m k)"
  unfolding steady_def bnd_run by meson

lemma steady_on_error [keeps_rules]: "steady I m \<Longrightarrow> steady I (on_error f m)"
  unfolding steady_def on_error_run by meson

lemma keeps_bnd [keeps_rules]: "keeps I m \<Longrightarrow> (\<And>x. keeps I (k x)) \<Longrightarrow> keeps I (bnd m k)"
  unfolding keeps_def bnd_ok by meson

lemma keeps_attempt: "steady I m \<Longrightarrow> keeps I (attempt m)"
  unfolding keeps_def steady_def attempt_ok by meson

lemma keeps_each [keeps_rules]: "(\<And>x. keeps I (f x)) \<Longrightarrow> keeps I (each f xs)"
  by (induction xs) (simp_all add: keeps_bnd keeps_reading reading_calls)

lemma keeps_if [keeps_rules]:
  "(c \<Longrightarrow> keeps I m) \<Longrightarrow> (\<not> c \<Longrightarrow> keeps I n) \<Longrightarrow> keeps I (if c then m else n)"
  by simp

lemma keeps_case_sum [keeps_rules]:
  "(\<And>e. keeps I (f e)) \<Longrightarrow> (\<And>x. keeps I (g x)) \<Longrightarrow> keeps I (case r of Inl e \<Rightarrow> f e | Inr x \<Rightarrow> g x)"
  by (cases r) auto

lemma keeps_case_option [keeps_rules]:
  "keeps I f \<Longrightarrow> (\<And>x. keeps I (g x)) \<Longrightarrow> keeps I (case r of None \<Rightarrow> f | Some x \<Rightarrow> g x)"
  by (cases r) auto

lemma keeps_case_prod [keeps_rules]:
  "(\<And>x y. keeps I (f x y)) \<Longrightarrow> keeps I (case r of (x, y) \<Rightarrow> f x y)"
  by (cases r) auto

lemma keeps_Let [keeps_rules]: "(\<And>x. keeps I (f x)) \<Longrightarrow> keeps I (Let r f)"
  by simp

lemma preserves_keeps: "keeps I fn \<Longrightarrow> preserves I (WithinTx X fn)"
  by (rule preserves_WithinTx) (auto simp: keeps_def establishes_def)

section \<open>Reads outside a transaction\<close>

text \<open>A single statement sent outside a transaction never opens one.\<close>

definition txfree :: "('r, 'e, 'a) prog \<Rightarrow> bool" where
  "txfree m \<longleftrightarrow> (\<forall>w r w'. w_tx w = NoTx \<longrightarrow> m w = (r, w') \<longrightarrow> w_tx w' = NoTx)"

named_theorems txfree_rules

lemma txfree_off_db: "off_db m \<Longrightarrow> txfree m"
  unfolding txfree_def using off_dbD by metis

lemma txfree_exec [txfree_rules]: "txfree (exec X q)"
  unfolding txfree_def
  by (auto simp: exec_def Let_def split: if_splits sum.splits pg_error.splits)

lemma txfree_bnd [txfree_rules]: "txfree m \<Longrightarrow> (\<And>x. txfree (k x)) \<Longrightarrow> txfree (bnd m k)"
  unfolding txfree_def bnd_run by metis

lemma txfree_on_error [txfree_rules]: "txfree m \<Longrightarrow> txfree (on_error f m)"
  unfolding txfree_def on_error_run by metis

lemma txfree_if [txfree_rules]:
  "(c \<Longrightarrow> txfree m) \<Longrightarrow> (\<not> c \<Longrightarrow> txfree n) \<Longrightarrow> txfree (if c then m else n)"
  by simp

lemma txfree_toUUID [txfree_rules]: "txfree (toUUID X e s)"
  unfolding toUUID_def by (cases "x_uuid X s") (auto intro: txfree_off_db)

lemmas txfree_calls [txfree_rules] =
  off_db_ret [THEN txfree_off_db] off_db_fail [THEN txfree_off_db] off_db_lift [THEN txfree_off_db]

lemma txfree_repos:
  "txfree (Player_GetByID X i)" "txfree (Player_GetByEmail X em)" "txfree (Room_GetByID X i)"
  "txfree (ListOpen X l off)" "txfree (ListActiveRoomIDs X)" "txfree (Round_GetCurrent X i)"
  unfolding Player_GetByID_def Player_GetByEmail_def Room_GetByID_def Room_load_def ListOpen_def
    ListActiveRoomIDs_def Round_GetCurrent_def hydrate_def Bet_ListByRound_def
  by (intro txfree_rules)+

lemma preserves_read: "reading m \<Longrightarrow> txfree m \<Longrightarrow> preserves I m"
  unfolding preserves_def reading_def txfree_def by metis

lemmas preserves_repos [pres_rules] =
  preserves_read [OF reading_repos(1) txfree_repos(1)] preserves_read [OF reading_repos(2) txfree_repos(2)]
  preserves_read [OF reading_repos(6) txfree_repos(3)] preserves_read [OF reading_repos(8) txfree_repos(4)]
  preserves_read [OF reading_repos(9) txfree_repos(5)] preserves_read [OF reading_repos(16) txfree_repos(6)]

lemma preserves_case_sum [pres_rules]:
  "(\<And>e. r = Inl e \<Longrightarrow> preserves I (f e)) \<Longrightarrow> (\<And>x. r = Inr x \<Longrightarrow> preserves I (g x)) \<Longrightarrow>
   preserves I (case r of Inl e \<Rightarrow> f e | Inr x \<Rightarrow> g x)"
  by (cases r) auto

lemma preserves_case_option [pres_rules]:
  "preserves I f \<Longrightarrow> (\<And>x. preserves I (g x)) \<Longrightarrow> preserves I (case r of None \<Rightarrow> f | Some x \<Rightarrow> g x)"
  by (cases r) auto

lemma preserves_case_prod [pres_rules]:
  "(\<And>x y. preserves I (f x y)) \<Longrightarrow> preserves I (case r of (x, y) \<Rightarrow> f x y)"
  by (cases r) auto

lemma preserves_Let [pres_rules]: "(\<And>x. preserves I (f x)) \<Longrightarrow> preserves I (Let r f)"
  by simp

end
