(* ===== verification/Sample_World.thy ===== *)
theory Sample_World
  imports Redis_Stores
begin

text \<open>
  One concrete environment for the witnesses: identifiers that are their own canonical text, a
  clock that advances by a second per reading, a database server that never fails, dice that
  show a fixed sequence, and a Redis server that keeps strings and hashes and never expires a
  key within a run.
\<close>

record redis_state =
  rs_strings :: "(string \<times> payload) list"
  rs_hashes :: "(string \<times> (string \<times> payload) list) list"

definition hash_at :: "redis_state \<Rightarrow> string \<Rightarrow> (string \<times> payload) list" where
  "hash_at s h = (case map_of (rs_hashes s) h of None \<Rightarrow> [] | Some m \<Rightarrow> m)"

fun redis_one :: "redis_cmd \<Rightarrow> redis_state \<Rightarrow> redis_reply \<times> redis_state" where
  "redis_one (SETNX k v ttl) s =
     (case map_of (rs_strings s) k of
        Some _ \<Rightarrow> (RBool False, s)
      | None \<Rightarrow> (RBool True, s\<lparr>rs_strings := AList.update k v (rs_strings s)\<rparr>))"
| "redis_one (SET k v ttl) s = (ROk, s\<lparr>rs_strings := AList.update k v (rs_strings s)\<rparr>)"
| "redis_one (GET k) s = (case map_of (rs_strings s) k of None \<Rightarrow> RNil | Some v \<Rightarrow> RVal v, s)"
| "redis_one (DEL k) s = (ROk, s\<lparr>rs_strings := AList.delete k (rs_strings s)\<rparr>)"
| "redis_one (HSET h f v) s =
     (ROk, s\<lparr>rs_hashes := AList.update h (AList.update f v (hash_at s h)) (rs_hashes s)\<rparr>)"
| "redis_one (HDEL h f) s =
     (ROk, s\<lparr>rs_hashes := AList.update h (AList.delete f (hash_at s h)) (rs_hashes s)\<rparr>)"
| "redis_one (HGETALL h) s = (RHash (hash_at s h), s)"
| "redis_one (EVAL_release k tok) s =
     (ROk, if map_of (rs_strings s) k = Some tok then s\<lparr>rs_strings := AList.delete k (rs_strings s)\<rparr> else s)"

fun redis_run :: "redis_cmd list \<Rightarrow> redis_state \<Rightarrow> redis_reply list \<times> redis_state" where
  "redis_run [] s = ([], s)"
| "redis_run (c # cs) s =
     (let (r, s1) = redis_one c s; (rs, s2) = redis_run cs s1 in (r # rs, s2))"

definition sample_ext :: "redis_state ext" where
  "sample_ext =
     \<lparr>x_uuid = (\<lambda>s. if blank s then None else Some s),
      x_newid = (\<lambda>n. replicate (Suc n) CHR ''i''),
      x_clock = (\<lambda>n. int n * Second),
      x_server_now = (\<lambda>n. int n),
      x_fault = (\<lambda>n. False),
      x_commit = (\<lambda>n. Committed),
      x_rand = (\<lambda>n. Some (int n mod 6)),
      x_redis = (\<lambda>cs s. case redis_run cs s of (rs, s') \<Rightarrow> (Inr rs, s')),
      x_bcrypt = (\<lambda>n plain. Some (CHR ''#'' # plain)),
      x_bcrypt_match = (\<lambda>h plain. Some (h = CHR ''#'' # plain)),
      x_jwt_sign = (\<lambda>c. Some (tc_Subject c)),
      x_jwt_parse = (\<lambda>now iss tok. Inl TokenUnusable)\<rparr>"

lemma sample_uuid: "uuid_canonical sample_ext"
  by (simp add: uuid_canonical_def sample_ext_def)

lemma sample_rand: "rand_bounded sample_ext"
  by (auto simp: rand_bounded_def sample_ext_def)

definition sample_world :: "db \<Rightarrow> redis_state world" where
  "sample_world d =
     \<lparr>w_db = d, w_tx = NoTx, w_calls = 0, w_ids = 0, w_ticks = 0, w_rolls = 0, w_salts = 0,
      w_redis = \<lparr>rs_strings = [], rs_hashes = []\<rparr>\<rparr>"

lemma sample_world_sel [simp]: "w_db (sample_world d) = d" "w_tx (sample_world d) = NoTx"
  by (simp_all add: sample_world_def)

definition player_row :: "id \<Rightarrow> int64 \<Rightarrow> PlayerRow" where
  "player_row i b = \<lparr>pr_ID = i, pr_Email = i @ ''@x.io'', pr_PasswordHash = ''#secret'', pr_Balance = b, pr_CreatedAt = 0\<rparr>"

text \<open>Two players, one with ten units deposited.\<close>

definition db_two :: db where
  "db_two = \<lparr>db_players = [player_row ''p'' 1000, player_row ''q'' 0], db_rooms = [], db_room_players = [],
     db_rounds = [], db_bets = [],
     db_transactions = [\<lparr>lr_ID = ''t'', lr_PlayerID = ''p'', lr_Type = ''deposit'', lr_Amount = 1000,
        lr_RoundID = None, lr_CreatedAt = 0\<rparr>]\<rparr>"

end
