(* ===== verification/App_Wallet.thy ===== *)
theory App_Wallet
  imports Prog_Logic Sample_World
begin

text \<open>
  The wallet use cases of \<open>internal/application/wallet\<close>: deposit, withdraw and the balance query.
  Each result is the balance of the output struct.
\<close>

section \<open>Use cases\<close>

definition Deposit_tx :: "'r ext \<Rightarrow> string \<Rightarrow> int64 \<Rightarrow> ('r, error, int64) prog" where
  "Deposit_tx X playerID amount =
     bnd (Player_GetForUpdate X playerID) (\<lambda>p.
     bnd (lift (Credit p amount)) (\<lambda>p.
     bnd (UpdateBalance X (pl_ID p) (pl_Balance p)) (\<lambda>_.
     bnd (NewID X) (\<lambda>i.
     bnd (Now X) (\<lambda>now.
     bnd (lift (NewTransaction i (pl_ID p) TransactionDeposit amount None now)) (\<lambda>entry.
     bnd (Transaction_Insert X entry) (\<lambda>_.
     ret (pl_Balance p))))))))"

definition Deposit :: "'r ext \<Rightarrow> string \<Rightarrow> int64 \<Rightarrow> ('r, error, int64) prog" where
  "Deposit X playerID amount =
     (if sint amount \<le> 0 then fail (PlayerErr player_error.ErrInvalidAmount)
      else WithinTx X (Deposit_tx X playerID amount))"

definition Withdraw_tx :: "'r ext \<Rightarrow> string \<Rightarrow> int64 \<Rightarrow> ('r, error, int64) prog" where
  "Withdraw_tx X playerID amount =
     bnd (FindActiveRoomForPlayer X playerID) (\<lambda>roomID.
     if roomID \<noteq> [] then fail (PlayerErr ErrWithdrawalBlocked)
     else
       bnd (Player_GetForUpdate X playerID) (\<lambda>p.
       bnd (lift (Debit p amount)) (\<lambda>p.
       bnd (UpdateBalance X (pl_ID p) (pl_Balance p)) (\<lambda>_.
       bnd (NewID X) (\<lambda>i.
       bnd (Now X) (\<lambda>now.
       bnd (lift (NewTransaction i (pl_ID p) TransactionWithdraw amount None now)) (\<lambda>entry.
       bnd (Transaction_Insert X entry) (\<lambda>_.
       ret (pl_Balance p)))))))))"

definition Withdraw :: "'r ext \<Rightarrow> string \<Rightarrow> int64 \<Rightarrow> ('r, error, int64) prog" where
  "Withdraw X playerID amount =
     (if sint amount \<le> 0 then fail (PlayerErr player_error.ErrInvalidAmount)
      else
        bnd (ActiveRoom X playerID) (\<lambda>roomID.
        if roomID \<noteq> [] then fail (PlayerErr ErrWithdrawalBlocked)
        else WithinTx X (Withdraw_tx X playerID amount)))"

definition GetBalance :: "'r ext \<Rightarrow> string \<Rightarrow> ('r, error, int64) prog" where
  "GetBalance X playerID = bnd (Player_GetByID X playerID) (\<lambda>p. ret (pl_Balance p))"

section \<open>What a successful transaction did\<close>

lemma exec_no_rows: "exec X q w = (Inl ErrNoRows, w') \<Longrightarrow> q (w_db w) = Inl ErrNoRows"
  by (auto simp: exec_def Let_def split: if_splits sum.splits pg_error.splits)

lemma between_frame:
  assumes "reading m" and "m w = (Inr x, w')"
  shows "balance_of (w_db w') = balance_of (w_db w)" "ledger_of (w_db w') = ledger_of (w_db w)"
    "besides (w_db w') = besides (w_db w)"
  by (simp_all add: readingD [OF assms])

lemma Deposit_tx_moves:
  assumes "uuid_canonical X" and "Deposit_tx X i a w = (Inr b, w')"
  shows "\<exists>p. x_uuid X i = Some p \<and> pg.moved p (sint a) w w' \<and> balance_of (w_db w') p = Some (sint b)"
proof -
  from assms(2) obtain p p' w1 w2 nid now w3 w4 e where
    g: "Player_GetForUpdate X i w = (Inr p, w1)" and c: "Credit p a = Inr p'"
    and u: "UpdateBalance X (pl_ID p') (pl_Balance p') w1 = (Inr (), w2)"
    and n: "NewID X w2 = (Inr nid, w3)" "Now X w3 = (Inr now, w4)"
    and t: "NewTransaction nid (pl_ID p') TransactionDeposit a None now = Inr e"
    and s: "Transaction_Insert X e w4 = (Inr (), w')" and b: "b = pl_Balance p'"
    unfolding Deposit_tx_def run_ok by blast
  have "balance_of (w_db w4) = balance_of (w_db w2)" "ledger_of (w_db w4) = ledger_of (w_db w2)"
    "besides (w_db w4) = besides (w_db w2)"
    using n by (simp_all add: NewID_ok Now_ok)
  note pg.move_credit [OF assms(1) g c u this t s]
  moreover have "x_uuid X i = Some (pl_ID p)"
    using g by (auto simp: ok_inv dest: find_Some_pr_ID)
  moreover have "balance_of (w_db w) (pl_ID p) = Some (sint (pl_Balance p))"
    using pg.get_ok [OF assms(1) g] by simp
  ultimately show ?thesis by (auto simp: pg.moved_def b)
qed

text \<open>The rooms that are not closed and in which a player has a seat, latest seat first.\<close>

definition active_rooms :: "db \<Rightarrow> id \<Rightarrow> id list" where
  "active_rooms d p =
     concat (map (\<lambda>s. map mr_ID (filter (\<lambda>r. mr_ID r = sr_RoomID s \<and> mr_Status r \<noteq> ''closed'') (db_rooms d)))
       (sort_key (\<lambda>s. - sr_JoinedAt s) (filter (\<lambda>s. sr_PlayerID s = p) (db_room_players d))))"

lemma set_active_rooms:
  "i \<in> set (active_rooms d p) \<longleftrightarrow>
     (\<exists>s \<in> set (db_room_players d). \<exists>r \<in> set (db_rooms d). sr_PlayerID s = p \<and> sr_RoomID s = i \<and>
        mr_ID r = i \<and> mr_Status r \<noteq> ''closed'')"
  by (auto simp: active_rooms_def)

lemma find_True: "find (\<lambda>_. True) xs = (case xs of [] \<Rightarrow> None | x # _ \<Rightarrow> Some x)"
  by (cases xs) auto

lemma FindActiveRoom_no_rows: "FindActiveRoomForPlayer_sql p d = Inl ErrNoRows \<longleftrightarrow> active_rooms d p = []"
  unfolding FindActiveRoomForPlayer_sql_def active_rooms_def [symmetric] find_True
  by (cases "active_rooms d p") (auto simp: reads_def one_row_def)

lemma FindActiveRoom_row:
  "FindActiveRoomForPlayer_sql p d = Inr (i, d') \<longleftrightarrow> d' = d \<and> active_rooms d p \<noteq> [] \<and> i = hd (active_rooms d p)"
  unfolding FindActiveRoomForPlayer_sql_def active_rooms_def [symmetric] find_True
  by (cases "active_rooms d p") (auto simp: reads_def one_row_def)

lemma Withdraw_tx_moves:
  assumes "uuid_canonical X" and "Withdraw_tx X i a w = (Inr b, w')"
  shows "\<exists>p. x_uuid X i = Some p \<and> pg.moved p (- sint a) w w' \<and> balance_of (w_db w') p = Some (sint b) \<and>
    (active_rooms (w_db w) p = [] \<or> hd (active_rooms (w_db w) p) = [])"
proof -
  from assms(2) obtain p p' w0 w1 w2 nid now w3 w4 e where
    f: "FindActiveRoomForPlayer X i w = (Inr [], w0)"
    and g: "Player_GetForUpdate X i w0 = (Inr p, w1)" and c: "Debit p a = Inr p'"
    and u: "UpdateBalance X (pl_ID p') (pl_Balance p') w1 = (Inr (), w2)"
    and n: "NewID X w2 = (Inr nid, w3)" "Now X w3 = (Inr now, w4)"
    and t: "NewTransaction nid (pl_ID p') TransactionWithdraw a None now = Inr e"
    and s: "Transaction_Insert X e w4 = (Inr (), w')" and b: "b = pl_Balance p'"
    unfolding Withdraw_tx_def run_ok if_prog_ok by blast
  note f0 = between_frame [OF reading_repos(18) f]
  have "balance_of (w_db w4) = balance_of (w_db w2)" "ledger_of (w_db w4) = ledger_of (w_db w2)"
    "besides (w_db w4) = besides (w_db w2)"
    using n by (simp_all add: NewID_ok Now_ok)
  note m = pg.move_debit [OF assms(1) g c u this t s]
  have i: "x_uuid X i = Some (pl_ID p)"
    using g by (auto simp: ok_inv dest: find_Some_pr_ID)
  have "active_rooms (w_db w) (pl_ID p) = [] \<or> hd (active_rooms (w_db w) (pl_ID p)) = []"
    using f
  proof (cases rule: FindActiveRoomForPlayer_ok)
    case (free q)
    then show ?thesis using i exec_no_rows [OF free(2)] by (simp add: FindActiveRoom_no_rows)
  next
    case (seated q)
    then show ?thesis using i by (auto simp: exec_ok FindActiveRoom_row)
  qed
  moreover have "balance_of (w_db w0) (pl_ID p) = Some (sint (pl_Balance p))"
    using pg.get_ok [OF assms(1) g] by simp
  ultimately show ?thesis using m f0 i by (auto simp: pg.moved_def b)
qed

section \<open>The wallet invariant\<close>

lemma wallets_ok_moved: "pg.moved p x w w' \<Longrightarrow> wallets_ok (w_db w) \<Longrightarrow> wallets_ok (w_db w')"
  unfolding wallets_ok_def by (rule pg.moved_reconciles)

lemma Deposit_tx_keeps: "uuid_canonical X \<Longrightarrow> keeps wallets_ok (Deposit_tx X i a)"
  by (rule keepsI) (blast dest: Deposit_tx_moves intro: wallets_ok_moved)

lemma Withdraw_tx_keeps: "uuid_canonical X \<Longrightarrow> keeps wallets_ok (Withdraw_tx X i a)"
  by (rule keepsI) (blast dest: Withdraw_tx_moves intro: wallets_ok_moved)

lemma Deposit_preserves_wallets: "uuid_canonical X \<Longrightarrow> preserves wallets_ok (Deposit X i a)"
  unfolding Deposit_def by (intro pres_rules preserves_keeps Deposit_tx_keeps)

lemma Withdraw_preserves_wallets: "uuid_canonical X \<Longrightarrow> preserves wallets_ok (Withdraw X i a)"
  unfolding Withdraw_def by (intro pres_rules preserves_keeps Withdraw_tx_keeps)

text \<open>
  C18: a deposit that reports success added exactly the amount: the player's balance and the
  signed sum of the player's ledger entries both grew by it without wrapping, the reported
  balance is the new one, and nothing else in the database changed.
\<close>

theorem Deposit_effect:
  assumes "uuid_canonical X" and "w_tx w = NoTx" and "Deposit X i a w = (Inr b, w')"
  shows "\<exists>p old. x_uuid X i = Some p \<and> 0 < sint a \<and> balance_of (w_db w) p = Some old \<and>
    sint b = old + sint a \<and> balance_of (w_db w') = (balance_of (w_db w))(p \<mapsto> old + sint a) \<and>
    ledger_of (w_db w') = (ledger_of (w_db w))(p := ledger_of (w_db w) p + sint a) \<and>
    besides (w_db w') = besides (w_db w)"
proof -
  from assms(3) have a: "0 < sint a" and tx: "WithinTx X (Deposit_tx X i a) w = (Inr b, w')"
    by (auto simp: Deposit_def fail_def split: if_splits)
  from tx assms(2) obtain w2 where
    run: "Deposit_tx X i a (w\<lparr>w_calls := Suc (w_calls w), w_tx := InTx\<rparr>) = (Inr b, w2)" and
    w': "w' = w2\<lparr>w_calls := Suc (w_calls w2), w_tx := NoTx\<rparr>" by (rule WithinTx_ok)
  from Deposit_tx_moves [OF assms(1) run] a show ?thesis
    by (auto simp: w' pg.moved_def)
qed

theorem Deposit_effect_witness:
  "\<exists>w'. Deposit sample_ext ''q'' 250 (sample_world db_two) = (Inr 250, w') \<and> balance_of (w_db w') ''q'' = Some 250"
proof -
  have "fst (Deposit sample_ext ''q'' 250 (sample_world db_two)) = Inr 250" by code_simp
  then obtain w' where run: "Deposit sample_ext ''q'' 250 (sample_world db_two) = (Inr 250, w')"
    by (metis prod.collapse)
  have "balance_of (w_db w') ''q'' = Some 250"
    using Deposit_effect [OF sample_uuid _ run] by (auto simp: sample_ext_def split: if_splits)
  with run show ?thesis by blast
qed

text \<open>
  C19: a withdrawal that reports success took exactly the amount, which the balance covered,
  and the player had no seat in a room that is not closed; balance and ledger moved together
  and nothing else in the database changed.
\<close>

theorem Withdraw_effect:
  assumes "uuid_canonical X" and "w_tx w = NoTx" and "Withdraw X i a w = (Inr b, w')"
    and "\<forall>r \<in> set (db_rooms (w_db w)). mr_ID r \<noteq> []"
  shows "\<exists>p old. x_uuid X i = Some p \<and> 0 < sint a \<and> sint a \<le> old \<and> balance_of (w_db w) p = Some old \<and>
    sint b = old - sint a \<and> balance_of (w_db w') = (balance_of (w_db w))(p \<mapsto> old - sint a) \<and>
    ledger_of (w_db w') = (ledger_of (w_db w))(p := ledger_of (w_db w) p - sint a) \<and>
    besides (w_db w') = besides (w_db w) \<and> active_rooms (w_db w) p = []"
proof -
  from assms(3) obtain w0 where a: "0 < sint a" and s: "ActiveRoom X i w = (Inr [], w0)"
    and tx: "WithinTx X (Withdraw_tx X i a) w0 = (Inr b, w')"
    by (auto simp: Withdraw_def bnd_ok if_prog_ok fail_def split: if_splits)
  have w0: "w_db w0 = w_db w" "w_tx w0 = NoTx" using off_dbD [OF off_db_stores(2) s] assms(2) by auto
  from tx w0(2) obtain w2 where
    run: "Withdraw_tx X i a (w0\<lparr>w_calls := Suc (w_calls w0), w_tx := InTx\<rparr>) = (Inr b, w2)" and
    w': "w' = w2\<lparr>w_calls := Suc (w_calls w2), w_tx := NoTx\<rparr>" by (rule WithinTx_ok)
  from Withdraw_tx_moves [OF assms(1) run] obtain p where p: "x_uuid X i = Some p"
    "pg.moved p (- sint a) (w0\<lparr>w_calls := Suc (w_calls w0), w_tx := InTx\<rparr>) w2"
    "balance_of (w_db w2) p = Some (sint b)"
    "active_rooms (w_db w) p = [] \<or> hd (active_rooms (w_db w) p) = []"
    by (auto simp: w0)
  moreover have "active_rooms (w_db w) p = []"
    using p(4) assms(4) set_active_rooms [of "hd (active_rooms (w_db w) p)" "w_db w" p]
    by (cases "active_rooms (w_db w) p") auto
  ultimately show ?thesis
    using a by (auto simp: w' w0 pg.moved_def)
qed

theorem Withdraw_effect_witness:
  "\<exists>w'. Withdraw sample_ext ''p'' 400 (sample_world db_two) = (Inr 600, w') \<and> balance_of (w_db w') ''p'' = Some 600"
proof -
  have "fst (Withdraw sample_ext ''p'' 400 (sample_world db_two)) = Inr 600" by code_simp
  then obtain w' where run: "Withdraw sample_ext ''p'' 400 (sample_world db_two) = (Inr 600, w')"
    by (metis prod.collapse)
  have "balance_of (w_db w') ''p'' = Some 600"
    using Withdraw_effect [OF sample_uuid _ run] by (auto simp: sample_ext_def db_two_def split: if_splits)
  with run show ?thesis by blast
qed

lemma Deposit_atomic: "atomic X (Deposit X i a)"
  unfolding Deposit_def by (intro atomic_rules)

lemma Withdraw_atomic: "atomic X (Withdraw X i a)"
  unfolding Withdraw_def by (intro atomic_rules off_db_stores)

end
