(* ===== verification/App_Rooms.thy ===== *)
theory App_Rooms
  imports App_Wallet
begin

text \<open>
  The room use cases of \<open>internal/application/game\<close>: create, join, list, snapshot and close, with the
  helpers they share with the round use cases.  The function passed to \<open>WithinTx\<close> is a definition of its own,
  named after the use case with the suffix \<open>_tx\<close>; a call whose error the code drops is wrapped
  in \<open>attempt\<close>.
\<close>

section \<open>Constants and data\<close>

definition roomCacheTTL :: duration where
  "roomCacheTTL = Hour"

definition sessionTTL :: duration where
  "sessionTTL = 6 * Hour"

definition joinLockTTL :: duration where
  "joinLockTTL = 5 * Second"

definition joinLockAttempts :: nat where
  "joinLockAttempts = 4"

definition ReasonOwnerClosed :: string where
  "ReasonOwnerClosed = ''owner_closed''"

definition ReasonMaxRounds :: string where
  "ReasonMaxRounds = ''max_rounds_reached''"

definition ReasonShutdown :: string where
  "ReasonShutdown = ''server_shutdown''"

definition ReasonRecovered :: string where
  "ReasonRecovered = ''recovered_after_restart''"

definition ReasonSettlementFailed :: string where
  "ReasonSettlementFailed = ''settlement_failed''"

record JoinRoomOutput =
  jo_Room :: RoomSummary
  jo_Players :: "id list"
  jo_AlreadyMember :: bool

record CloseRoomOutput =
  co_RoomID :: id
  co_Status :: RoomStatus
  co_Closed :: bool
  co_Reason :: string
  co_Members :: "id list"
  co_Balances :: "(id \<times> int64) list"

record RoundState =
  rs_RoundID :: id
  rs_Number :: int
  rs_Status :: RoundStatus
  rs_OpensAt :: time
  rs_ClosesAt :: time
  rs_Die1 :: int
  rs_Die2 :: int
  rs_Outcome :: Outcome

record RoomState =
  st_Room :: RoomSummary
  st_Players :: "id list"
  st_Round :: "RoundState option"

section \<open>Shared helpers\<close>

definition summaryOf :: "Room \<Rightarrow> RoomSummary" where
  "summaryOf r =
     \<lparr>su_ID = rm_ID r, su_OwnerID = rm_OwnerID r, su_Status = rm_Status r,
      su_CurrentRound = rm_CurrentRound r, su_MaxRounds = rm_MaxRounds r,
      su_PlayerCount = PlayerCount r, su_MaxPlayers = rm_MaxPlayers r, su_CreatedAt = rm_CreatedAt r\<rparr>"

fun memberBalances_from :: "'r ext \<Rightarrow> id list \<Rightarrow> (id \<times> int64) list \<Rightarrow> ('r, error, (id \<times> int64) list) prog" where
  "memberBalances_from X [] balances = ret balances"
| "memberBalances_from X (i # members) balances =
     bnd (Player_GetByID X i) (\<lambda>p. memberBalances_from X members (AList.update i (pl_Balance p) balances))"

definition memberBalances :: "'r ext \<Rightarrow> id list \<Rightarrow> ('r, error, (id \<times> int64) list) prog" where
  "memberBalances X members = memberBalances_from X members []"

definition isRoundMissing :: "error \<Rightarrow> bool" where
  "isRoundMissing e \<longleftrightarrow> e = GameErr ErrRoundNotFound"

definition attachLiveRound :: "'r ext \<Rightarrow> Room \<Rightarrow> ('r, error, Round option \<times> Room) prog" where
  "attachLiveRound X room =
     bnd (attempt (Round_GetCurrent X (rm_ID room))) (\<lambda>r.
     case r of
       Inl e \<Rightarrow> if isRoundMissing e then ret (None, room) else fail e
     | Inr rnd \<Rightarrow> ret (Some rnd, AttachRound room (Some rnd)))"

definition finalizeRoomCache :: "'r ext \<Rightarrow> id \<Rightarrow> RoomSummary \<Rightarrow> bool \<Rightarrow> id list \<Rightarrow> ('r, error, unit) prog" where
  "finalizeRoomCache X roomID summary closed members =
     (if \<not> closed then bnd (attempt (SaveRoom X summary roomCacheTTL)) (\<lambda>_. ret ())
      else
        bnd (each (\<lambda>playerID. bnd (attempt (ReleasePlayer X playerID)) (\<lambda>_. ret ())) members) (\<lambda>_.
        bnd (attempt (RemoveRoom X roomID)) (\<lambda>_. ret ())))"

section \<open>Creating a room\<close>

definition releaseBinding :: "'r ext \<Rightarrow> string \<Rightarrow> ('r, error, unit) prog" where
  "releaseBinding X playerID = bnd (attempt (ReleasePlayer X playerID)) (\<lambda>_. ret ())"

definition CreateRoom_tx :: "'r ext \<Rightarrow> string \<Rightarrow> Room \<Rightarrow> ('r, error, unit) prog" where
  "CreateRoom_tx X ownerID room =
     bnd (FindActiveRoomForPlayer X ownerID) (\<lambda>existing.
     if existing \<noteq> [] then fail (GameErr ErrAlreadyInAnotherRoom)
     else Room_Create X room)"

definition CreateRoomUC :: "'r ext \<Rightarrow> string \<Rightarrow> ('r, error, RoomSummary) prog" where
  "CreateRoomUC X ownerID =
     (if blank ownerID then fail (GameErr game_error.ErrInvalidID)
      else
        bnd (NewID X) (\<lambda>roomID.
        bnd (BindPlayerToRoom X ownerID roomID sessionTTL) (\<lambda>bound.
        if \<not> bound then fail (GameErr ErrAlreadyInAnotherRoom)
        else
          bnd (Now X) (\<lambda>now.
          case NewRoom roomID ownerID now of
            Inl e \<Rightarrow> bnd (releaseBinding X ownerID) (\<lambda>_. fail e)
          | Inr room \<Rightarrow>
              bnd (attempt (WithinTx X (CreateRoom_tx X ownerID room))) (\<lambda>r.
              case r of
                Inl e \<Rightarrow> bnd (releaseBinding X ownerID) (\<lambda>_. fail e)
              | Inr _ \<Rightarrow>
                  bnd (attempt (SaveRoom X (summaryOf room) roomCacheTTL)) (\<lambda>_.
                  ret (summaryOf room)))))))"

section \<open>Joining a room\<close>

fun acquireSeatMutex :: "'r ext \<Rightarrow> string \<Rightarrow> nat \<Rightarrow> ('r, error, string \<times> string) prog" where
  "acquireSeatMutex X roomID 0 = fail (AppErr ErrJoinInProgress)"
| "acquireSeatMutex X roomID (Suc attempts) =
     bnd (AcquireJoinLock X roomID joinLockTTL) (\<lambda>l.
     case l of
       Some lock \<Rightarrow> ret lock
     | None \<Rightarrow> acquireSeatMutex X roomID attempts)"

definition joined_as :: "Room \<Rightarrow> bool \<Rightarrow> JoinRoomOutput" where
  "joined_as room already =
     \<lparr>jo_Room = summaryOf room, jo_Players = Players room, jo_AlreadyMember = already\<rparr>"

text \<open>The transaction; the flag tells whether the player was already seated.\<close>

definition JoinRoom_tx :: "'r ext \<Rightarrow> string \<Rightarrow> string \<Rightarrow> ('r, error, JoinRoomOutput \<times> bool) prog" where
  "JoinRoom_tx X roomID playerID =
     bnd (Room_GetForUpdate X roomID) (\<lambda>room.
     bnd (FindActiveRoomForPlayer X playerID) (\<lambda>existing.
     if existing \<noteq> [] \<and> existing \<noteq> roomID then fail (GameErr ErrAlreadyInAnotherRoom)
     else
       bnd (Now X) (\<lambda>now.
       case Join room playerID now of
         Inl e \<Rightarrow> if e = GameErr ErrAlreadyJoined then ret (joined_as room True, True) else fail e
       | Inr room' \<Rightarrow>
           bnd (attempt (AddPlayer X roomID playerID now)) (\<lambda>r.
           case r of
             Inl e \<Rightarrow> if e = GameErr ErrAlreadyJoined then ret (joined_as room' True, True) else fail e
           | Inr _ \<Rightarrow> ret (joined_as room' False, False)))))"

text \<open>What runs while the seat mutex is held; \<open>current\<close> is the room the player was bound to.\<close>

definition JoinRoom_locked :: "'r ext \<Rightarrow> string \<Rightarrow> string \<Rightarrow> string \<Rightarrow> ('r, error, JoinRoomOutput) prog" where
  "JoinRoom_locked X roomID playerID current =
     bnd (if current \<noteq> roomID then
            bnd (BindPlayerToRoom X playerID roomID sessionTTL) (\<lambda>bound.
            if \<not> bound then
              bnd (ActiveRoom X playerID) (\<lambda>where.
              if where \<noteq> roomID then fail (GameErr ErrAlreadyInAnotherRoom) else ret False)
            else ret True)
          else ret False) (\<lambda>claimedHere.
     bnd (attempt (WithinTx X (JoinRoom_tx X roomID playerID))) (\<lambda>r.
     case r of
       Inl e \<Rightarrow>
         bnd (if claimedHere then bnd (attempt (ReleasePlayer X playerID)) (\<lambda>_. ret ()) else ret ()) (\<lambda>_. fail e)
     | Inr (out, alreadySeated) \<Rightarrow>
         bnd (if \<not> alreadySeated then bnd (attempt (SaveRoom X (jo_Room out) roomCacheTTL)) (\<lambda>_. ret ())
              else ret ()) (\<lambda>_. ret out)))"

definition JoinRoomUC :: "'r ext \<Rightarrow> string \<Rightarrow> string \<Rightarrow> ('r, error, JoinRoomOutput) prog" where
  "JoinRoomUC X roomID playerID =
     (if blank roomID \<or> blank playerID then fail (GameErr game_error.ErrInvalidID)
      else
        bnd (ActiveRoom X playerID) (\<lambda>current.
        if current \<noteq> [] \<and> current \<noteq> roomID then fail (GameErr ErrAlreadyInAnotherRoom)
        else
          bnd (if current = roomID then
                 bnd (Room_GetByID X roomID) (\<lambda>room.
                 ret (if HasPlayer room playerID then Some (joined_as room True) else None))
               else ret None) (\<lambda>attached.
          case attached of
            Some out \<Rightarrow> ret out
          | None \<Rightarrow>
              bnd (acquireSeatMutex X roomID joinLockAttempts) (\<lambda>lock.
              bnd (attempt (JoinRoom_locked X roomID playerID current)) (\<lambda>r.
              bnd (attempt (releaseLock X lock)) (\<lambda>_.
              lift r))))))"

section \<open>Listing and snapshots\<close>

definition defaultRoomPageLimit :: int where
  "defaultRoomPageLimit = 50"

definition maxRoomPageLimit :: int where
  "maxRoomPageLimit = 200"

definition normalizePaging :: "int \<Rightarrow> int \<Rightarrow> int \<times> int" where
  "normalizePaging limit off =
     (let l1 = if limit \<le> 0 then defaultRoomPageLimit else limit;
          l2 = if maxRoomPageLimit < l1 then maxRoomPageLimit else l1
      in (l2, if off < 0 then 0 else off))"

definition page :: "'a list \<Rightarrow> int \<Rightarrow> int \<Rightarrow> 'a list" where
  "page rooms limit off =
     (if int (length rooms) \<le> off then []
      else let end' = (if int (length rooms) < off + limit then int (length rooms) else off + limit)
           in take (nat (end' - off)) (drop (nat off) rooms))"

definition ListOpenRoomsUC :: "'r ext \<Rightarrow> int \<Rightarrow> int \<Rightarrow> ('r, error, RoomSummary list \<times> string) prog" where
  "ListOpenRoomsUC X limit0 off0 =
     (let (limit, off) = normalizePaging limit0 off0 in
      bnd (attempt (ListOpenRooms_cached X)) (\<lambda>cached.
      let open' = (case cached of Inl _ \<Rightarrow> [] | Inr rs \<Rightarrow> filter (\<lambda>r. su_Status r = RoomOpen) rs) in
      if open' \<noteq> [] then
        ret (page (sort_key (\<lambda>r. - su_CreatedAt r) open') limit off, ''cache'')
      else
        bnd (ListOpen X limit off) (\<lambda>rooms.
        bnd (each (\<lambda>r. bnd (attempt (SaveRoom X r roomCacheTTL)) (\<lambda>_. ret ())) rooms) (\<lambda>_.
        ret (rooms, ''database'')))))"

definition RoomStateUC :: "'r ext \<Rightarrow> string \<Rightarrow> ('r, error, RoomState) prog" where
  "RoomStateUC X roomID =
     (if blank roomID then fail (GameErr ErrRoomNotFound)
      else
        bnd (Room_GetByID X roomID) (\<lambda>room.
        bnd (attempt (Round_GetCurrent X roomID)) (\<lambda>r.
        case r of
          Inl e \<Rightarrow>
            if isRoundMissing e
            then ret \<lparr>st_Room = summaryOf room, st_Players = Players room, st_Round = None\<rparr>
            else fail e
        | Inr rnd \<Rightarrow>
            ret \<lparr>st_Room = summaryOf room, st_Players = Players room,
                 st_Round = Some \<lparr>rs_RoundID = rd_ID rnd, rs_Number = rd_Number rnd,
                   rs_Status = rd_Status rnd, rs_OpensAt = rd_BettingOpensAt rnd,
                   rs_ClosesAt = rd_BettingClosesAt rnd, rs_Die1 = rd_Die1 rnd,
                   rs_Die2 = rd_Die2 rnd, rs_Outcome = rd_Outcome rnd\<rparr>\<rparr>)))"

section \<open>Closing a room\<close>

definition CloseRoom_tx :: "'r ext \<Rightarrow> string \<Rightarrow> string \<Rightarrow> string \<Rightarrow> ('r, error, CloseRoomOutput \<times> RoomSummary) prog" where
  "CloseRoom_tx X roomID requesterID reason =
     bnd (Room_GetForUpdate X roomID) (\<lambda>room.
     bnd (attachLiveRound X room) (\<lambda>(_, room).
     bnd (Now X) (\<lambda>now.
     bnd (lift (Close room requesterID now)) (\<lambda>room.
     bnd (UpdateStatus X (rm_ID room) (rm_Status room) (rm_ClosedAt room)) (\<lambda>_.
     let closed = (rm_Status room = RoomClosed) in
     bnd (if closed then memberBalances X (Players room) else ret []) (\<lambda>balances.
     ret (\<lparr>co_RoomID = rm_ID room, co_Status = rm_Status room, co_Closed = closed, co_Reason = reason,
           co_Members = Players room, co_Balances = balances\<rparr>, summaryOf room)))))))"

definition CloseRoomUC :: "'r ext \<Rightarrow> string \<Rightarrow> string \<Rightarrow> string \<Rightarrow> ('r, error, CloseRoomOutput) prog" where
  "CloseRoomUC X roomID requesterID reason0 =
     (if blank roomID then fail (GameErr ErrRoomNotFound)
      else
        let reason = (if reason0 = [] then ReasonOwnerClosed else reason0) in
        bnd (WithinTx X (CloseRoom_tx X roomID requesterID reason)) (\<lambda>(out, summary).
        bnd (finalizeRoomCache X (co_RoomID out) summary (co_Closed out) (co_Members out)) (\<lambda>_.
        ret out)))"

end
