(* ===== verification/App_Rounds.thy ===== *)
theory App_Rounds
  imports App_Rooms
begin

text \<open>
  The round use cases of \<open>internal/application/game\<close>: start, place a bet, settle, abort with refunds,
  and the recovery pass at startup.
\<close>

section \<open>Starting a round\<close>

record StartRoundOutput =
  so_RoomID :: id
  so_RoundID :: id
  so_RoundNumber :: int
  so_OpensAt :: time
  so_ClosesAt :: time
  so_Members :: "id list"

text \<open>\<open>NewStartRoundUseCase\<close>: the configured window, or the domain default.\<close>

definition start_window :: "duration \<Rightarrow> duration" where
  "start_window window = (if window \<le> 0 then DefaultBettingWindow else window)"

definition StartRound_tx ::
    "'r ext \<Rightarrow> duration \<Rightarrow> string \<Rightarrow> string \<Rightarrow> ('r, error, StartRoundOutput \<times> RoomSummary) prog" where
  "StartRound_tx X window roomID requesterID =
     bnd (Room_GetForUpdate X roomID) (\<lambda>room.
     bnd (attachLiveRound X room) (\<lambda>(_, room).
     if \<not> IsOwner room requesterID then fail (GameErr ErrNotOwner)
     else
       bnd (NewID X) (\<lambda>i.
       bnd (Now X) (\<lambda>now.
       bnd (lift (StartRound room i now window)) (\<lambda>(rnd, room).
       bnd (Round_Create X rnd) (\<lambda>_.
       bnd (SetCurrentRound X (rm_ID room) (rm_CurrentRound room)) (\<lambda>_.
       ret (\<lparr>so_RoomID = rm_ID room, so_RoundID = rd_ID rnd, so_RoundNumber = rd_Number rnd,
             so_OpensAt = rd_BettingOpensAt rnd, so_ClosesAt = rd_BettingClosesAt rnd,
             so_Members = Players room\<rparr>, summaryOf room))))))))"

definition StartRoundUC ::
    "'r ext \<Rightarrow> duration \<Rightarrow> string \<Rightarrow> string \<Rightarrow> ('r, error, StartRoundOutput) prog" where
  "StartRoundUC X window roomID requesterID =
     (if blank roomID then fail (GameErr ErrRoomNotFound)
      else
        bnd (WithinTx X (StartRound_tx X (start_window window) roomID requesterID)) (\<lambda>(out, summary).
        bnd (attempt (SaveRoom X summary roomCacheTTL)) (\<lambda>_.
        ret out)))"

section \<open>Placing a bet\<close>

record PlaceBetOutput =
  po_BetID :: id
  po_RoomID :: id
  po_RoundID :: id
  po_RoundNumber :: int
  po_Choice :: Choice
  po_Amount :: int64

text \<open>The stake: the balance goes down and the ledger gets its entry.\<close>

definition stake :: "'r ext \<Rightarrow> string \<Rightarrow> int64 \<Rightarrow> id \<Rightarrow> time \<Rightarrow> ('r, error, unit) prog" where
  "stake X playerID amount roundID now =
     bnd (Player_GetForUpdate X playerID) (\<lambda>p.
     bnd (lift (Debit p amount)) (\<lambda>p.
     bnd (UpdateBalance X (pl_ID p) (pl_Balance p)) (\<lambda>_.
     bnd (NewID X) (\<lambda>tid.
     bnd (lift (NewTransaction tid (pl_ID p) TransactionBet amount (Some roundID) now)) (\<lambda>entry.
     Transaction_Insert X entry)))))"

definition PlaceBet_live ::
    "'r ext \<Rightarrow> Room \<Rightarrow> Round \<Rightarrow> string \<Rightarrow> Choice \<Rightarrow> int64 \<Rightarrow> ('r, error, PlaceBetOutput) prog" where
  "PlaceBet_live X room rnd playerID choice amount =
     bnd (Now X) (\<lambda>now.
     bnd (NewID X) (\<lambda>i.
     bnd (lift (NewBet i (rd_ID rnd) playerID choice amount now)) (\<lambda>bet.
     bnd (lift (PlaceBet room (Some bet) now)) (\<lambda>room.
     bnd (Bet_Insert X bet) (\<lambda>_.
     bnd (stake X playerID amount (rd_ID rnd) now) (\<lambda>_.
     ret \<lparr>po_BetID = bt_ID bet, po_RoomID = rm_ID room, po_RoundID = rd_ID rnd,
          po_RoundNumber = rd_Number rnd, po_Choice = bt_Choice bet, po_Amount = bt_Amount bet\<rparr>))))))"

definition PlaceBet_tx ::
    "'r ext \<Rightarrow> string \<Rightarrow> string \<Rightarrow> Choice \<Rightarrow> int64 \<Rightarrow> ('r, error, PlaceBetOutput) prog" where
  "PlaceBet_tx X roomID playerID choice amount =
     bnd (Room_GetByID X roomID) (\<lambda>room.
     bnd (attachLiveRound X room) (\<lambda>(live, room).
     case live of
       None \<Rightarrow> fail (GameErr ErrNoActiveRound)
     | Some rnd \<Rightarrow> PlaceBet_live X room rnd playerID choice amount))"

definition PlaceBetUC ::
    "'r ext \<Rightarrow> string \<Rightarrow> string \<Rightarrow> Choice \<Rightarrow> int64 \<Rightarrow> ('r, error, PlaceBetOutput) prog" where
  "PlaceBetUC X roomID playerID choice amount =
     (if blank roomID then fail (GameErr ErrRoomNotFound)
      else if blank playerID then fail (GameErr game_error.ErrInvalidID)
      else if \<not> Choice_Valid choice then fail (GameErr ErrInvalidChoice)
      else if sint amount \<le> 0 then fail (GameErr game_error.ErrInvalidAmount)
      else WithinTx X (PlaceBet_tx X roomID playerID choice amount))"

section \<open>Settling a round\<close>

record SettleRoundOutput =
  se_RoomID :: id
  se_RoundID :: id
  se_RoundNumber :: int
  se_Die1 :: int
  se_Die2 :: int
  se_Sum :: int
  se_Outcome :: Outcome
  se_Results :: "Result list"
  se_Members :: "id list"
  se_Balances :: "(id \<times> int64) list"
  se_RoomClosed :: bool
  se_CloseReason :: string

definition Winners :: "SettleRoundOutput \<Rightarrow> Result list" where
  "Winners out = filter rs_Won (se_Results out)"

definition settle_credit :: "'r ext \<Rightarrow> string \<Rightarrow> int64 \<Rightarrow> id \<Rightarrow> time \<Rightarrow> ('r, error, unit) prog" where
  "settle_credit X playerID payout roundID now =
     bnd (Player_GetForUpdate X playerID) (\<lambda>p.
     bnd (lift (Credit p payout)) (\<lambda>p.
     bnd (UpdateBalance X (pl_ID p) (pl_Balance p)) (\<lambda>_.
     bnd (NewID X) (\<lambda>tid.
     bnd (lift (NewTransaction tid (pl_ID p) TransactionPayout payout (Some roundID) now)) (\<lambda>entry.
     Transaction_Insert X entry)))))"

text \<open>The body of the loop over the results.\<close>

definition pay_result :: "'r ext \<Rightarrow> id \<Rightarrow> time \<Rightarrow> Result \<Rightarrow> ('r, error, unit) prog" where
  "pay_result X roundID now res =
     bnd (SettleBet X (rs_BetID res) (rs_Won res) (rs_Payout res)) (\<lambda>_.
     if \<not> rs_Won res \<or> sint (rs_Payout res) \<le> 0 then ret ()
     else settle_credit X (rs_PlayerID res) (rs_Payout res) roundID now)"

text \<open>What the transaction writes once the aggregate has settled, and the output it builds.\<close>

definition SettleRound_writes ::
    "'r ext \<Rightarrow> Room \<Rightarrow> Round \<Rightarrow> Result list \<Rightarrow> time \<Rightarrow> ('r, error, SettleRoundOutput \<times> RoomSummary) prog" where
  "SettleRound_writes X room rnd results now =
     bnd (Round_SettleRow X rnd) (\<lambda>_.
     bnd (each (pay_result X (rd_ID rnd) now) results) (\<lambda>_.
     bnd (if rm_Status room = RoomClosed
          then UpdateStatus X (rm_ID room) (rm_Status room) (rm_ClosedAt room) else ret ()) (\<lambda>_.
     bnd (memberBalances X (Players room)) (\<lambda>balances.
     let closed = (rm_Status room = RoomClosed) in
     ret (\<lparr>se_RoomID = rm_ID room, se_RoundID = rd_ID rnd, se_RoundNumber = rd_Number rnd,
           se_Die1 = rd_Die1 rnd, se_Die2 = rd_Die2 rnd, se_Sum = rd_Die1 rnd + rd_Die2 rnd,
           se_Outcome = rd_Outcome rnd, se_Results = results, se_Members = Players room,
           se_Balances = balances, se_RoomClosed = closed,
           se_CloseReason =
             (if \<not> closed then []
              else if rd_Number rnd < rm_MaxRounds room then ReasonOwnerClosed
              else ReasonMaxRounds)\<rparr>, summaryOf room)))))"

text \<open>
  The loaded round and the round of the aggregate are one object in Go, so after
  \<open>room.SettleRound\<close> the code reads the settled round through the variable it loaded.  The
  dice are drawn before the aggregate is asked; it ignores them when it refuses to settle.
\<close>

definition SettleRound_live ::
    "'r ext \<Rightarrow> Room \<Rightarrow> Round \<Rightarrow> ('r, error, SettleRoundOutput \<times> RoomSummary) prog" where
  "SettleRound_live X room loaded =
     bnd (Now X) (\<lambda>now.
     bnd (attempt (Roll X)) (\<lambda>roll.
     let (res, room) = SettleRound room (Some roll) now;
         rnd = (case rm_round room of None \<Rightarrow> loaded | Some r \<Rightarrow> r) in
     bnd (lift res) (\<lambda>results.
     SettleRound_writes X room rnd results now)))"

definition SettleRound_tx :: "'r ext \<Rightarrow> string \<Rightarrow> ('r, error, SettleRoundOutput \<times> RoomSummary) prog" where
  "SettleRound_tx X roomID =
     bnd (Room_GetForUpdate X roomID) (\<lambda>room.
     bnd (attachLiveRound X room) (\<lambda>(live, room).
     case live of
       None \<Rightarrow> fail (GameErr ErrNoActiveRound)
     | Some loaded \<Rightarrow> SettleRound_live X room loaded))"

definition SettleRoundUC :: "'r ext \<Rightarrow> string \<Rightarrow> ('r, error, SettleRoundOutput) prog" where
  "SettleRoundUC X roomID =
     (if blank roomID then fail (GameErr ErrRoomNotFound)
      else
        bnd (WithinTx X (SettleRound_tx X roomID)) (\<lambda>(out, summary).
        bnd (finalizeRoomCache X (se_RoomID out) summary (se_RoomClosed out) (se_Members out)) (\<lambda>_.
        ret out)))"

section \<open>Aborting a room\<close>

definition refund :: "'r ext \<Rightarrow> string \<Rightarrow> int64 \<Rightarrow> id \<Rightarrow> time \<Rightarrow> ('r, error, unit) prog" where
  "refund X playerID amount roundID now =
     bnd (Player_GetForUpdate X playerID) (\<lambda>p.
     bnd (lift (Credit p amount)) (\<lambda>p.
     bnd (UpdateBalance X (pl_ID p) (pl_Balance p)) (\<lambda>_.
     bnd (NewID X) (\<lambda>tid.
     bnd (lift (NewTransaction tid (pl_ID p) TransactionPayout amount (Some roundID) now)) (\<lambda>entry.
     Transaction_Insert X entry)))))"

text \<open>The nested loops: every unsettled bet of every round still in its betting phase.\<close>

definition refund_round :: "'r ext \<Rightarrow> time \<Rightarrow> Round \<Rightarrow> ('r, error, unit) prog" where
  "refund_round X now rnd =
     (if rd_Status rnd \<noteq> RoundBetting then ret ()
      else each (\<lambda>bet. if Settled bet then ret ()
                       else refund X (bt_PlayerID bet) (bt_Amount bet) (rd_ID rnd) now) (Bets rnd))"

definition AbortRoom_tx :: "'r ext \<Rightarrow> string \<Rightarrow> string \<Rightarrow> ('r, error, CloseRoomOutput \<times> RoomSummary) prog" where
  "AbortRoom_tx X roomID reason =
     bnd (Room_GetForUpdate X roomID) (\<lambda>room.
     if rm_Status room = RoomClosed then fail (GameErr ErrRoomClosed)
     else
       bnd (Round_ListByRoom X (rm_ID room)) (\<lambda>rounds.
       bnd (Now X) (\<lambda>now.
       bnd (each (refund_round X now) rounds) (\<lambda>_.
       let room = ForceClose room now in
       bnd (UpdateStatus X (rm_ID room) (rm_Status room) (rm_ClosedAt room)) (\<lambda>_.
       bnd (memberBalances X (Players room)) (\<lambda>balances.
       ret (\<lparr>co_RoomID = rm_ID room, co_Status = rm_Status room, co_Closed = True, co_Reason = reason,
             co_Members = Players room, co_Balances = balances\<rparr>, summaryOf room)))))))"

definition AbortRoomUC :: "'r ext \<Rightarrow> string \<Rightarrow> string \<Rightarrow> ('r, error, CloseRoomOutput) prog" where
  "AbortRoomUC X roomID reason0 =
     (if blank roomID then fail (GameErr ErrRoomNotFound)
      else
        let reason = (if reason0 = [] then ReasonShutdown else reason0) in
        bnd (WithinTx X (AbortRoom_tx X roomID reason)) (\<lambda>(out, summary).
        bnd (finalizeRoomCache X (co_RoomID out) summary True (co_Members out)) (\<lambda>_.
        ret out)))"

section \<open>Recovery at startup\<close>

record RecoverRoomsOutput =
  ro_RoomsFound :: int
  ro_RoomsClosed :: int
  ro_Failures :: int

fun recover_loop :: "'r ext \<Rightarrow> id list \<Rightarrow> RecoverRoomsOutput \<Rightarrow> ('r, error, RecoverRoomsOutput) prog" where
  "recover_loop X [] out = ret out"
| "recover_loop X (roomID # ids) out =
     bnd (attempt (AbortRoomUC X roomID ReasonRecovered)) (\<lambda>r.
     case r of
       Inl e \<Rightarrow>
         if e = GameErr ErrRoomClosed then recover_loop X ids out
         else recover_loop X ids (out\<lparr>ro_Failures := ro_Failures out + 1\<rparr>)
     | Inr _ \<Rightarrow> recover_loop X ids (out\<lparr>ro_RoomsClosed := ro_RoomsClosed out + 1\<rparr>))"

definition RecoverRoomsUC :: "'r ext \<Rightarrow> ('r, error, RecoverRoomsOutput) prog" where
  "RecoverRoomsUC X =
     bnd (ListActiveRoomIDs X) (\<lambda>ids.
     recover_loop X ids \<lparr>ro_RoomsFound = int (length ids), ro_RoomsClosed = 0, ro_Failures = 0\<rparr>)"

end
