(* ===== verification/App_Ledger.thy ===== *)
theory App_Ledger
  imports App_Rounds
begin

text \<open>
  The wallet invariant across the room and round use cases: statements on the other tables do
  not touch it, a stake, a payout and a refund are moves in the sense of \<open>wallet_store\<close>, and every
  use case is atomic.
\<close>

section \<open>Statements on the game tables\<close>

lemma wallets_ok_frame:
  "db_players d' = db_players d \<Longrightarrow> db_transactions d' = db_transactions d \<Longrightarrow> wallets_ok d' = wallets_ok d"
  unfolding wallets_ok_def by (intro arg_cong2 [of _ _ _ _ reconciles] ext) (simp_all add: balance_of_def ledger_of_def)

lemma steady_game_statement:
  assumes "\<And>d x d'. q d = Inr (x, d') \<Longrightarrow> db_players d' = db_players d \<and> db_transactions d' = db_transactions d"
  shows "steady wallets_ok (exec X q)"
  by (rule steady_exec) (metis assms wallets_ok_frame)

lemma steady_game_statements [keeps_rules]:
  "steady wallets_ok (exec X (CreateRoom_sql r))" "steady wallets_ok (exec X (AddRoomPlayer s))"
  "steady wallets_ok (exec X (RemoveRoomPlayer i p))" "steady wallets_ok (exec X (UpdateRoomStatus st c i))"
  "steady wallets_ok (exec X (UpdateRoomCurrentRound i n))" "steady wallets_ok (exec X (CreateRound i rm n t1 t2 t))"
  "steady wallets_ok (exec X (SettleRound_sql a b oc t i))" "steady wallets_ok (exec X (InsertBet i rn p ch am t))"
  "steady wallets_ok (exec X (SettleBet_sql wn po t i))"
  by (rule steady_game_statement;
      auto simp: CreateRoom_sql_def AddRoomPlayer_def RemoveRoomPlayer_def UpdateRoomStatus_def
        UpdateRoomCurrentRound_def CreateRound_def SettleRound_sql_def InsertBet_def SettleBet_sql_def
        upd_room_def upd_round_def upd_bet_def Let_def ok_inv split: option.splits)+

lemma steady_server_now:
  assumes "\<And>t. steady I (exec X (q t))"
  shows "steady I (\<lambda>w. exec X (q (server_now X w)) w)"
  using assms unfolding steady_def by blast

lemmas steady_basic = reading_calls [THEN steady_reading] reading_toUUID [THEN steady_reading]

lemma steady_case_option:
  "steady I f \<Longrightarrow> (\<And>x. steady I (g x)) \<Longrightarrow> steady I (case r of None \<Rightarrow> f | Some x \<Rightarrow> g x)"
  by (cases r) auto

lemma steady_game_repos:
  "steady wallets_ok (AddPlayer X rm p t)" "steady wallets_ok (UpdateStatus X rm st c)"
  "steady wallets_ok (SetCurrentRound X rm n)" "steady wallets_ok (Bet_Insert X b)"
  "steady wallets_ok (SettleBet X i wn po)" "steady wallets_ok (Round_Create X rnd)"
  "steady wallets_ok (Round_SettleRow X rnd)"
  unfolding AddPlayer_def UpdateStatus_def SetCurrentRound_def Bet_Insert_def SettleBet_def
    Round_Create_def Round_SettleRow_def
  by (intro keeps_rules steady_basic steady_case_option steady_server_now)+

lemmas keeps_game_repos [keeps_rules] = steady_game_repos [THEN keeps_steady]

lemma keeps_Room_Create [keeps_rules]: "keeps wallets_ok (Room_Create X room)"
  unfolding Room_Create_def
  by (intro keeps_bnd keeps_each keeps_game_repos keeps_steady steady_on_error steady_game_statements
      keeps_reading reading_rules)

section \<open>Stakes, payouts and refunds\<close>

lemma credit_tail_moves:
  assumes "uuid_canonical X"
    and "bnd (Player_GetForUpdate X i) (\<lambda>p.
         bnd (lift (Credit p a)) (\<lambda>p.
         bnd (UpdateBalance X (pl_ID p) (pl_Balance p)) (\<lambda>_.
         bnd (NewID X) (\<lambda>tid.
         bnd (lift (NewTransaction tid (pl_ID p) TransactionPayout a rid now)) (\<lambda>entry.
         Transaction_Insert X entry))))) w = (Inr (), w')"
  shows "\<exists>p. x_uuid X i = Some p \<and> pg.moved p (sint a) w w'"
proof -
  from assms(2) obtain p p' w1 w2 nid w3 e where
    g: "Player_GetForUpdate X i w = (Inr p, w1)" and c: "Credit p a = Inr p'"
    and u: "UpdateBalance X (pl_ID p') (pl_Balance p') w1 = (Inr (), w2)"
    and n: "NewID X w2 = (Inr nid, w3)"
    and t: "NewTransaction nid (pl_ID p') TransactionPayout a rid now = Inr e"
    and s: "Transaction_Insert X e w3 = (Inr (), w')"
    unfolding run_ok by blast
  have "balance_of (w_db w3) = balance_of (w_db w2)" "ledger_of (w_db w3) = ledger_of (w_db w2)"
    "besides (w_db w3) = besides (w_db w2)"
    using n by (simp_all add: NewID_ok)
  note m = pg.move_credit [OF assms(1) g c u this t s]
  have "x_uuid X i = Some (pl_ID p)"
    using g by (auto simp: ok_inv dest: find_Some_pr_ID)
  with m show ?thesis by blast
qed

lemma settle_credit_moves:
  "uuid_canonical X \<Longrightarrow> settle_credit X i a rid now w = (Inr (), w') \<Longrightarrow>
   \<exists>p. x_uuid X i = Some p \<and> pg.moved p (sint a) w w'"
  unfolding settle_credit_def by (rule credit_tail_moves)

lemma refund_moves:
  "uuid_canonical X \<Longrightarrow> refund X i a rid now w = (Inr (), w') \<Longrightarrow>
   \<exists>p. x_uuid X i = Some p \<and> pg.moved p (sint a) w w'"
  unfolding refund_def by (rule credit_tail_moves)

lemma keeps_moved:
  assumes "\<And>w w'. m w = (Inr (), w') \<Longrightarrow> \<exists>p. Q p \<and> pg.moved p x w w'"
  shows "keeps wallets_ok m"
proof (rule keepsI)
  fix w u w' assume "m w = (Inr u, w')" and ok: "wallets_ok (w_db w)"
  then have "m w = (Inr (), w')" by simp
  from assms [OF this] obtain p where "pg.moved p x w w'" by blast
  then show "wallets_ok (w_db w')" using ok by (rule wallets_ok_moved)
qed

lemma keeps_settle_credit: "uuid_canonical X \<Longrightarrow> keeps wallets_ok (settle_credit X i a rid now)"
  by (rule keeps_moved) (rule settle_credit_moves)

lemma keeps_refund: "uuid_canonical X \<Longrightarrow> keeps wallets_ok (refund X i a rid now)"
  by (rule keeps_moved) (rule refund_moves)

lemma stake_moves:
  assumes "uuid_canonical X" and "stake X i a rid now w = (Inr (), w')"
  shows "\<exists>p. x_uuid X i = Some p \<and> pg.moved p (- sint a) w w'"
proof -
  from assms(2) obtain p p' w1 w2 nid w3 e where
    g: "Player_GetForUpdate X i w = (Inr p, w1)" and c: "Debit p a = Inr p'"
    and u: "UpdateBalance X (pl_ID p') (pl_Balance p') w1 = (Inr (), w2)"
    and n: "NewID X w2 = (Inr nid, w3)"
    and t: "NewTransaction nid (pl_ID p') TransactionBet a (Some rid) now = Inr e"
    and s: "Transaction_Insert X e w3 = (Inr (), w')"
    unfolding stake_def run_ok by blast
  have "balance_of (w_db w3) = balance_of (w_db w2)" "ledger_of (w_db w3) = ledger_of (w_db w2)"
    "besides (w_db w3) = besides (w_db w2)"
    using n by (simp_all add: NewID_ok)
  note m = pg.move_debit [OF assms(1) g c u this t s]
  have "x_uuid X i = Some (pl_ID p)"
    using g by (auto simp: ok_inv dest: find_Some_pr_ID)
  with m show ?thesis by blast
qed

lemma keeps_stake: "uuid_canonical X \<Longrightarrow> keeps wallets_ok (stake X i a rid now)"
  by (rule keeps_moved) (rule stake_moves)

section \<open>The use cases\<close>

lemma reading_memberBalances [reading_rules]: "reading (memberBalances X members)"
proof -
  have "reading (memberBalances_from X members bs)" for bs
    by (induction members arbitrary: bs) (auto intro!: reading_rules)
  then show ?thesis by (simp add: memberBalances_def)
qed

lemma reading_attachLiveRound [reading_rules]: "reading (attachLiveRound X room)"
  unfolding attachLiveRound_def by (intro reading_rules)

lemmas keeps_reads [keeps_rules] =
  reading_repos [THEN keeps_reading] reading_calls [THEN keeps_reading] reading_toUUID [THEN keeps_reading]
  reading_memberBalances [THEN keeps_reading] reading_attachLiveRound [THEN keeps_reading]

lemma keeps_attempt_Roll [keeps_rules]: "keeps I (attempt (Roll X))"
  by (rule keeps_attempt [OF steady_reading]) (intro reading_rules)

lemma keeps_CreateRoom_tx: "keeps wallets_ok (CreateRoom_tx X owner room)"
  unfolding CreateRoom_tx_def by (intro keeps_rules)

lemma keeps_JoinRoom_tx: "keeps wallets_ok (JoinRoom_tx X rm p)"
  unfolding JoinRoom_tx_def by (intro keeps_rules keeps_attempt steady_game_repos)

lemma keeps_CloseRoom_tx: "keeps wallets_ok (CloseRoom_tx X rm who reason)"
  unfolding CloseRoom_tx_def by (intro keeps_rules)

lemma keeps_StartRound_tx: "keeps wallets_ok (StartRound_tx X window rm who)"
  unfolding StartRound_tx_def by (intro keeps_rules)

lemma keeps_PlaceBet_tx: "uuid_canonical X \<Longrightarrow> keeps wallets_ok (PlaceBet_tx X rm p ch a)"
  unfolding PlaceBet_tx_def PlaceBet_live_def by (intro keeps_rules keeps_stake)

lemma keeps_pay_result: "uuid_canonical X \<Longrightarrow> keeps wallets_ok (pay_result X rid now res)"
  unfolding pay_result_def by (intro keeps_rules keeps_settle_credit)

lemma keeps_SettleRound_tx: "uuid_canonical X \<Longrightarrow> keeps wallets_ok (SettleRound_tx X rm)"
  unfolding SettleRound_tx_def SettleRound_live_def SettleRound_writes_def by (intro keeps_rules keeps_pay_result)

lemma keeps_AbortRoom_tx: "uuid_canonical X \<Longrightarrow> keeps wallets_ok (AbortRoom_tx X rm reason)"
  unfolding AbortRoom_tx_def refund_round_def by (intro keeps_rules keeps_refund)

section \<open>Use cases from the outside\<close>

text \<open>
  What a use case does outside its transaction leaves the database alone, so an invariant of the
  database is an invariant of the use case as soon as the transaction body keeps it.
\<close>

lemma preserves_finalizeRoomCache [pres_rules]: "preserves I (finalizeRoomCache X rm s c ms)"
  unfolding finalizeRoomCache_def by (intro pres_rules)

lemma preserves_releaseBinding [pres_rules]: "preserves I (releaseBinding X p)"
  unfolding releaseBinding_def by (intro pres_rules)

lemma preserves_acquireSeatMutex [pres_rules]: "preserves I (acquireSeatMutex X rm n)"
  by (induction n) (simp_all add: pres_rules)

lemma preserves_CreateRoomUC:
  "(\<And>room i now. NewRoom i owner now = Inr room \<Longrightarrow> keeps I (CreateRoom_tx X owner room)) \<Longrightarrow>
   preserves I (CreateRoomUC X owner)"
  unfolding CreateRoomUC_def by (intro pres_rules preserves_keeps)

lemma preserves_JoinRoomUC: "keeps I (JoinRoom_tx X rm p) \<Longrightarrow> preserves I (JoinRoomUC X rm p)"
  unfolding JoinRoomUC_def JoinRoom_locked_def by (intro pres_rules preserves_keeps)

lemma preserves_ListOpenRoomsUC: "preserves I (ListOpenRoomsUC X l off)"
  unfolding ListOpenRoomsUC_def by (intro pres_rules)

lemma preserves_RoomStateUC: "preserves I (RoomStateUC X rm)"
  unfolding RoomStateUC_def by (intro pres_rules)

lemma preserves_CloseRoomUC:
  "(\<And>reason. keeps I (CloseRoom_tx X rm who reason)) \<Longrightarrow> preserves I (CloseRoomUC X rm who reason0)"
  unfolding CloseRoomUC_def by (intro pres_rules preserves_keeps)

lemma preserves_StartRoundUC:
  "(\<And>window. keeps I (StartRound_tx X window rm who)) \<Longrightarrow> preserves I (StartRoundUC X window0 rm who)"
  unfolding StartRoundUC_def by (intro pres_rules preserves_keeps)

lemma preserves_PlaceBetUC: "keeps I (PlaceBet_tx X rm p ch a) \<Longrightarrow> preserves I (PlaceBetUC X rm p ch a)"
  unfolding PlaceBetUC_def by (intro pres_rules preserves_keeps)

lemma preserves_SettleRoundUC: "keeps I (SettleRound_tx X rm) \<Longrightarrow> preserves I (SettleRoundUC X rm)"
  unfolding SettleRoundUC_def by (intro pres_rules preserves_keeps)

lemma preserves_AbortRoomUC:
  "(\<And>reason. keeps I (AbortRoom_tx X rm reason)) \<Longrightarrow> preserves I (AbortRoomUC X rm reason0)"
  unfolding AbortRoomUC_def by (intro pres_rules preserves_keeps)

lemma preserves_RecoverRoomsUC:
  assumes "\<And>rm reason. keeps I (AbortRoom_tx X rm reason)"
  shows "preserves I (RecoverRoomsUC X)"
proof -
  have "preserves I (recover_loop X ids out)" for ids out
    by (induction ids arbitrary: out) (auto intro!: pres_rules preserves_AbortRoomUC assms)
  then show ?thesis unfolding RecoverRoomsUC_def by (intro pres_rules)
qed

section \<open>Atomicity\<close>

lemma nofail_each [atomic_rules]: "(\<And>x. nofail (f x)) \<Longrightarrow> nofail (each f xs)"
  by (induction xs) (simp_all add: atomic_rules)

lemma nofail_finalizeRoomCache [atomic_rules]: "nofail (finalizeRoomCache X rm s c ms)"
  unfolding finalizeRoomCache_def
  by (cases c) (auto intro!: atomic_rules)

lemma atomic_bnd_read: "reading m \<Longrightarrow> txfree m \<Longrightarrow> (\<And>x. atomic X (k x)) \<Longrightarrow> atomic X (bnd m k)"
  unfolding atomic_def reading_def txfree_def bnd_run by (metis sum.inject(1))

lemma atomic_or_undo:
  assumes "atomic X m" and "\<And>e. off_db (f e)" and "\<And>x. nofail (g x)"
  shows "atomic X (bnd (attempt m) (\<lambda>r. case r of Inl e \<Rightarrow> f e | Inr x \<Rightarrow> g x))"
  unfolding atomic_def bnd_run attempt_run
proof (intro allI impI)
  fix w e w' assume w: "w_tx w = NoTx" "\<forall>n. x_commit X n \<noteq> AckLost"
    and "(\<exists>e'. (\<exists>q. m w = (q, w') \<and> Inl e' = Inr q) \<and> Inl e = Inl e') \<or>
      (\<exists>x w1. (\<exists>q. m w = (q, w1) \<and> Inr x = Inr q) \<and> (case x of Inl e \<Rightarrow> f e | Inr x \<Rightarrow> g x) w1 = (Inl e, w'))"
  then obtain r w1 where m: "m w = (r, w1)" and k: "(case r of Inl e \<Rightarrow> f e | Inr x \<Rightarrow> g x) w1 = (Inl e, w')"
    by auto
  show "w_db w' = w_db w"
  proof (cases r)
    case (Inl e')
    then have "w_db w1 = w_db w" using assms(1) w m unfolding atomic_def by blast
    with k Inl off_dbD [OF assms(2)] show ?thesis by (metis sum.case(1))
  next
    case (Inr x)
    with k assms(3) show ?thesis unfolding nofail_def by (metis sum.case(2))
  qed
qed

lemma atomic_finally:
  assumes "atomic X m" and "off_db n"
  shows "atomic X (bnd (attempt m) (\<lambda>r. bnd (attempt n) (\<lambda>_. lift r)))"
  unfolding atomic_def bnd_run attempt_run
proof (intro allI impI)
  fix w e w' assume w: "w_tx w = NoTx" "\<forall>n. x_commit X n \<noteq> AckLost"
    and "(\<exists>ea. (\<exists>q. m w = (q, w') \<and> Inl ea = Inr q) \<and> Inl e = Inl ea) \<or>
      (\<exists>x w1. (\<exists>q. m w = (q, w1) \<and> Inr x = Inr q) \<and>
        ((\<exists>ea. (\<exists>q. n w1 = (q, w') \<and> Inl ea = Inr q) \<and> Inl e = Inl ea) \<or>
         (\<exists>xa w2. (\<exists>q. n w1 = (q, w2) \<and> Inr xa = Inr q) \<and> lift x w2 = (Inl e, w'))))"
  then obtain r w1 q where m: "m w = (Inl e, w1)" and n: "n w1 = (q, w')" by (auto simp: lift_def)
  have "w_db w1 = w_db w" using assms(1) w m unfolding atomic_def by blast
  with off_dbD [OF assms(2) n] show "w_db w' = w_db w" by simp
qed

lemma off_db_if: "off_db m \<Longrightarrow> off_db n \<Longrightarrow> off_db (if c then m else n)"
  by simp

lemma off_db_releaseBinding: "off_db (releaseBinding X p)"
  unfolding releaseBinding_def by (intro off_db_rules)

lemma off_db_acquireSeatMutex: "off_db (acquireSeatMutex X rm n)"
  by (induction n) (auto intro!: off_db_rules split: option.split)

lemma atomic_CreateRoomUC: "atomic X (CreateRoomUC X owner)"
  unfolding CreateRoomUC_def
  by (intro atomic_if atomic_calls atomic_bnd_off_db off_db_rules)
     (auto intro!: atomic_or_undo atomic_WithinTx off_db_bnd off_db_fail off_db_releaseBinding
        atomic_off_db [OF off_db_bnd [OF off_db_releaseBinding off_db_fail]]
        nofail_bnd nofail_rules split: sum.split)

lemma atomic_JoinRoom_locked: "atomic X (JoinRoom_locked X rm p cur)"
  unfolding JoinRoom_locked_def
  by (intro atomic_bnd_off_db off_db_if off_db_bnd off_db_stores off_db_ret off_db_fail
      atomic_or_undo atomic_WithinTx off_db_attempt)
     (auto intro!: nofail_bnd nofail_rules split: prod.split)

lemma atomic_JoinRoomUC: "atomic X (JoinRoomUC X rm p)"
proof -
  have read: "reading (if c then bnd (Room_GetByID X rm) (\<lambda>room. ret (f room)) else ret None)"
    "txfree (if c then bnd (Room_GetByID X rm) (\<lambda>room. ret (f room)) else ret None)" for c f
    by (intro reading_rules txfree_rules txfree_repos)+
  show ?thesis
    unfolding JoinRoomUC_def
    by (intro atomic_if atomic_calls atomic_bnd_off_db off_db_stores atomic_bnd_read [OF read])
       (auto intro!: atomic_calls atomic_bnd_off_db off_db_acquireSeatMutex atomic_finally
          atomic_JoinRoom_locked off_db_stores split: option.split)
qed

lemma atomic_tx_then:
  "(\<And>out s. nofail (k out s)) \<Longrightarrow> atomic X (bnd (WithinTx X fn) (\<lambda>(out, s). k out s))"
  by (intro atomic_bnd_nofail atomic_WithinTx) (auto split: prod.split)

lemma atomic_game:
  "atomic X (CloseRoomUC X rm who reason)" "atomic X (StartRoundUC X window rm who)"
  "atomic X (PlaceBetUC X rm p ch a)" "atomic X (SettleRoundUC X rm)" "atomic X (AbortRoomUC X rm reason)"
  unfolding CloseRoomUC_def StartRoundUC_def PlaceBetUC_def SettleRoundUC_def AbortRoomUC_def Let_def
  by (intro atomic_if atomic_calls atomic_tx_then atomic_WithinTx atomic_rules)+

end
