(* ===== verification/App_Auth.thy ===== *)
theory App_Auth
  imports App_Ledger
begin

text \<open>
  Accounts: the registration and login use cases of \<open>internal/application/auth\<close> and the adapters they
  call, the bcrypt hasher and the token service of \<open>internal/infrastructure/auth\<close>.  Hashing, signing and
  parsing themselves are external functions.
\<close>

section \<open>Adapters\<close>

definition MinPasswordLength :: nat where
  "MinPasswordLength = 8"

definition Hash :: "'r ext \<Rightarrow> string \<Rightarrow> ('r, error, string) prog" where
  "Hash X plain =
     (if 72 < length plain then fail (AuthErr ErrPasswordTooLong)
      else (\<lambda>w. (case x_bcrypt X (w_salts w) plain of
                   None \<Rightarrow> Inl (InfraErr ''auth: hash password'')
                 | Some digest \<Rightarrow> Inr digest, w\<lparr>w_salts := Suc (w_salts w)\<rparr>)))"

definition Compare :: "'r ext \<Rightarrow> string \<Rightarrow> string \<Rightarrow> error + unit" where
  "Compare X hash plain =
     (case x_bcrypt_match X hash plain of
        Some True \<Rightarrow> Inr ()
      | Some False \<Rightarrow> Inl (PlayerErr ErrInvalidCredentials)
      | None \<Rightarrow> Inl (InfraErr ''auth: compare password''))"

definition token_issuer :: string where
  "token_issuer = ''cassino''"

definition Issue :: "'r ext \<Rightarrow> duration \<Rightarrow> string \<Rightarrow> string \<Rightarrow> ('r, error, string \<times> time) prog" where
  "Issue X ttl playerID email =
     bnd (Now X) (\<lambda>issuedAt.
     let expiresAt = issuedAt + ttl in
     case x_jwt_sign X \<lparr>tc_Email = email, tc_Subject = playerID, tc_Issuer = token_issuer,
            tc_IssuedAt = issuedAt, tc_NotBefore = issuedAt, tc_ExpiresAt = Some expiresAt\<rparr> of
       None \<Rightarrow> fail (InfraErr ''auth: sign token'')
     | Some tok \<Rightarrow> ret (tok, expiresAt))"

record Claims =
  cl_PlayerID :: id
  cl_Email :: string
  cl_ExpiresAt :: time

text \<open>Go's zero time.\<close>

definition zero_time :: time where
  "zero_time = - 62135596800 * Second"

definition Verify :: "'r ext \<Rightarrow> string \<Rightarrow> ('r, error, Claims) prog" where
  "Verify X token =
     bnd (Now X) (\<lambda>now.
     case x_jwt_parse X now token_issuer token of
       Inl TokenExpired \<Rightarrow> fail (AuthErr ErrExpiredToken)
     | Inl TokenUnusable \<Rightarrow> fail (AuthErr ErrInvalidToken)
     | Inr c \<Rightarrow>
         if tc_Subject c = [] then fail (AuthErr ErrInvalidToken)
         else ret \<lparr>cl_PlayerID = tc_Subject c, cl_Email = tc_Email c,
                   cl_ExpiresAt = (case tc_ExpiresAt c of None \<Rightarrow> zero_time | Some t \<Rightarrow> t)\<rparr>)"

section \<open>Use cases\<close>

record RegisterOutput =
  go_PlayerID :: id
  go_Email :: string
  go_CreatedAt :: time

definition RegisterUC :: "'r ext \<Rightarrow> string \<Rightarrow> string \<Rightarrow> ('r, error, RegisterOutput) prog" where
  "RegisterUC X email0 password =
     bnd (lift (NormalizeEmail email0)) (\<lambda>email.
     if length password < MinPasswordLength then fail (AuthErr ErrPasswordTooShort)
     else
       bnd (Hash X password) (\<lambda>hash.
       bnd (Now X) (\<lambda>now.
       bnd (NewID X) (\<lambda>i.
       bnd (lift (NewPlayer i email hash now)) (\<lambda>p.
       bnd (Player_Create X p) (\<lambda>_.
       ret \<lparr>go_PlayerID = pl_ID p, go_Email = pl_Email p, go_CreatedAt = pl_CreatedAt p\<rparr>))))))"

record LoginOutput =
  lo_PlayerID :: id
  lo_Token :: string
  lo_ExpiresAt :: time

definition LoginUC :: "'r ext \<Rightarrow> duration \<Rightarrow> string \<Rightarrow> string \<Rightarrow> ('r, error, LoginOutput) prog" where
  "LoginUC X ttl email0 password =
     (case NormalizeEmail email0 of
        Inl _ \<Rightarrow> fail (PlayerErr ErrInvalidCredentials)
      | Inr email \<Rightarrow>
          bnd (on_error (\<lambda>e. if e = PlayerErr ErrNotFound then PlayerErr ErrInvalidCredentials else e)
            (Player_GetByEmail X email)) (\<lambda>p.
          bnd (lift (Compare X (pl_PasswordHash p) password)) (\<lambda>_.
          bnd (Issue X ttl (pl_ID p) (pl_Email p)) (\<lambda>(token, expiresAt).
          ret \<lparr>lo_PlayerID = pl_ID p, lo_Token = token, lo_ExpiresAt = expiresAt\<rparr>))))"

section \<open>Properties\<close>

lemma off_db_Hash: "off_db (Hash X plain)"
  by (auto simp: Hash_def off_db_def fail_def)

lemma CreatePlayer_wallets:
  assumes "wallets_ok d" and "CreatePlayer r d = Inr (x, d')" and "pr_Balance r = 0"
  shows "wallets_ok d'"
proof -
  from assms(2) have new: "\<not> has_player d (pr_ID r)" and d': "d' = d\<lparr>db_players := db_players d @ [r]\<rparr>"
    by (auto simp: CreatePlayer_def ok_inv)
  have none: "find (\<lambda>q. pr_ID q = pr_ID r) (db_players d) = None"
    using new by (simp add: has_player_def find_None_iff list_ex_iff)
  have "balance_of d' = (balance_of d)(pr_ID r \<mapsto> 0)"
  proof
    fix p
    have "find (\<lambda>q. pr_ID q = p) (xs @ [r]) =
        (case find (\<lambda>q. pr_ID q = p) xs of None \<Rightarrow> if pr_ID r = p then Some r else None | Some q \<Rightarrow> Some q)" for xs
      by (induction xs) auto
    then show "balance_of d' p = ((balance_of d)(pr_ID r \<mapsto> 0)) p"
      using none assms(3) by (auto simp: balance_of_def d' split: option.split)
  qed
  moreover have "ledger_of d' = ledger_of d" by (rule ext) (simp add: ledger_of_def d')
  moreover have "ledger_of d (pr_ID r) = 0"
    using assms(1) none by (intro reconciles_None [of "balance_of d"]) (simp_all add: wallets_ok_def balance_of_def)
  ultimately show ?thesis
    using assms(1) unfolding wallets_ok_def
    by (intro reconcilesI) (auto split: if_splits dest: reconciles_None reconciles_Some)
qed

lemma RegisterUC_preserves_wallets: "preserves wallets_ok (RegisterUC X email password)"
proof -
  have create: "preserves wallets_ok (Player_Create X p)" if "pl_Balance p = 0" for p
    unfolding Player_Create_def
    by (intro pres_rules preserves_exec) (use that in \<open>auto intro: CreatePlayer_wallets\<close>)
  have new: "preserves wallets_ok (bnd (lift (NewPlayer i em h t)) (\<lambda>p. bnd (Player_Create X p) (\<lambda>_. ret (f p))))"
    for i em h t and f :: "Player \<Rightarrow> 'b"
  proof (cases "NewPlayer i em h t")
    case (Inl e)
    then show ?thesis by (simp add: lift_def bnd_def preserves_def)
  next
    case (Inr p)
    then have "pl_Balance p = 0" by (auto simp: NewPlayer_def split: sum.splits if_splits)
    then have "preserves wallets_ok (bnd (Player_Create X p) (\<lambda>_. ret (f p)))"
      by (intro pres_rules create)
    with Inr show ?thesis by (simp add: lift_def bnd_def)
  qed
  show ?thesis
    unfolding RegisterUC_def by (rule new | rule preserves_off_db [OF off_db_Hash] | rule pres_rules)+
qed

end
