(* ===== verification/Api_Errors.thy ===== *)
theory Api_Errors
  imports Cassino_Errors
begin

text \<open>
  The client-facing vocabulary of errors: \<open>mapError\<close> of \<open>interfaces/rest/errors.go\<close>
  (status, code, message) and \<open>mapError\<close> of \<open>interfaces/ws/errors.go\<close> (code, message).
  Each package adds its own transport errors to those of the layers below.  The theorems compare
  the two with each other and with the table in the comment of the REST one.
\<close>

section \<open>REST\<close>

datatype rest_error =
    RestApp error
  | errMissingToken
  | errUnauthenticated
  | errInvalidToken
  | errMalformedBody

definition StatusOK :: int where "StatusOK = 200"
definition StatusCreated :: int where "StatusCreated = 201"
definition StatusBadRequest :: int where "StatusBadRequest = 400"
definition StatusUnauthorized :: int where "StatusUnauthorized = 401"
definition StatusForbidden :: int where "StatusForbidden = 403"
definition StatusNotFound :: int where "StatusNotFound = 404"
definition StatusConflict :: int where "StatusConflict = 409"
definition StatusInternalServerError :: int where "StatusInternalServerError = 500"
definition StatusServiceUnavailable :: int where "StatusServiceUnavailable = 503"

lemmas http_status = StatusOK_def StatusCreated_def StatusBadRequest_def StatusUnauthorized_def
  StatusForbidden_def StatusNotFound_def StatusConflict_def StatusInternalServerError_def
  StatusServiceUnavailable_def

text \<open>The \<open>switch\<close> over \<open>errors.Is\<close>, case by case in its order.\<close>

definition rest_mapError :: "rest_error \<Rightarrow> int \<times> string \<times> string" where
  "rest_mapError err =
    (if err = RestApp (PlayerErr player_error.ErrInvalidEmail) then
       (StatusBadRequest, ''invalid_request'', ''the e-mail address is invalid'')
     else if err = RestApp (AuthErr ErrPasswordTooShort) then
       (StatusBadRequest, ''invalid_request'', ''the password is too short'')
     else if err = RestApp (PlayerErr player_error.ErrInvalidAmount) then
       (StatusBadRequest, ''invalid_request'', ''amount must be greater than zero'')
     else if err = RestApp (PlayerErr player_error.ErrInvalidID) then
       (StatusBadRequest, ''invalid_request'', ''invalid identifier'')
     else if err = errMalformedBody then
       (StatusBadRequest, ''invalid_request'', ''the request body is malformed'')
     else if err = RestApp (GameErr ErrInvalidChoice) then
       (StatusBadRequest, ''invalid_request'', ''choice must be even or odd'')
     else if err = RestApp (GameErr game_error.ErrInvalidAmount) then
       (StatusBadRequest, ''invalid_request'', ''amount must be greater than zero'')
     else if err = RestApp (GameErr game_error.ErrInvalidID) \<or> err = RestApp (GameErr ErrInvalidRoundNumber) then
       (StatusBadRequest, ''invalid_request'', ''invalid identifier'')

     else if err = RestApp (PlayerErr ErrInvalidCredentials) then
       (StatusUnauthorized, ''invalid_credentials'', ''invalid e-mail or password'')
     else if err = errMissingToken \<or> err = errInvalidToken \<or> err = errUnauthenticated then
       (StatusUnauthorized, ''unauthorized'', ''authentication is required'')

     else if err = RestApp (PlayerErr ErrEmailAlreadyUsed) then
       (StatusConflict, ''email_already_used'', ''an account with this e-mail already exists'')
     else if err = RestApp (PlayerErr ErrInsufficientBalance) then
       (StatusConflict, ''insufficient_balance'', ''balance is insufficient for this operation'')
     else if err = RestApp (PlayerErr ErrWithdrawalBlocked) then
       (StatusConflict, ''withdrawal_blocked'', ''withdrawals are blocked while you are in an active room'')

     else if err = RestApp (GameErr ErrNotOwner) then
       (StatusForbidden, ''not_owner'', ''only the room owner may perform this action'')
     else if err = RestApp (GameErr ErrNotAMember) then
       (StatusForbidden, ''not_a_member'', ''you are not a member of this room'')

     else if err = RestApp (GameErr ErrRoomFull) then
       (StatusConflict, ''room_full'', ''the room is full'')
     else if err = RestApp (GameErr ErrRoomClosed) then
       (StatusConflict, ''room_closed'', ''the room is closed'')
     else if err = RestApp (GameErr ErrRoomNotOpen) then
       (StatusConflict, ''room_not_open'', ''the room is no longer accepting players'')
     else if err = RestApp (GameErr ErrAlreadyJoined) then
       (StatusConflict, ''already_joined'', ''you already joined this room'')
     else if err = RestApp (GameErr ErrAlreadyInAnotherRoom) then
       (StatusConflict, ''already_in_another_room'', ''you are already in another room'')
     else if err = RestApp (GameErr ErrRoundInProgress) then
       (StatusConflict, ''round_in_progress'', ''a round is already in progress'')
     else if err = RestApp (GameErr ErrNoActiveRound) then
       (StatusConflict, ''no_active_round'', ''there is no round accepting bets'')
     else if err = RestApp (GameErr ErrRoundAlreadySettled) then
       (StatusConflict, ''round_settled'', ''the round is already settled'')
     else if err = RestApp (GameErr ErrMaxRoundsReached) then
       (StatusConflict, ''max_rounds_reached'', ''the room played all of its rounds'')
     else if err = RestApp (GameErr ErrNoPlayers) then
       (StatusConflict, ''no_players'', ''the room has no players'')
     else if err = RestApp (GameErr ErrBettingClosed) \<or> err = RestApp (GameErr ErrBettingNotOpen) then
       (StatusConflict, ''betting_closed'', ''the betting window is closed'')
     else if err = RestApp (GameErr ErrDuplicateBet) then
       (StatusConflict, ''duplicate_bet'', ''you already placed a bet in this round'')
     else if err = RestApp (AppErr ErrJoinInProgress) then
       (StatusConflict, ''join_in_progress'', ''another join is in progress, retry'')
     else if err = RestApp (AppErr ErrEngineStopped) then
       (StatusServiceUnavailable, ''server_shutting_down'', ''the server is shutting down'')

     else if err = RestApp (GameErr ErrRoomNotFound) then
       (StatusNotFound, ''room_not_found'', ''room not found'')
     else if err = RestApp (PlayerErr ErrNotFound) \<or> err = RestApp (GameErr ErrRoundNotFound)
         \<or> err = RestApp (GameErr ErrBetNotFound) then
       (StatusNotFound, ''not_found'', ''resource not found'')

     else (StatusInternalServerError, ''internal_error'', ''an unexpected error occurred''))"

section \<open>WebSocket\<close>

datatype ws_error =
    WsApp error
  | errUnknownEvent
  | errMalformedMessage
  | errUnauthenticated
  | errReplaced

definition ws_mapError :: "ws_error \<Rightarrow> string \<times> string" where
  "ws_mapError err =
    (if err = ws_error.errUnauthenticated then (''unauthorized'', ''authentication is required'')
     else if err = errUnknownEvent then (''unknown_event'', ''unsupported event type'')
     else if err = errMalformedMessage then (''invalid_request'', ''the message is malformed'')
     else if err = errReplaced then (''connection_replaced'', ''this connection was replaced by a newer one'')

     else if err = WsApp (AppErr ErrNotInRoom) then (''not_in_room'', ''join a room first'')
     else if err = WsApp (AppErr ErrJoinInProgress) then
       (''join_in_progress'', ''another join is in progress, retry'')
     else if err = WsApp (AppErr ErrEngineStopped) then
       (''server_shutting_down'', ''the server is shutting down'')

     else if err = WsApp (GameErr ErrRoomNotFound) then (''room_not_found'', ''room not found'')
     else if err = WsApp (GameErr ErrRoundNotFound) \<or> err = WsApp (GameErr ErrBetNotFound) then
       (''not_found'', ''resource not found'')
     else if err = WsApp (GameErr ErrRoomFull) then (''room_full'', ''the room is full'')
     else if err = WsApp (GameErr ErrRoomClosed) then (''room_closed'', ''the room is closed'')
     else if err = WsApp (GameErr ErrRoomNotOpen) then
       (''room_not_open'', ''the room is no longer accepting players'')
     else if err = WsApp (GameErr ErrAlreadyInAnotherRoom) then
       (''already_in_another_room'', ''you are already in another room'')
     else if err = WsApp (GameErr ErrNotAMember) then
       (''not_a_member'', ''you are not a member of this room'')
     else if err = WsApp (GameErr ErrNotOwner) then
       (''not_owner'', ''only the room owner may do that'')
     else if err = WsApp (GameErr ErrRoundInProgress) then
       (''round_in_progress'', ''a round is already in progress'')
     else if err = WsApp (GameErr ErrNoActiveRound) then
       (''no_active_round'', ''there is no round accepting bets'')
     else if err = WsApp (GameErr ErrRoundAlreadySettled) then
       (''round_settled'', ''the round is already settled'')
     else if err = WsApp (GameErr ErrMaxRoundsReached) then
       (''max_rounds_reached'', ''the room played all of its rounds'')
     else if err = WsApp (GameErr ErrNoPlayers) then (''no_players'', ''the room has no players'')
     else if err = WsApp (GameErr ErrBettingClosed) \<or> err = WsApp (GameErr ErrBettingNotOpen) then
       (''betting_closed'', ''the betting window is closed'')
     else if err = WsApp (GameErr ErrDuplicateBet) then
       (''duplicate_bet'', ''you already placed a bet in this round'')
     else if err = WsApp (GameErr ErrInvalidChoice) then
       (''invalid_request'', ''choice must be even or odd'')
     else if err = WsApp (GameErr game_error.ErrInvalidAmount) \<or> err = WsApp (PlayerErr player_error.ErrInvalidAmount) then
       (''invalid_request'', ''amount must be greater than zero'')
     else if err = WsApp (GameErr game_error.ErrInvalidID) then (''invalid_request'', ''invalid identifier'')

     else if err = WsApp (PlayerErr ErrInsufficientBalance) then
       (''insufficient_balance'', ''balance is insufficient for this bet'')
     else if err = WsApp (PlayerErr ErrNotFound) then (''not_found'', ''resource not found'')

     else (''internal_error'', ''an unexpected error occurred''))"

section \<open>Texts\<close>

text \<open>The method \<open>Error\<close> of the sentinel errors; a wrapped driver error prints the text it carries.\<close>

fun game_text :: "game_error \<Rightarrow> string" where
  "game_text game_error.ErrInvalidID = ''game: invalid id''"
| "game_text game_error.ErrRoomFull = ''game: room is full''"
| "game_text game_error.ErrRoomNotOpen = ''game: room is not open''"
| "game_text game_error.ErrRoomClosed = ''game: room is closed''"
| "game_text game_error.ErrAlreadyJoined = ''game: player already joined this room''"
| "game_text game_error.ErrNotAMember = ''game: player is not a member of this room''"
| "game_text game_error.ErrNotOwner = ''game: only the room owner may perform this action''"
| "game_text game_error.ErrNoPlayers = ''game: room has no players''"
| "game_text game_error.ErrMaxRoundsReached = ''game: room reached its round limit''"
| "game_text game_error.ErrRoundInProgress = ''game: a round is already in progress''"
| "game_text game_error.ErrNoActiveRound = ''game: no active round''"
| "game_text game_error.ErrRoundAlreadySettled = ''game: round already settled''"
| "game_text game_error.ErrBettingClosed = ''game: betting window is closed''"
| "game_text game_error.ErrBettingNotOpen = ''game: betting window is not open yet''"
| "game_text game_error.ErrDuplicateBet = ''game: player already placed a bet in this round''"
| "game_text game_error.ErrInvalidChoice = ''game: bet choice must be even or odd''"
| "game_text game_error.ErrInvalidAmount = ''game: bet amount must be greater than zero''"
| "game_text game_error.ErrInvalidDie = ''game: die value must be between 1 and 6''"
| "game_text game_error.ErrInvalidRoundNumber = ''game: invalid round number''"
| "game_text game_error.ErrInvalidBettingWindow = ''game: betting window must be a positive duration''"
| "game_text game_error.ErrRoomNotFound = ''game: room not found''"
| "game_text game_error.ErrRoundNotFound = ''game: round not found''"
| "game_text game_error.ErrBetNotFound = ''game: bet not found''"
| "game_text game_error.ErrAlreadyInAnotherRoom = ''game: player is already in another room''"

fun player_text :: "player_error \<Rightarrow> string" where
  "player_text player_error.ErrInvalidEmail = ''player: invalid email''"
| "player_text player_error.ErrInvalidPasswordHash = ''player: invalid password hash''"
| "player_text player_error.ErrInvalidID = ''player: invalid id''"
| "player_text player_error.ErrInvalidAmount = ''player: amount must be greater than zero''"
| "player_text player_error.ErrInsufficientBalance = ''player: insufficient balance''"
| "player_text player_error.ErrNegativeBalance = ''player: balance cannot be negative''"
| "player_text player_error.ErrNotFound = ''player: not found''"
| "player_text player_error.ErrEmailAlreadyUsed = ''player: email already registered''"
| "player_text player_error.ErrInvalidCredentials = ''player: invalid credentials''"
| "player_text player_error.ErrInvalidTransactionType = ''player: invalid transaction type''"
| "player_text player_error.ErrWithdrawalBlocked = ''player: withdrawals are blocked while in an active room''"

fun app_text :: "app_error \<Rightarrow> string" where
  "app_text app_error.ErrJoinInProgress = ''game: another join is in progress for this room''"
| "app_text app_error.ErrEngineStopped = ''game: round engine is shutting down''"
| "app_text app_error.ErrNotInRoom = ''game: player is not in a room''"

fun audit_text :: "audit_error \<Rightarrow> string" where
  "audit_text audit_error.ErrInvalidChannel = ''audit: channel must be rest or ws''"
| "audit_text audit_error.ErrInvalidEndpoint = ''audit: endpoint or event is required''"
| "audit_text audit_error.ErrInvalidAction = ''audit: action is required''"
| "audit_text audit_error.ErrImmutable = ''audit: entries are immutable''"

fun auth_text :: "auth_error \<Rightarrow> string" where
  "auth_text auth_error.ErrPasswordTooShort = ''auth: password must be at least 8 characters''"
| "auth_text auth_error.ErrPasswordTooLong = ''auth: password must be at most 72 bytes''"
| "auth_text auth_error.ErrInvalidToken = ''auth: invalid token''"
| "auth_text auth_error.ErrExpiredToken = ''auth: token expired''"

fun error_text :: "error \<Rightarrow> string" where
  "error_text (GameErr g) = game_text g"
| "error_text (PlayerErr p) = player_text p"
| "error_text (AppErr a) = app_text a"
| "error_text (AuditErr a) = audit_text a"
| "error_text (AuthErr a) = auth_text a"
| "error_text (InfraErr s) = s"

fun rest_error_text :: "rest_error \<Rightarrow> string" where
  "rest_error_text (RestApp e) = error_text e"
| "rest_error_text rest_error.errMissingToken = ''rest: missing bearer token''"
| "rest_error_text rest_error.errUnauthenticated = ''rest: authentication required''"
| "rest_error_text rest_error.errInvalidToken = ''rest: invalid or expired token''"
| "rest_error_text rest_error.errMalformedBody = ''rest: request body is malformed''"

fun ws_error_text :: "ws_error \<Rightarrow> string" where
  "ws_error_text (WsApp e) = error_text e"
| "ws_error_text ws_error.errUnknownEvent = ''ws: unknown event''"
| "ws_error_text ws_error.errMalformedMessage = ''ws: malformed message''"
| "ws_error_text ws_error.errUnauthenticated = ''ws: authentication required''"
| "ws_error_text ws_error.errReplaced = ''ws: connection replaced by a newer one''"

section \<open>The two channels compared\<close>

definition rest_code :: "error \<Rightarrow> string" where
  "rest_code e = fst (snd (rest_mapError (RestApp e)))"

definition ws_code :: "error \<Rightarrow> string" where
  "ws_code e = fst (ws_mapError (WsApp e))"

text \<open>The errors whose code depends on the channel they are reported on.\<close>

definition code_differs :: "error list" where
  "code_differs =
     [PlayerErr ErrInvalidEmail, AuthErr ErrPasswordTooShort, PlayerErr player_error.ErrInvalidID,
      GameErr ErrInvalidRoundNumber, PlayerErr ErrInvalidCredentials, PlayerErr ErrEmailAlreadyUsed,
      PlayerErr ErrWithdrawalBlocked, GameErr ErrAlreadyJoined, AppErr ErrNotInRoom]"


text \<open>C39: equivalence of the two error vocabularies.  For every error of the application
  layers the REST envelope and the WebSocket error event carry the same code, except for exactly
  nine errors.  On each of those one of the two channels falls through to \<open>internal_error\<close>.\<close>

theorem channels_share_the_error_codes:
  "(rest_code e = ws_code e \<longleftrightarrow> e \<notin> set code_differs)
   \<and> (rest_code e = ws_code e \<or> ws_code e = ''internal_error'' \<or> rest_code e = ''internal_error'')"
proof (cases e)
  case (GameErr g)
  then show ?thesis
    by (cases g) (simp_all add: rest_code_def ws_code_def rest_mapError_def ws_mapError_def code_differs_def)
next
  case (PlayerErr p)
  then show ?thesis
    by (cases p) (simp_all add: rest_code_def ws_code_def rest_mapError_def ws_mapError_def code_differs_def)
next
  case (AppErr a)
  then show ?thesis
    by (cases a) (simp_all add: rest_code_def ws_code_def rest_mapError_def ws_mapError_def code_differs_def)
next
  case (AuthErr a)
  then show ?thesis
    by (cases a) (simp_all add: rest_code_def ws_code_def rest_mapError_def ws_mapError_def code_differs_def)
qed (simp_all add: rest_code_def ws_code_def rest_mapError_def ws_mapError_def code_differs_def)

end
