(* ===== verification/Game_Engine.thy ===== *)
theory Game_Engine
  imports App_Rounds
begin

text \<open>
  The round engine of \<open>internal/application/game/engine.go\<close> with the timers of \<open>timer.go\<close>: one
  goroutine per active room, which starts, settles and closes its rounds, and the calls
  that hand it commands over a channel.

  A room loop is a record in a heap and its address is the pointer of the code, so that
  \<open>removeLoop\<close> can compare pointers.  A closed channel is a flag.  The channel of commands is
  unbuffered: a command passes when the caller sends and the loop selects, which is one step below.
  The loop runs the command to its end before it replies, and the reply channel holds one
  value.  What the engine tells the notifier and the error lines it logs are recorded in order.
\<close>

section \<open>State\<close>

datatype command =
    cmdStartRound string string
  | cmdPlaceBet string string Choice int64
  | cmdCloseRoom string string string

fun command_room :: "command \<Rightarrow> string" where
  "command_room (cmdStartRound roomID _) = roomID"
| "command_room (cmdPlaceBet roomID _ _ _) = roomID"
| "command_room (cmdCloseRoom roomID _ _) = roomID"

datatype commandResult =
    StartResult "error + StartRoundOutput"
  | BetResult "error + PlaceBetOutput"
  | CloseResult "error + CloseRoomOutput"

text \<open>How \<open>dispatch\<close> fails: the engine is stopped, \<open>errNoLoop\<close>, or the caller's context ended.\<close>

datatype dispatch_error = EngineStopped | NoLoop | CallerGone

text \<open>What the notifier is told, and the lines of \<open>logger.Error\<close>.\<close>

datatype notice =
    NotifyRoundStarted StartRoundOutput
  | NotifyRoundSettled SettleRoundOutput
  | NotifyRoomClosed CloseRoomOutput

datatype log_line = SettlementFailed string error | FailedToAbort string string error

text \<open>
  Where a loop is: in its \<open>select\<close>, returned from it with the deferred function still to
  run, removed from the map, or finished with \<open>done\<close> closed and the wait group released.
\<close>

datatype loop_phase = Selecting | Leaving | Removed | Finished

record roomLoop =
  rl_roomID :: string
  rl_quit :: bool
  rl_timer :: "duration option"
  rl_live :: bool
  rl_phase :: loop_phase

text \<open>
  A call of \<open>dispatch\<close>: blocked in the send, with the reply in its buffer, failed, or
  returned to its caller.
\<close>

datatype call_state = Sending | Replied commandResult | Failed dispatch_error | Returned "dispatch_error + commandResult"

record caller =
  ca_cmd :: command
  ca_loop :: nat
  ca_state :: call_state

record 'r Engine =
  en_timeout :: duration
  en_loops :: "(string \<times> nat) list"
  en_stopped :: bool
  en_heap :: "roomLoop list"
  en_callers :: "caller list"
  en_world :: "'r world"
  en_notices :: "notice list"
  en_logs :: "log_line list"

definition defaultOpTimeout :: duration where
  "defaultOpTimeout = 15 * Second"

definition NewEngine :: "duration \<Rightarrow> 'r world \<Rightarrow> 'r Engine" where
  "NewEngine opTimeout w =
     \<lparr>en_timeout = (if opTimeout \<le> 0 then defaultOpTimeout else opTimeout), en_loops = [], en_stopped = False,
      en_heap = [], en_callers = [], en_world = w, en_notices = [], en_logs = []\<rparr>"

definition Rooms :: "'r Engine \<Rightarrow> nat" where
  "Rooms e = length (en_loops e)"

text \<open>Assignments through a pointer, a call to a use case, the notifier and the logger.\<close>

definition set_loop :: "nat \<Rightarrow> (roomLoop \<Rightarrow> roomLoop) \<Rightarrow> 'r Engine \<Rightarrow> 'r Engine" where
  "set_loop l f e = e\<lparr>en_heap := (en_heap e)[l := f (en_heap e ! l)]\<rparr>"

definition in_world :: "('r, error, 'a) prog \<Rightarrow> 'r Engine \<Rightarrow> (error + 'a) \<times> 'r Engine" where
  "in_world m e = (case m (en_world e) of (r, w) \<Rightarrow> (r, e\<lparr>en_world := w\<rparr>))"

definition notify :: "notice \<Rightarrow> 'r Engine \<Rightarrow> 'r Engine" where
  "notify n e = e\<lparr>en_notices := en_notices e @ [n]\<rparr>"

definition log_error :: "log_line \<Rightarrow> 'r Engine \<Rightarrow> 'r Engine" where
  "log_error n e = e\<lparr>en_logs := en_logs e @ [n]\<rparr>"

section \<open>The map of loops\<close>

definition loopFor :: "string \<Rightarrow> bool \<Rightarrow> 'r Engine \<Rightarrow> (dispatch_error + nat) \<times> 'r Engine" where
  "loopFor roomID create e =
     (if en_stopped e then (Inl EngineStopped, e)
      else case map_of (en_loops e) roomID of
        Some l \<Rightarrow> (Inr l, e)
      | None \<Rightarrow>
          if \<not> create then (Inl NoLoop, e)
          else
            let l = length (en_heap e) in
            (Inr l, e\<lparr>en_heap := en_heap e @ [\<lparr>rl_roomID = roomID, rl_quit = False, rl_timer = None, rl_live = False, rl_phase = Selecting\<rparr>],
                      en_loops := AList.update roomID l (en_loops e)\<rparr>))"

definition removeLoop :: "nat \<Rightarrow> 'r Engine \<Rightarrow> 'r Engine" where
  "removeLoop l e =
     (if map_of (en_loops e) (rl_roomID (en_heap e ! l)) = Some l
      then e\<lparr>en_loops := AList.delete (rl_roomID (en_heap e ! l)) (en_loops e)\<rparr> else e)"

definition stop :: "nat \<Rightarrow> 'r Engine \<Rightarrow> 'r Engine" where
  "stop l = set_loop l (\<lambda>x. x\<lparr>rl_quit := True\<rparr>)"

text \<open>\<open>Shutdown\<close> up to the point where it waits for the loops.\<close>

definition Shutdown :: "'r Engine \<Rightarrow> 'r Engine" where
  "Shutdown e = (if en_stopped e then e else fold (stop \<circ> snd) (en_loops e) (e\<lparr>en_stopped := True\<rparr>))"

section \<open>Timers\<close>

definition NewTimer :: "duration \<Rightarrow> duration" where
  "NewTimer d = (if d < 0 then 0 else d)"

text \<open>The channel that \<open>select\<close> waits on: a loop without a timer waits on a nil channel.\<close>

definition alarm :: "roomLoop \<Rightarrow> bool" where
  "alarm l \<longleftrightarrow> rl_timer l \<noteq> None"

definition disarm :: "nat \<Rightarrow> 'r Engine \<Rightarrow> 'r Engine" where
  "disarm l = set_loop l (\<lambda>x. x\<lparr>rl_timer := None\<rparr>)"

definition arm :: "'r ext \<Rightarrow> nat \<Rightarrow> time \<Rightarrow> 'r Engine \<Rightarrow> 'r Engine" where
  "arm X l closesAt e =
     (let e = disarm l e;
          (now, e) = in_world (Now X) e;
          d = (case now of Inl _ \<Rightarrow> closesAt | Inr t \<Rightarrow> closesAt - t);
          d = (if d < 0 then 0 else d)
      in set_loop l (\<lambda>x. x\<lparr>rl_timer := Some (NewTimer d), rl_live := True\<rparr>) e)"

section \<open>The room loop\<close>

definition abort :: "'r ext \<Rightarrow> nat \<Rightarrow> string \<Rightarrow> 'r Engine \<Rightarrow> 'r Engine" where
  "abort X l reason e =
     (let roomID = rl_roomID (en_heap e ! l) in
      case in_world (AbortRoomUC X roomID reason) e of
        (Inl err, e) \<Rightarrow> if err \<noteq> GameErr ErrRoomClosed then log_error (FailedToAbort roomID reason err) e else e
      | (Inr out, e) \<Rightarrow> notify (NotifyRoomClosed out) (set_loop l (\<lambda>x. x\<lparr>rl_live := False\<rparr>) e))"

text \<open>Resolves the round whose window expired; the result says whether the loop ends.\<close>

definition settle :: "'r ext \<Rightarrow> nat \<Rightarrow> 'r Engine \<Rightarrow> bool \<times> 'r Engine" where
  "settle X l e =
     (let roomID = rl_roomID (en_heap e ! l) in
      case in_world (SettleRoundUC X roomID) e of
        (Inl err, e) \<Rightarrow>
          let e = set_loop l (\<lambda>x. x\<lparr>rl_live := False\<rparr>) e in
          if err = GameErr ErrNoActiveRound \<or> err = GameErr ErrRoundAlreadySettled then (False, e)
          else if err = GameErr ErrRoomClosed \<or> err = GameErr ErrRoomNotFound then (True, e)
          else (True, abort X l ReasonSettlementFailed (log_error (SettlementFailed roomID err) e))
      | (Inr out, e) \<Rightarrow>
          (se_RoomClosed out, notify (NotifyRoundSettled out) (set_loop l (\<lambda>x. x\<lparr>rl_live := False\<rparr>) e)))"

text \<open>One command: the reply, whether the loop ends, and the new state.\<close>

fun handle :: "'r ext \<Rightarrow> duration \<Rightarrow> nat \<Rightarrow> command \<Rightarrow> 'r Engine \<Rightarrow> commandResult \<times> bool \<times> 'r Engine" where
  "handle X window l (cmdStartRound roomID who) e =
     (case in_world (StartRoundUC X window roomID who) e of
        (Inl err, e) \<Rightarrow> (StartResult (Inl err), False, e)
      | (Inr out, e) \<Rightarrow> (StartResult (Inr out), False, notify (NotifyRoundStarted out) (arm X l (so_ClosesAt out) e)))"
| "handle X window l (cmdPlaceBet roomID p choice amount) e =
     (case in_world (PlaceBetUC X roomID p choice amount) e of
        (r, e) \<Rightarrow> (BetResult r, False, e))"
| "handle X window l (cmdCloseRoom roomID who reason) e =
     (case in_world (CloseRoomUC X roomID who reason) e of
        (Inl err, e) \<Rightarrow> (CloseResult (Inl err), False, e)
      | (Inr out, e) \<Rightarrow>
          (CloseResult (Inr out), co_Closed out, if co_Closed out then notify (NotifyRoomClosed out) e else e))"

text \<open>The three cases of the \<open>select\<close> in \<open>run\<close>, and the function it defers.\<close>

definition leave_if :: "bool \<Rightarrow> nat \<Rightarrow> 'r Engine \<Rightarrow> 'r Engine" where
  "leave_if b l e = (if b then set_loop l (\<lambda>x. x\<lparr>rl_phase := Leaving\<rparr>) e else e)"

definition run_quit :: "'r ext \<Rightarrow> nat \<Rightarrow> 'r Engine \<Rightarrow> 'r Engine" where
  "run_quit X l e = leave_if True l (if rl_live (en_heap e ! l) then abort X l ReasonShutdown e else e)"

definition run_alarm :: "'r ext \<Rightarrow> nat \<Rightarrow> 'r Engine \<Rightarrow> 'r Engine" where
  "run_alarm X l e = (let (closed, e) = settle X l (disarm l e) in leave_if closed l e)"

definition run_command :: "'r ext \<Rightarrow> duration \<Rightarrow> nat \<Rightarrow> command \<Rightarrow> 'r Engine \<Rightarrow> commandResult \<times> 'r Engine" where
  "run_command X window l cmd e = (case handle X window l cmd e of (reply, ended, e) \<Rightarrow> (reply, leave_if ended l e))"

definition run_removed :: "nat \<Rightarrow> 'r Engine \<Rightarrow> 'r Engine" where
  "run_removed l e = set_loop l (\<lambda>x. x\<lparr>rl_phase := Removed\<rparr>) (removeLoop l (disarm l e))"

definition run_finished :: "nat \<Rightarrow> 'r Engine \<Rightarrow> 'r Engine" where
  "run_finished l = set_loop l (\<lambda>x. x\<lparr>rl_phase := Finished\<rparr>)"

section \<open>Calls\<close>

definition set_call :: "nat \<Rightarrow> call_state \<Rightarrow> 'r Engine \<Rightarrow> 'r Engine" where
  "set_call j s e = e\<lparr>en_callers := (en_callers e)[j := (en_callers e ! j)\<lparr>ca_state := s\<rparr>]\<rparr>"

text \<open>Only a start command creates a loop.\<close>

fun creates :: "command \<Rightarrow> bool" where
  "creates (cmdStartRound _ _) = True"
| "creates (cmdPlaceBet _ _ _ _) = False"
| "creates (cmdCloseRoom _ _ _) = False"

text \<open>\<open>dispatch\<close> up to its first \<open>select\<close>.\<close>

definition dispatch :: "command \<Rightarrow> 'r Engine \<Rightarrow> 'r Engine" where
  "dispatch cmd e =
     (case loopFor (command_room cmd) (creates cmd) e of
        (Inl err, e) \<Rightarrow> e\<lparr>en_callers := en_callers e @ [\<lparr>ca_cmd = cmd, ca_loop = 0, ca_state = Failed err\<rparr>]\<rparr>
      | (Inr l, e) \<Rightarrow> e\<lparr>en_callers := en_callers e @ [\<lparr>ca_cmd = cmd, ca_loop = l, ca_state = Sending\<rparr>]\<rparr>)"

text \<open>
  What the methods of the engine do with a failed dispatch: a bet or a close that found no loop
  runs its use case directly, everything else is returned.
\<close>

fun PlaceBet_direct :: "'r ext \<Rightarrow> command \<Rightarrow> 'r Engine \<Rightarrow> (commandResult \<times> 'r Engine) option" where
  "PlaceBet_direct X (cmdPlaceBet roomID p choice amount) e =
     (case in_world (PlaceBetUC X roomID p choice amount) e of (r, e) \<Rightarrow> Some (BetResult r, e))"
| "PlaceBet_direct X cmd e = None"

fun CloseRoom_direct :: "'r ext \<Rightarrow> command \<Rightarrow> 'r Engine \<Rightarrow> (commandResult \<times> 'r Engine) option" where
  "CloseRoom_direct X (cmdCloseRoom roomID who reason) e =
     (case in_world (CloseRoomUC X roomID who reason) e of
        (Inl err, e) \<Rightarrow> Some (CloseResult (Inl err), e)
      | (Inr out, e) \<Rightarrow>
          Some (CloseResult (Inr out), if co_Closed out then notify (NotifyRoomClosed out) e else e))"
| "CloseRoom_direct X cmd e = None"

definition return_failed :: "'r ext \<Rightarrow> nat \<Rightarrow> dispatch_error \<Rightarrow> 'r Engine \<Rightarrow> 'r Engine" where
  "return_failed X j err e =
     (let cmd = ca_cmd (en_callers e ! j) in
      if err = NoLoop then
        (case PlaceBet_direct X cmd e of
           Some (r, e) \<Rightarrow> set_call j (Returned (Inr r)) e
         | None \<Rightarrow>
             (case CloseRoom_direct X cmd e of
                Some (r, e) \<Rightarrow> set_call j (Returned (Inr r)) e
              | None \<Rightarrow> set_call j (Returned (Inl err)) e))
      else set_call j (Returned (Inl err)) e)"

section \<open>Interleavings\<close>

text \<open>
  The steps of the goroutines: those of the loops and of the calls already made.  When several
  cases of a \<open>select\<close> are ready any of them can be taken, so a step is any enabled one.  That the
  context of a caller ends is not a step of theirs; it is added where the engine meets its
  environment.
\<close>

definition in_phase :: "'r Engine \<Rightarrow> nat \<Rightarrow> loop_phase \<Rightarrow> bool" where
  "in_phase e l ph \<longleftrightarrow> l < length (en_heap e) \<and> rl_phase (en_heap e ! l) = ph"

definition calling :: "'r Engine \<Rightarrow> nat \<Rightarrow> call_state \<Rightarrow> bool" where
  "calling e j s \<longleftrightarrow> j < length (en_callers e) \<and> ca_state (en_callers e ! j) = s"

inductive goroutine :: "'r ext \<Rightarrow> duration \<Rightarrow> 'r Engine \<Rightarrow> 'r Engine \<Rightarrow> bool"
  for X :: "'r ext" and window :: duration where
  g_quit: "in_phase e l Selecting \<Longrightarrow> rl_quit (en_heap e ! l) \<Longrightarrow> goroutine X window e (run_quit X l e)"
| g_alarm: "in_phase e l Selecting \<Longrightarrow> alarm (en_heap e ! l) \<Longrightarrow> goroutine X window e (run_alarm X l e)"
| g_command: "calling e j Sending \<Longrightarrow> in_phase e (ca_loop (en_callers e ! j)) Selecting \<Longrightarrow>
    run_command X window (ca_loop (en_callers e ! j)) (ca_cmd (en_callers e ! j)) e = (reply, e') \<Longrightarrow>
    goroutine X window e (set_call j (Replied reply) e')"
| g_removed: "in_phase e l Leaving \<Longrightarrow> goroutine X window e (run_removed l e)"
| g_finished: "in_phase e l Removed \<Longrightarrow> goroutine X window e (run_finished l e)"
| g_no_loop: "calling e j Sending \<Longrightarrow> in_phase e (ca_loop (en_callers e ! j)) Finished \<Longrightarrow>
    goroutine X window e (set_call j (Failed NoLoop) e)"
| g_return: "calling e j (Replied r) \<Longrightarrow> goroutine X window e (set_call j (Returned (Inr r)) e)"
| g_failed: "calling e j (Failed err) \<Longrightarrow> goroutine X window e (return_failed X j err e)"

end
