(* ===== verification/Ws_Protocol.thy ===== *)
theory Ws_Protocol
  imports Api_Errors Game_Engine
begin

text \<open>
  The frames of the socket, \<open>internal/interfaces/ws/protocol.go\<close>: the event names, the
  payload of each event and the two envelopes.  An outbound frame is kept as the value that \<open>json.Marshal\<close>
  encodes; encoding fails exactly when a time stamp in it lies outside the years 0 to 9999.
\<close>

section \<open>Events\<close>

definition EventAuth :: string where [go_consts]: "EventAuth = ''auth''"
definition EventRoomJoin :: string where [go_consts]: "EventRoomJoin = ''room.join''"
definition EventRoomStart :: string where [go_consts]: "EventRoomStart = ''room.start''"
definition EventRoundStart :: string where [go_consts]: "EventRoundStart = ''round.start''"
definition EventBetPlace :: string where [go_consts]: "EventBetPlace = ''bet.place''"
definition EventRoomState :: string where [go_consts]: "EventRoomState = ''room.state''"
definition EventRoundStarted :: string where [go_consts]: "EventRoundStarted = ''round.started''"
definition EventBetAccepted :: string where [go_consts]: "EventBetAccepted = ''bet.accepted''"
definition EventRoundResult :: string where [go_consts]: "EventRoundResult = ''round.result''"
definition EventBalanceUpdated :: string where [go_consts]: "EventBalanceUpdated = ''balance.updated''"
definition EventRoomClosed :: string where [go_consts]: "EventRoomClosed = ''room.closed''"
definition EventError :: string where [go_consts]: "EventError = ''error''"

definition BalanceReasonRoundEnd :: string where "BalanceReasonRoundEnd = ''round_end''"
definition BalanceReasonRoomEnd :: string where "BalanceReasonRoomEnd = ''room_end''"

section \<open>Payloads\<close>

record RoundPayload =
  rp_RoundID :: string
  rp_Number :: int
  rp_Status :: string
  rp_OpensAt :: time
  rp_ClosesAt :: time
  rp_Die1 :: int
  rp_Die2 :: int
  rp_Outcome :: string

record RoomStatePayload =
  sp_RoomID :: string
  sp_OwnerID :: string
  sp_Status :: string
  sp_CurrentRound :: int
  sp_MaxRounds :: int
  sp_PlayerCount :: int
  sp_MaxPlayers :: int
  sp_Players :: "string list"
  sp_Round :: "RoundPayload option"

record RoundStartedPayload =
  ns_RoomID :: string
  ns_RoundID :: string
  ns_Number :: int
  ns_OpensAt :: time
  ns_ClosesAt :: time

record BetAcceptedPayload =
  ba_BetID :: string
  ba_RoomID :: string
  ba_RoundID :: string
  ba_Number :: int
  ba_Choice :: string
  ba_Amount :: int64

record WinnerPayload =
  wp_PlayerID :: string
  wp_BetID :: string
  wp_Choice :: string
  wp_Amount :: int64
  wp_Payout :: int64

record RoundResultPayload =
  rr_RoomID :: string
  rr_RoundID :: string
  rr_Number :: int
  rr_Die1 :: int
  rr_Die2 :: int
  rr_Sum :: int
  rr_Outcome :: string
  rr_Winners :: "WinnerPayload list"
  rr_RoomClosed :: bool

record BalanceUpdatedPayload =
  bu_PlayerID :: string
  bu_RoomID :: string
  bu_Balance :: int64
  bu_Reason :: string

record RoomClosedPayload =
  cp_RoomID :: string
  cp_Reason :: string

record ErrorPayload =
  ep_Code :: string
  ep_Message :: string
  ep_Event :: string

datatype data =
    RoomState_data RoomStatePayload
  | RoundStarted_data RoundStartedPayload
  | BetAccepted_data BetAcceptedPayload
  | RoundResult_data RoundResultPayload
  | BalanceUpdated_data BalanceUpdatedPayload
  | RoomClosed_data RoomClosedPayload
  | Error_data ErrorPayload

record outbound =
  ob_Type :: string
  ob_Data :: data

section \<open>Encoding\<close>

text \<open>The first instant of the year 0 and of the year 10000.\<close>

definition year_0 :: time where "year_0 = - 62167219200 * Second"
definition year_10000 :: time where "year_10000 = 253402300800 * Second"

definition time_encodes :: "time \<Rightarrow> bool" where
  "time_encodes t \<longleftrightarrow> year_0 \<le> t \<and> t < year_10000"

fun data_encodes :: "data \<Rightarrow> bool" where
  "data_encodes (RoomState_data p) =
     (case sp_Round p of None \<Rightarrow> True | Some r \<Rightarrow> time_encodes (rp_OpensAt r) \<and> time_encodes (rp_ClosesAt r))"
| "data_encodes (RoundStarted_data p) = (time_encodes (ns_OpensAt p) \<and> time_encodes (ns_ClosesAt p))"
| "data_encodes _ = True"

text \<open>\<open>json.Marshal\<close>: the encoded frame, or nothing when it fails.\<close>

definition Marshal :: "outbound \<Rightarrow> outbound option" where
  "Marshal frame = (if data_encodes (ob_Data frame) then Some frame else None)"

section \<open>From the outputs of the use cases\<close>

definition RoundStarted_payload :: "StartRoundOutput \<Rightarrow> RoundStartedPayload" where
  "RoundStarted_payload out =
     \<lparr>ns_RoomID = so_RoomID out, ns_RoundID = so_RoundID out, ns_Number = so_RoundNumber out,
      ns_OpensAt = so_OpensAt out, ns_ClosesAt = so_ClosesAt out\<rparr>"

definition Winner_payload :: "Result \<Rightarrow> WinnerPayload" where
  "Winner_payload w =
     \<lparr>wp_PlayerID = rs_PlayerID w, wp_BetID = rs_BetID w, wp_Choice = rs_Choice w,
      wp_Amount = rs_Amount w, wp_Payout = rs_Payout w\<rparr>"

definition RoundResult_payload :: "SettleRoundOutput \<Rightarrow> RoundResultPayload" where
  "RoundResult_payload out =
     \<lparr>rr_RoomID = se_RoomID out, rr_RoundID = se_RoundID out, rr_Number = se_RoundNumber out,
      rr_Die1 = se_Die1 out, rr_Die2 = se_Die2 out, rr_Sum = se_Sum out, rr_Outcome = se_Outcome out,
      rr_Winners = map Winner_payload (Winners out), rr_RoomClosed = se_RoomClosed out\<rparr>"

definition roundStatePayload :: "RoundState \<Rightarrow> RoundPayload" where
  "roundStatePayload r =
     \<lparr>rp_RoundID = rs_RoundID r, rp_Number = rs_Number r, rp_Status = rs_Status r,
      rp_OpensAt = rs_OpensAt r, rp_ClosesAt = rs_ClosesAt r, rp_Die1 = rs_Die1 r, rp_Die2 = rs_Die2 r,
      rp_Outcome = rs_Outcome r\<rparr>"

definition roomStatePayload :: "RoomState \<Rightarrow> RoomStatePayload" where
  "roomStatePayload state =
     \<lparr>sp_RoomID = su_ID (st_Room state), sp_OwnerID = su_OwnerID (st_Room state),
      sp_Status = su_Status (st_Room state), sp_CurrentRound = su_CurrentRound (st_Room state),
      sp_MaxRounds = su_MaxRounds (st_Room state), sp_PlayerCount = su_PlayerCount (st_Room state),
      sp_MaxPlayers = su_MaxPlayers (st_Room state), sp_Players = st_Players state,
      sp_Round = map_option roundStatePayload (st_Round state)\<rparr>"

definition BetAccepted_payload :: "PlaceBetOutput \<Rightarrow> BetAcceptedPayload" where
  "BetAccepted_payload out =
     \<lparr>ba_BetID = po_BetID out, ba_RoomID = po_RoomID out, ba_RoundID = po_RoundID out,
      ba_Number = po_RoundNumber out, ba_Choice = po_Choice out, ba_Amount = po_Amount out\<rparr>"

definition Error_payload :: "string \<Rightarrow> ws_error \<Rightarrow> ErrorPayload" where
  "Error_payload event err =
     (case ws_mapError err of (code, message) \<Rightarrow> \<lparr>ep_Code = code, ep_Message = message, ep_Event = event\<rparr>)"

end
