(* ===== verification/Ws_Hub.thy ===== *)
theory Ws_Hub
  imports Ws_Protocol
begin

text \<open>
  The connection registry \<open>internal/interfaces/ws/hub.go\<close> and the sockets of \<open>client.go\<close>.

  A \<open>*Client\<close> is an index into the heap of clients, so that \<open>unregister\<close> can compare pointers.
  The methods run on many goroutines: each critical section (a body under \<open>h.mu\<close> or \<open>c.mu\<close>, one \<open>select\<close>
  on a channel) is one atomic action, and what a method does after its critical section is the list
  of calls the action leaves to its goroutine.  A goroutine is such a list, and any goroutine may run its
  next action at any time.  When \<open>select\<close> finds both \<open>closed\<close> and room in the queue Go picks one at random,
  here the argument \<open>pick\<close>.  Lines of the logger are not kept.
\<close>

section \<open>State\<close>

definition sendBuffer :: nat where
  "sendBuffer = 32"

text \<open>Where the write pump is: not yet started, in its loop, in \<open>drain\<close>, or returned.\<close>

datatype pump = NotStarted | Writing | Draining | Stopped

record Client =
  sk_playerID :: string
  sk_send :: "outbound list"
  sk_closed :: bool
  sk_roomID :: string
  sk_pump :: pump
  sk_written :: "outbound list"

record Hub =
  hb_clients :: "(string \<times> nat) list"
  hb_rooms :: "(string \<times> string list) list"
  hb_heap :: "Client list"

datatype action =
    CallSendToPlayer string string data
  | CallBroadcast string string data
  | CallSendEvent nat string data
  | CallClose nat
  | CallRegister nat
  | CallUnregister nat
  | CallAttachToRoom string string
  | CallDetachRoom string
  | CallRoom nat string
  | CallSetRoom nat string
  | CallWritePump nat
  | CallReadPump nat

definition NewHub :: Hub where
  "NewHub = \<lparr>hb_clients = [], hb_rooms = [], hb_heap = []\<rparr>"

definition newClient :: "string \<Rightarrow> Client" where
  "newClient playerID =
     \<lparr>sk_playerID = playerID, sk_send = [], sk_closed = False, sk_roomID = [], sk_pump = NotStarted, sk_written = []\<rparr>"

abbreviation client :: "Hub \<Rightarrow> nat \<Rightarrow> Client" where
  "client h c \<equiv> hb_heap h ! c"

definition set_client :: "nat \<Rightarrow> (Client \<Rightarrow> Client) \<Rightarrow> Hub \<Rightarrow> Hub" where
  "set_client c f h = h\<lparr>hb_heap := (hb_heap h)[c := f (client h c)]\<rparr>"

section \<open>The client\<close>

definition close :: "nat \<Rightarrow> Hub \<Rightarrow> Hub" where
  "close c = set_client c (\<lambda>k. k\<lparr>sk_closed := True\<rparr>)"

definition setRoom :: "nat \<Rightarrow> string \<Rightarrow> Hub \<Rightarrow> Hub" where
  "setRoom c roomID = set_client c (\<lambda>k. k\<lparr>sk_roomID := roomID\<rparr>)"

definition enqueue :: "bool \<Rightarrow> nat \<Rightarrow> outbound \<Rightarrow> Hub \<Rightarrow> action list \<times> Hub" where
  "enqueue pick c payload h =
     (let room = length (sk_send (client h c)) < sendBuffer in
      if sk_closed (client h c) \<and> (\<not> room \<or> pick) then ([], h)
      else if room then ([], set_client c (\<lambda>k. k\<lparr>sk_send := sk_send k @ [payload]\<rparr>) h)
      else ([CallClose c], h))"

definition sendEvent :: "bool \<Rightarrow> nat \<Rightarrow> string \<Rightarrow> data \<Rightarrow> Hub \<Rightarrow> action list \<times> Hub" where
  "sendEvent pick c eventType d h =
     (case Marshal \<lparr>ob_Type = eventType, ob_Data = d\<rparr> of
        None \<Rightarrow> ([], h)
      | Some payload \<Rightarrow> enqueue pick c payload h)"

definition sendError :: "nat \<Rightarrow> string \<Rightarrow> ws_error \<Rightarrow> action list" where
  "sendError c event err = [CallSendEvent c EventError (Error_data (Error_payload event err))]"

text \<open>
  The cases of the pump's \<open>select\<close>, and whether the write succeeds; \<open>None\<close> when the case is not
  ready.  The same function runs \<open>drain\<close>, which takes what is queued until it is empty or a write fails.
\<close>

datatype pump_case = SendReady | Tick | ClosedReady

definition pump_return :: "Client \<Rightarrow> Client" where
  "pump_return k = k\<lparr>sk_closed := True, sk_pump := Stopped\<rparr>"

definition drain :: "bool \<Rightarrow> Client \<Rightarrow> Client" where
  "drain ok k =
     (case sk_send k of
        [] \<Rightarrow> pump_return k
      | payload # rest \<Rightarrow>
          if ok then k\<lparr>sk_send := rest, sk_written := sk_written k @ [payload]\<rparr>
          else pump_return (k\<lparr>sk_send := rest\<rparr>))"

fun writePump :: "bool \<Rightarrow> pump_case \<Rightarrow> Client \<Rightarrow> Client option" where
  "writePump ok SendReady k =
     (if sk_pump k = Draining then Some (drain ok k)
      else if sk_pump k \<noteq> Writing then None
      else case sk_send k of
        [] \<Rightarrow> None
      | payload # rest \<Rightarrow>
          if ok then Some (k\<lparr>sk_send := rest, sk_written := sk_written k @ [payload]\<rparr>)
          else Some (pump_return (k\<lparr>sk_send := rest\<rparr>)))"
| "writePump ok Tick k =
     (if sk_pump k \<noteq> Writing then None else if ok then Some k else Some (pump_return k))"
| "writePump ok ClosedReady k =
     (if sk_pump k \<noteq> Writing \<or> \<not> sk_closed k then None else Some (k\<lparr>sk_pump := Draining\<rparr>))"

section \<open>The hub\<close>

definition register :: "nat \<Rightarrow> Hub \<Rightarrow> action list \<times> Hub" where
  "register c h =
     (let playerID = sk_playerID (client h c);
          h' = h\<lparr>hb_clients := AList.update playerID c (hb_clients h)\<rparr> in
      case map_of (hb_clients h) playerID of
        None \<Rightarrow> ([], h')
      | Some previous \<Rightarrow>
          if previous \<noteq> c then (sendError previous [] errReplaced @ [CallClose previous], h') else ([], h'))"

definition unregister :: "nat \<Rightarrow> Hub \<Rightarrow> Hub" where
  "unregister c h =
     (let playerID = sk_playerID (client h c) in
      if map_of (hb_clients h) playerID \<noteq> Some c then h
      else h\<lparr>hb_clients := AList.delete playerID (hb_clients h),
             hb_rooms := filter (\<lambda>(roomID, members). members \<noteq> [])
               (map (\<lambda>(roomID, members). (roomID, removeAll playerID members)) (hb_rooms h))\<rparr>)"

text \<open>The members of a room in the hub's index; a missing room has none.\<close>

definition members_of :: "Hub \<Rightarrow> string \<Rightarrow> string list" where
  "members_of h roomID = (case map_of (hb_rooms h) roomID of None \<Rightarrow> [] | Some members \<Rightarrow> members)"

definition AttachToRoom :: "string \<Rightarrow> string \<Rightarrow> Hub \<Rightarrow> Hub" where
  "AttachToRoom roomID playerID h =
     h\<lparr>hb_rooms := AList.update roomID (List.insert playerID (members_of h roomID)) (hb_rooms h)\<rparr>"

text \<open>The sockets of the listed players that are connected.\<close>

definition connected :: "Hub \<Rightarrow> string list \<Rightarrow> nat list" where
  "connected h playerIDs = List.map_filter (map_of (hb_clients h)) playerIDs"

definition DetachRoom :: "string \<Rightarrow> Hub \<Rightarrow> action list \<times> Hub" where
  "DetachRoom roomID h =
     (map (\<lambda>c. CallRoom c roomID) (connected h (members_of h roomID)),
      h\<lparr>hb_rooms := AList.delete roomID (hb_rooms h)\<rparr>)"

definition SendToPlayer :: "string \<Rightarrow> string \<Rightarrow> data \<Rightarrow> Hub \<Rightarrow> action list" where
  "SendToPlayer playerID eventType d h =
     (case map_of (hb_clients h) playerID of None \<Rightarrow> [] | Some c \<Rightarrow> [CallSendEvent c eventType d])"

definition SendToPlayers :: "string list \<Rightarrow> string \<Rightarrow> data \<Rightarrow> action list" where
  "SendToPlayers playerIDs eventType d = map (\<lambda>playerID. CallSendToPlayer playerID eventType d) playerIDs"

definition Broadcast :: "string \<Rightarrow> string \<Rightarrow> data \<Rightarrow> Hub \<Rightarrow> action list" where
  "Broadcast roomID eventType d h =
     map (\<lambda>c. CallSendEvent c eventType d) (connected h (members_of h roomID))"

section \<open>The notifier\<close>

definition Hub_RoundStarted :: "StartRoundOutput \<Rightarrow> action list" where
  "Hub_RoundStarted out = SendToPlayers (so_Members out) EventRoundStarted (RoundStarted_data (RoundStarted_payload out))"

definition pushBalances :: "string \<Rightarrow> string list \<Rightarrow> (string \<times> int64) list \<Rightarrow> string \<Rightarrow> action list" where
  "pushBalances roomID members balances reason =
     concat (map (\<lambda>playerID. case map_of balances playerID of
         None \<Rightarrow> []
       | Some balance \<Rightarrow> [CallSendToPlayer playerID EventBalanceUpdated (BalanceUpdated_data
           \<lparr>bu_PlayerID = playerID, bu_RoomID = roomID, bu_Balance = balance, bu_Reason = reason\<rparr>)]) members)"

definition Hub_RoundSettled :: "SettleRoundOutput \<Rightarrow> action list" where
  "Hub_RoundSettled out =
     SendToPlayers (se_Members out) EventRoundResult (RoundResult_data (RoundResult_payload out)) @
     pushBalances (se_RoomID out) (se_Members out) (se_Balances out)
       (if se_RoomClosed out then BalanceReasonRoomEnd else BalanceReasonRoundEnd) @
     (if se_RoomClosed out
      then SendToPlayers (se_Members out) EventRoomClosed
             (RoomClosed_data \<lparr>cp_RoomID = se_RoomID out, cp_Reason = se_CloseReason out\<rparr>) @
           [CallDetachRoom (se_RoomID out)]
      else [])"

definition Hub_RoomClosed :: "CloseRoomOutput \<Rightarrow> action list" where
  "Hub_RoomClosed out =
     (if \<not> co_Closed out then []
      else pushBalances (co_RoomID out) (co_Members out) (co_Balances out) BalanceReasonRoomEnd @
           SendToPlayers (co_Members out) EventRoomClosed
             (RoomClosed_data \<lparr>cp_RoomID = co_RoomID out, cp_Reason = co_Reason out\<rparr>) @
           [CallDetachRoom (co_RoomID out)])"

fun notice_actions :: "notice \<Rightarrow> action list" where
  "notice_actions (NotifyRoundStarted out) = Hub_RoundStarted out"
| "notice_actions (NotifyRoundSettled out) = Hub_RoundSettled out"
| "notice_actions (NotifyRoomClosed out) = Hub_RoomClosed out"

section \<open>Actions\<close>

text \<open>
  One atomic action: what it leaves to its goroutine and the new state.  The read pump returns when a
  read fails; the messages it hands to the session before that are a rule of the step relation.
\<close>

fun act :: "bool \<Rightarrow> action \<Rightarrow> Hub \<Rightarrow> action list \<times> Hub" where
  "act pick (CallSendToPlayer playerID eventType d) h = (SendToPlayer playerID eventType d h, h)"
| "act pick (CallBroadcast roomID eventType d) h = (Broadcast roomID eventType d h, h)"
| "act pick (CallSendEvent c eventType d) h = sendEvent pick c eventType d h"
| "act pick (CallClose c) h = ([], close c h)"
| "act pick (CallRegister c) h = register c h"
| "act pick (CallUnregister c) h = ([], unregister c h)"
| "act pick (CallAttachToRoom roomID playerID) h = ([], AttachToRoom roomID playerID h)"
| "act pick (CallDetachRoom roomID) h = DetachRoom roomID h"
| "act pick (CallRoom c roomID) h = (if sk_roomID (client h c) = roomID then [CallSetRoom c []] else [], h)"
| "act pick (CallSetRoom c roomID) h = ([], setRoom c roomID h)"
| "act pick (CallWritePump c) h = ([], set_client c (\<lambda>k. k\<lparr>sk_pump := Writing\<rparr>) h)"
| "act pick (CallReadPump c) h = ([CallUnregister c, CallClose c], h)"

text \<open>A goroutine that runs to its end without interference.\<close>

fun detaches :: "action \<Rightarrow> nat" where
  "detaches (CallDetachRoom _) = 1"
| "detaches (CallBroadcast _ _ _) = 1"
| "detaches _ = 0"

fun cost :: "action \<Rightarrow> nat" where
  "cost (CallSendToPlayer _ _ _) = 4"
| "cost (CallSendEvent _ _ _) = 3"
| "cost (CallRegister _) = 6"
| "cost (CallRoom _ _) = 3"
| "cost (CallReadPump _) = 5"
| "cost _ = 2"

function (sequential) run_actions :: "(action \<Rightarrow> Hub \<Rightarrow> bool) \<Rightarrow> action list \<Rightarrow> Hub \<Rightarrow> Hub" where
  "run_actions pick [] h = h"
| "run_actions pick (a # as) h = (case act (pick a h) a h of (todo, h') \<Rightarrow> run_actions pick (todo @ as) h')"
  by pat_completeness auto

lemma act_detaches: "act pick a h = (todo, h') \<Longrightarrow> detaches a = 0 \<Longrightarrow> sum_list (map detaches todo) = 0"
  by (cases a) (auto simp: SendToPlayer_def sendEvent_def enqueue_def register_def sendError_def Let_def
      split: option.splits if_splits)

lemma act_detaches_less:
  "act pick a h = (todo, h') \<Longrightarrow> detaches a \<noteq> 0 \<Longrightarrow> sum_list (map detaches todo) < detaches a"
  by (cases a) (auto simp: DetachRoom_def Broadcast_def comp_def)

lemma act_cost: "act pick a h = (todo, h') \<Longrightarrow> detaches a = 0 \<Longrightarrow> sum_list (map cost todo) < cost a"
  by (cases a) (auto simp: SendToPlayer_def sendEvent_def enqueue_def register_def sendError_def Let_def
      split: option.splits if_splits)


termination run_actions
proof (relation "measures [\<lambda>(pick, as, h). sum_list (map detaches as), \<lambda>(pick, as, h). sum_list (map cost as)]", goal_cases)
  case (2 pick a as h todo h')
  then show ?case
    using act_detaches [of "pick a h" a h todo h'] act_detaches_less [of "pick a h" a h todo h'] act_cost [of "pick a h" a h todo h']
    by (cases "detaches a = 0") auto
qed simp

end
