(* ===== verification/Hub_Safety.thy ===== *)
theory Hub_Safety
  imports Ws_Hub
begin

text \<open>
  The hub under every interleaving: the step relation of its goroutines and write pumps, and
  its invariant.  The index of clients points to a socket of the right player, no queue exceeds its
  buffer, a balance is only ever queued for the player it belongs to, and a socket that is still open
  without being the current one of its player has a pending close.
\<close>

section \<open>Steps\<close>

type_synonym hub_state = "Hub \<times> action list list"

text \<open>
  \<open>says h c out\<close>: on a message the session of socket \<open>c\<close> may perform the actions \<open>out\<close>.  One connection is one
  goroutine: it registers the client, starts the write pump and reads until the peer is gone.
\<close>

inductive hub_step :: "(Hub \<Rightarrow> nat \<Rightarrow> action list \<Rightarrow> bool) \<Rightarrow> hub_state \<Rightarrow> hub_state \<Rightarrow> bool"
  for says :: "Hub \<Rightarrow> nat \<Rightarrow> action list \<Rightarrow> bool" where
  hs_act: "i < length ts \<Longrightarrow> ts ! i = a # as \<Longrightarrow> act pick a h = (todo, h') \<Longrightarrow>
    hub_step says (h, ts) (h', ts[i := todo @ as])"
| hs_message: "i < length ts \<Longrightarrow> ts ! i = CallReadPump c # as \<Longrightarrow> says h c out \<Longrightarrow>
    hub_step says (h, ts) (h, ts[i := out @ CallReadPump c # as])"
| hs_connect: "c = length (hb_heap h) \<Longrightarrow>
    hub_step says (h, ts) (h\<lparr>hb_heap := hb_heap h @ [newClient playerID]\<rparr>,
      ts @ [[CallRegister c, CallWritePump c, CallReadPump c]])"
| hs_notice: "hub_step says (h, ts) (h, ts @ [notice_actions n])"
| hs_pump: "c < length (hb_heap h) \<Longrightarrow> writePump ok pc (client h c) = Some k \<Longrightarrow>
    hub_step says (h, ts) (set_client c (\<lambda>_. k) h, ts)"

definition hub_init :: "hub_state \<Rightarrow> bool" where
  "hub_init s \<longleftrightarrow> s = (NewHub, [])"

section \<open>The invariant\<close>

fun data_for :: "string \<Rightarrow> data \<Rightarrow> bool" where
  "data_for playerID (BalanceUpdated_data b) = (bu_PlayerID b = playerID)"
| "data_for playerID _ = True"

text \<open>The event name that goes with each kind of payload.\<close>

fun event_of :: "data \<Rightarrow> string" where
  "event_of (RoomState_data _) = EventRoomState"
| "event_of (RoundStarted_data _) = EventRoundStarted"
| "event_of (BetAccepted_data _) = EventBetAccepted"
| "event_of (RoundResult_data _) = EventRoundResult"
| "event_of (BalanceUpdated_data _) = EventBalanceUpdated"
| "event_of (RoomClosed_data _) = EventRoomClosed"
| "event_of (Error_data _) = EventError"

definition frame_for :: "string \<Rightarrow> string \<Rightarrow> data \<Rightarrow> bool" where
  "frame_for playerID eventType d \<longleftrightarrow> data_for playerID d \<and> eventType = event_of d"

lemma frame_for_intros [simp]:
  "frame_for p EventRoomState (RoomState_data a)" "frame_for p EventRoundStarted (RoundStarted_data b)"
  "frame_for p EventBetAccepted (BetAccepted_data c)" "frame_for p EventRoundResult (RoundResult_data e)"
  "frame_for p EventRoomClosed (RoomClosed_data f)" "frame_for p EventError (Error_data g)"
  "frame_for p EventBalanceUpdated (BalanceUpdated_data h) \<longleftrightarrow> bu_PlayerID h = p"
  by (simp_all add: frame_for_def)

definition client_ok :: "Client \<Rightarrow> bool" where
  "client_ok k \<longleftrightarrow> length (sk_send k) \<le> sendBuffer \<and>
     (\<forall>f \<in> set (sk_written k) \<union> set (sk_send k). frame_for (sk_playerID k) (ob_Type f) (ob_Data f)) \<and>
     (sk_pump k = Stopped \<longrightarrow> sk_closed k)"

definition hub_ok :: "Hub \<Rightarrow> bool" where
  "hub_ok h \<longleftrightarrow>
     (\<forall>p c. map_of (hb_clients h) p = Some c \<longrightarrow> c < length (hb_heap h) \<and> p = sk_playerID (client h c)) \<and>
     (\<forall>k \<in> set (hb_heap h). client_ok k)"

lemma hub_okI:
  assumes "\<And>p c. map_of (hb_clients h) p = Some c \<Longrightarrow> c < length (hb_heap h)"
    and "\<And>p c. map_of (hb_clients h) p = Some c \<Longrightarrow> sk_playerID (client h c) = p"
    and "\<And>k. k \<in> set (hb_heap h) \<Longrightarrow> client_ok k"
  shows "hub_ok h"
  unfolding hub_ok_def using assms by metis

lemma hub_okD:
  assumes "hub_ok h" and "map_of (hb_clients h) p = Some c"
  shows "c < length (hb_heap h)" and "sk_playerID (client h c) = p"
  using assms unfolding hub_ok_def by metis+

text \<open>The call is for a socket that exists, and carries no balance of another player.\<close>

fun action_ok :: "Hub \<Rightarrow> action \<Rightarrow> bool" where
  "action_ok h (CallSendToPlayer p eventType d) = frame_for p eventType d"
| "action_ok h (CallBroadcast roomID eventType d) = (\<forall>p. frame_for p eventType d)"
| "action_ok h (CallSendEvent c eventType d) = (c < length (hb_heap h) \<and> frame_for (sk_playerID (client h c)) eventType d)"
| "action_ok h (CallAttachToRoom roomID p) = True"
| "action_ok h (CallDetachRoom roomID) = True"
| "action_ok h (CallClose c) = (c < length (hb_heap h))"
| "action_ok h (CallRegister c) = (c < length (hb_heap h))"
| "action_ok h (CallUnregister c) = (c < length (hb_heap h))"
| "action_ok h (CallRoom c roomID) = (c < length (hb_heap h))"
| "action_ok h (CallSetRoom c roomID) = (c < length (hb_heap h))"
| "action_ok h (CallWritePump c) = (c < length (hb_heap h))"
| "action_ok h (CallReadPump c) = (c < length (hb_heap h))"

text \<open>Sockets are never forgotten by the heap and keep their player; \<open>closed\<close> is final.\<close>

definition keeps_clients :: "Hub \<Rightarrow> Hub \<Rightarrow> bool" where
  "keeps_clients h h' \<longleftrightarrow> length (hb_heap h) \<le> length (hb_heap h') \<and>
     (\<forall>c < length (hb_heap h). sk_playerID (client h' c) = sk_playerID (client h c) \<and>
        (sk_closed (client h c) \<longrightarrow> sk_closed (client h' c)))"

lemma keeps_clients_refl [simp]: "keeps_clients h h"
  by (simp add: keeps_clients_def)

lemma keeps_clients_index [simp]:
  "keeps_clients h (h'\<lparr>hb_clients := m\<rparr>) = keeps_clients h h'" "keeps_clients h (h'\<lparr>hb_rooms := r\<rparr>) = keeps_clients h h'"
  by (simp_all add: keeps_clients_def)

lemma keeps_set_client:
  assumes "sk_playerID (f (client h c)) = sk_playerID (client h c)" and "sk_closed (client h c) \<longrightarrow> sk_closed (f (client h c))"
  shows "keeps_clients h (set_client c f h)"
  using assms by (cases "c < length (hb_heap h)") (auto simp: keeps_clients_def set_client_def nth_list_update)

lemma action_ok_keeps: "action_ok h a \<Longrightarrow> keeps_clients h h' \<Longrightarrow> action_ok h' a"
  by (cases a) (auto simp: keeps_clients_def)

lemma hub_ok_set_client:
  assumes "hub_ok h" and "sk_playerID (f (client h c)) = sk_playerID (client h c)"
    and "client_ok (client h c) \<Longrightarrow> client_ok (f (client h c))" and "c < length (hb_heap h)"
  shows "hub_ok (set_client c f h)"
proof -
  have "client_ok (f (client h c))"
    using assms by (auto simp: hub_ok_def)
  with assms show ?thesis
    by (auto simp: hub_ok_def set_client_def nth_list_update dest!: set_update_subset_insert [THEN subsetD])
qed

lemma hub_ok_rooms [simp]: "hub_ok (h\<lparr>hb_rooms := r\<rparr>) = hub_ok h"
  by (simp add: hub_ok_def)

lemma hub_ok_register:
  "hub_ok h \<Longrightarrow> c < length (hb_heap h) \<Longrightarrow>
   hub_ok (h\<lparr>hb_clients := AList.update (sk_playerID (client h c)) c (hb_clients h)\<rparr>)"
  by (auto simp: hub_ok_def update_conv')

lemma hub_ok_unregister:
  assumes "hub_ok h"
  shows "hub_ok (unregister c h)"
proof -
  let ?m = "hb_clients (unregister c h)"
  have "map_of ?m p = Some d \<Longrightarrow> map_of (hb_clients h) p = Some d" for p d
    by (cases "map_of (hb_clients h) (sk_playerID (client h c)) = Some c")
       (simp_all add: unregister_def Let_def delete_conv' split: if_split_asm)
  moreover have "hb_heap (unregister c h) = hb_heap h"
    by (simp add: unregister_def Let_def)
  ultimately show ?thesis
    using assms unfolding hub_ok_def by metis
qed

lemma connected_iff: "c \<in> set (connected h ps) \<longleftrightarrow> (\<exists>p \<in> set ps. map_of (hb_clients h) p = Some c)"
  unfolding connected_def by (induction ps) (simp_all split: option.split, metis option.inject option.discI)

lemma connected_ok: "hub_ok h \<Longrightarrow> c \<in> set (connected h ps) \<Longrightarrow> c < length (hb_heap h)"
  unfolding connected_iff hub_ok_def by blast

lemmas act_unfold = SendToPlayer_def Broadcast_def sendEvent_def enqueue_def register_def DetachRoom_def sendError_def
  AttachToRoom_def close_def setRoom_def Let_def

text \<open>Every action keeps the invariant and leaves good actions behind.\<close>

lemma act_keeps: "act pick a h = (todo, h') \<Longrightarrow> keeps_clients h h'"
  by (cases a) (auto simp: act_unfold unregister_def intro!: keeps_set_client split: option.splits if_splits)

lemma enqueue_ok:
  assumes "hub_ok h" and "c < length (hb_heap h)" and "frame_for (sk_playerID (client h c)) (ob_Type f) (ob_Data f)"
    and "enqueue pick c f h = (todo, h')"
  shows "hub_ok h'"
proof (cases "h' = h")
  case False
  with assms(4) have "h' = set_client c (\<lambda>k. k\<lparr>sk_send := sk_send k @ [f]\<rparr>) h" and "length (sk_send (client h c)) < sendBuffer"
    by (auto simp: enqueue_def Let_def split: if_splits)
  with assms show ?thesis
    by (auto simp: client_ok_def intro!: hub_ok_set_client)
qed (use assms in simp)

lemma act_hub_ok:
  assumes "hub_ok h" and "action_ok h a" and "act pick a h = (todo, h')"
  shows "hub_ok h'"
proof (cases a)
  case (CallSendEvent c ty d)
  with assms show ?thesis
    by (auto simp: sendEvent_def Marshal_def split: if_splits option.splits intro: enqueue_ok [where f = "\<lparr>ob_Type = ty, ob_Data = d\<rparr>"])
qed (use assms in \<open>auto simp: act_unfold client_ok_def hub_ok_unregister split: option.splits if_splits
  intro!: hub_ok_set_client hub_ok_register\<close>)

lemma act_todo_ok:
  assumes "hub_ok h" and "action_ok h a" and "act pick a h = (todo, h')" and "b \<in> set todo"
  shows "action_ok h' b"
proof -
  have k: "keeps_clients h h'"
    using assms(3) by (rule act_keeps)
  have "action_ok h b"
  proof (cases a)
    case (CallSendToPlayer p ty d)
    with assms show ?thesis using hub_okD [OF assms(1), of p] by (auto simp: SendToPlayer_def split: option.split_asm)
  next
    case (CallBroadcast r ty d)
    with assms show ?thesis by (auto simp: Broadcast_def) (metis connected_ok)
  next
    case (CallRegister c)
    with assms show ?thesis using hub_okD [OF assms(1), of "sk_playerID (client h c)"]
      by (auto simp: register_def sendError_def Let_def split: option.split_asm if_split_asm)
  next
    case (CallDetachRoom r)
    with assms show ?thesis by (auto simp: DetachRoom_def) (metis connected_ok)
  qed (use assms in \<open>auto simp: act_unfold split: option.splits if_splits\<close>)
  then show ?thesis using k by (rule action_ok_keeps)
qed

lemma notice_ok: "b \<in> set (notice_actions n) \<Longrightarrow> action_ok h b"
  by (cases n) (auto simp: Hub_RoundStarted_def Hub_RoundSettled_def Hub_RoomClosed_def SendToPlayers_def pushBalances_def
      split: option.splits if_splits)

lemma writePump_ok:
  assumes "writePump ok pc k = Some k'" and "client_ok k"
  shows "client_ok k'" and "sk_playerID k' = sk_playerID k" and "sk_closed k \<Longrightarrow> sk_closed k'"
  using assms
  by (cases pc; auto simp: client_ok_def drain_def pump_return_def split: if_splits list.splits)+

section \<open>Open sockets\<close>

text \<open>A goroutine that unregisters a socket closes it afterwards.\<close>

fun paired :: "action list \<Rightarrow> bool" where
  "paired [] = True"
| "paired (CallUnregister c # as) = (CallClose c \<in> set as \<and> paired as)"
| "paired (_ # as) = paired as"

lemma paired_append: "paired xs \<Longrightarrow> paired ys \<Longrightarrow> paired (xs @ ys)"
  by (induction xs rule: paired.induct) auto

lemma paired_free: "(\<And>c. CallUnregister c \<notin> set as) \<Longrightarrow> paired as"
  by (induction as rule: paired.induct) auto

lemma paired_act: "act pick a h = (todo, h') \<Longrightarrow> paired todo"
proof (cases a)
  case (CallReadPump c)
  then show "act pick a h = (todo, h') \<Longrightarrow> paired todo" by auto
qed (auto simp: act_unfold split: option.splits if_splits intro!: paired_free)

lemma paired_notice: "paired (notice_actions n)"
  by (cases n; intro paired_free)
     (auto simp: Hub_RoundStarted_def Hub_RoundSettled_def Hub_RoomClosed_def SendToPlayers_def pushBalances_def
      split: option.splits if_splits)

lemma paired_tl: "paired (a # as) \<Longrightarrow> paired as"
  by (cases a) auto

definition pending :: "action \<Rightarrow> action list list \<Rightarrow> bool" where
  "pending a ts \<longleftrightarrow> (\<exists>as \<in> set ts. a \<in> set as)"

text \<open>A socket that is open is the current one of its player, or about to be registered or closed.\<close>

definition open_ok :: "hub_state \<Rightarrow> bool" where
  "open_ok s \<longleftrightarrow> (case s of (h, ts) \<Rightarrow> \<forall>c < length (hb_heap h). \<not> sk_closed (client h c) \<longrightarrow>
     map_of (hb_clients h) (sk_playerID (client h c)) = Some c \<or> pending (CallClose c) ts \<or> pending (CallRegister c) ts)"

definition hub_inv :: "hub_state \<Rightarrow> bool" where
  "hub_inv s \<longleftrightarrow> hub_ok (fst s) \<and> (\<forall>as \<in> set (snd s). paired as \<and> list_all (action_ok (fst s)) as) \<and> open_ok s"

text \<open>What a session may do: talk, but never about balances, and attach its own player.\<close>

fun session_action :: "Hub \<Rightarrow> nat \<Rightarrow> action \<Rightarrow> bool" where
  "session_action h c (CallSendToPlayer p eventType d) = (\<forall>p. frame_for p eventType d)"
| "session_action h c (CallSendEvent c' eventType d) = (c' = c \<and> (\<forall>p. frame_for p eventType d))"
| "session_action h c (CallSetRoom c' roomID) = (c' = c)"
| "session_action h c (CallAttachToRoom roomID p) = (p = sk_playerID (client h c))"
| "session_action h c _ = False"

lemma session_action_ok: "session_action h c a \<Longrightarrow> c < length (hb_heap h) \<Longrightarrow> action_ok h a"
  by (cases a) auto

lemma session_paired: "list_all (session_action h c) as \<Longrightarrow> paired as"
  by (intro paired_free) (auto simp: list_all_iff)

section \<open>Preservation\<close>

lemma act_length: "act pick a h = (todo, h') \<Longrightarrow> length (hb_heap h') = length (hb_heap h)"
  by (cases a) (auto simp: act_unfold set_client_def unregister_def split: option.splits if_splits)

lemma act_index:
  assumes "act pick a h = (todo, h')" and "\<And>c. a \<noteq> CallRegister c" and "\<And>c. a \<noteq> CallUnregister c"
  shows "hb_clients h' = hb_clients h"
  using assms by (cases a) (auto simp: act_unfold set_client_def split: option.splits if_splits)

lemma act_open:
  assumes step: "act pick a h = (todo, h')" and pr: "paired (a # as)" and c: "c < length (hb_heap h)"
    and op: "\<not> sk_closed (client h' c)"
    and cur: "map_of (hb_clients h) (sk_playerID (client h c)) = Some c \<or> a = CallClose c \<or> a = CallRegister c"
  shows "map_of (hb_clients h') (sk_playerID (client h' c)) = Some c \<or> CallClose c \<in> set (todo @ as)"
proof -
  have pl: "sk_playerID (client h' c) = sk_playerID (client h c)"
    using act_keeps [OF step] c by (simp add: keeps_clients_def)
  show ?thesis
  proof (cases a)
    case (CallRegister d)
    then show ?thesis
      using step cur unfolding pl
      by (auto simp: register_def sendError_def Let_def update_conv' split: option.split_asm if_split_asm)
  next
    case (CallUnregister d)
    then have h': "h' = unregister d h" using step by simp
    show ?thesis
      using CallUnregister cur pr unfolding pl h'
      by (cases "d = c"; cases "map_of (hb_clients h) (sk_playerID (client h d)) = Some d";
          cases "sk_playerID (client h d) = sk_playerID (client h c)") (simp_all add: unregister_def Let_def delete_conv')
  next
    case (CallClose d)
    then show ?thesis
      using step cur op c unfolding pl by (auto simp: close_def set_client_def nth_list_update split: if_split_asm)
  qed (use cur act_index [OF step] in \<open>simp_all add: pl\<close>)
qed

lemma pending_update:
  assumes "i < length ts" and "ts ! i = a # as" and "pending b ts" and "b \<noteq> a"
  shows "pending b (ts[i := todo @ as])"
proof -
  from assms(3) obtain j where j: "j < length ts" "b \<in> set (ts ! j)"
    unfolding pending_def by (metis in_set_conv_nth)
  show ?thesis
  proof (cases "j = i")
    case True
    then have "b \<in> set (todo @ as)" using assms j by simp
    then show ?thesis using set_update_memI [OF assms(1)] unfolding pending_def by blast
  next
    case False
    then have "ts[i := todo @ as] ! j = ts ! j" and "j < length (ts[i := todo @ as])" using j by simp_all
    then show ?thesis using j(2) unfolding pending_def by (metis nth_mem)
  qed
qed

lemma pending_here: "i < length ts \<Longrightarrow> b \<in> set as \<Longrightarrow> pending b (ts[i := as])"
  by (auto simp: pending_def intro!: set_update_memI)

lemma pending_append [simp]: "pending b (ts @ [as]) \<longleftrightarrow> pending b ts \<or> b \<in> set as"
  by (auto simp: pending_def)

lemma hub_inv_act:
  assumes inv: "hub_inv (h, ts)" and i: "i < length ts" "ts ! i = a # as" and step: "act pick a h = (todo, h')"
  shows "hub_inv (h', ts[i := todo @ as])"
proof -
  have ok: "hub_ok h" and mem: "a # as \<in> set ts" and op: "open_ok (h, ts)"
    using inv i by (auto simp: hub_inv_def) (metis nth_mem)
  have pr: "paired (a # as)" and aok: "action_ok h a" "list_all (action_ok h) as"
    using inv mem by (auto simp: hub_inv_def)
  have k: "keeps_clients h h'" using step by (rule act_keeps)
  have old: "paired bs \<and> list_all (action_ok h') bs" if "bs \<in> set ts" for bs
    using inv that action_ok_keeps [OF _ k] by (auto simp: hub_inv_def list_all_iff)
  have new: "paired (todo @ as) \<and> list_all (action_ok h') (todo @ as)"
    using paired_act [OF step] pr act_todo_ok [OF ok aok(1) step] old [OF mem]
    by (auto simp: list_all_iff intro: paired_append dest: paired_tl)
  have "open_ok (h', ts[i := todo @ as])"
    unfolding open_ok_def prod.case
  proof (intro allI impI)
    fix c assume c: "c < length (hb_heap h')" and o: "\<not> sk_closed (client h' c)"
    have ch: "c < length (hb_heap h)" using c act_length [OF step] by simp
    then have "\<not> sk_closed (client h c)" using o k by (auto simp: keeps_clients_def)
    with op ch have d: "map_of (hb_clients h) (sk_playerID (client h c)) = Some c \<or> pending (CallClose c) ts \<or> pending (CallRegister c) ts"
      by (auto simp: open_ok_def)
    show "map_of (hb_clients h') (sk_playerID (client h' c)) = Some c \<or> pending (CallClose c) (ts[i := todo @ as]) \<or>
        pending (CallRegister c) (ts[i := todo @ as])"
      using d act_open [OF step pr ch o] pending_update [OF i] pending_here [OF i(1), of _ "todo @ as"] by metis
  qed
  with act_hub_ok [OF ok aok(1) step] old new show ?thesis
    by (auto simp: hub_inv_def dest!: set_update_subset_insert [THEN subsetD])
qed

lemma hub_inv_pump:
  assumes inv: "hub_inv (h, ts)" and c: "c < length (hb_heap h)" and step: "writePump ok pc (client h c) = Some k"
  shows "hub_inv (set_client c (\<lambda>_. k) h, ts)"
proof -
  have ok: "hub_ok h" using inv by (simp add: hub_inv_def)
  then have cok: "client_ok (client h c)" using c by (simp add: hub_ok_def)
  note w = writePump_ok [OF step cok]
  have k: "keeps_clients h (set_client c (\<lambda>_. k) h)" by (rule keeps_set_client) (use w in auto)
  have "open_ok (set_client c (\<lambda>_. k) h, ts)"
    using inv k unfolding hub_inv_def open_ok_def keeps_clients_def
    by (simp add: set_client_def) metis
  moreover have "list_all (action_ok (set_client c (\<lambda>_. k) h)) as" if "as \<in> set ts" for as
    using inv that action_ok_keeps [OF _ k] by (auto simp: hub_inv_def list_all_iff)
  ultimately show ?thesis
    using inv ok w c by (simp add: hub_inv_def hub_ok_set_client)
qed

lemma keeps_new_client: "keeps_clients h (h\<lparr>hb_heap := hb_heap h @ [k]\<rparr>)"
  by (simp add: keeps_clients_def nth_append)

lemma hub_inv_connect:
  assumes inv: "hub_inv (h, ts)"
  shows "hub_inv (h\<lparr>hb_heap := hb_heap h @ [newClient p]\<rparr>,
    ts @ [[CallRegister (length (hb_heap h)), CallWritePump (length (hb_heap h)), CallReadPump (length (hb_heap h))]])"
proof -
  let ?h = "h\<lparr>hb_heap := hb_heap h @ [newClient p]\<rparr>"
  have ok: "hub_ok h" using inv by (simp add: hub_inv_def)
  have "hub_ok ?h"
  proof (rule hub_okI)
    fix q c assume "map_of (hb_clients ?h) q = Some c"
    then have m: "map_of (hb_clients h) q = Some c" by simp
    show "c < length (hb_heap ?h)" using hub_okD(1) [OF ok m] by simp
    show "sk_playerID (client ?h c) = q" using hub_okD [OF ok m] by (simp add: nth_append)
  next
    fix k assume "k \<in> set (hb_heap ?h)"
    then show "client_ok k" using ok by (auto simp: hub_ok_def client_ok_def newClient_def)
  qed
  moreover have "list_all (action_ok ?h) as" if "as \<in> set ts" for as
    using inv that action_ok_keeps [OF _ keeps_new_client] by (auto simp: hub_inv_def list_all_iff)
  ultimately show ?thesis
    using inv by (auto simp: hub_inv_def open_ok_def nth_append less_Suc_eq)
qed

section \<open>Every interleaving\<close>

text \<open>
  The contract of the session layer: on a message a session only performs session actions.  Under
  it the invariant holds in every reachable state of the hub.
\<close>

locale session_layer =
  fixes says :: "Hub \<Rightarrow> nat \<Rightarrow> action list \<Rightarrow> bool"
  assumes says_ok: "says h c out \<Longrightarrow> list_all (session_action h c) out"
begin

lemma hub_inv_message:
  assumes inv: "hub_inv (h, ts)" and i: "i < length ts" "ts ! i = CallReadPump c # as" and s: "says h c out"
  shows "hub_inv (h, ts[i := out @ CallReadPump c # as])"
proof -
  have mem: "CallReadPump c # as \<in> set ts" using i nth_mem by metis
  then have c: "c < length (hb_heap h)" and pr: "paired (CallReadPump c # as)" and aok: "list_all (action_ok h) (CallReadPump c # as)"
    using inv by (auto simp: hub_inv_def)
  have o: "list_all (action_ok h) out" "paired out"
    using says_ok [OF s] session_action_ok [OF _ c] by (auto simp: list_all_iff dest: session_paired [unfolded list_all_iff])
  have "pending b ts \<Longrightarrow> pending b (ts[i := out @ CallReadPump c # as])" for b
    using pending_update [OF i, of b "out @ [CallReadPump c]"] pending_here [OF i(1), of "CallReadPump c" "out @ CallReadPump c # as"]
    by (cases "b = CallReadPump c") auto
  with inv have "open_ok (h, ts[i := out @ CallReadPump c # as])" by (auto simp: hub_inv_def open_ok_def)
  with inv o pr aok show ?thesis
    by (auto simp: hub_inv_def dest!: set_update_subset_insert [THEN subsetD] intro!: paired_append)
qed

lemma hub_inv_init: "hub_init s \<Longrightarrow> hub_inv s"
  by (simp add: hub_init_def hub_inv_def NewHub_def hub_ok_def open_ok_def)

lemma hub_inv_step:
  assumes inv: "hub_inv s" and step: "hub_step says s s'"
  shows "hub_inv s'"
  using step
proof cases
  case (hs_notice h ts n)
  with inv show ?thesis
    by (auto simp: hub_inv_def open_ok_def list_all_iff paired_notice notice_ok)
qed (use inv in \<open>auto intro: hub_inv_act hub_inv_message hub_inv_connect hub_inv_pump\<close>)

end

sublocale session_layer \<subseteq> hub: step_invariant hub_init "hub_step says" hub_inv
  by unfold_locales (fact hub_inv_init, fact hub_inv_step)

end
