(* ===== verification/Ws_Session.thy ===== *)
theory Ws_Session
  imports Audit_Trail App_Auth Hub_Safety
begin

text \<open>
  The socket endpoint, \<open>internal/interfaces/ws/handler.go\<close>, \<open>audit.go\<close> and \<open>upgrader.go\<close>: the handshake, the
  first message that may carry the token, and the router of a session.

  The dependencies of the handler are the fields of \<open>HandlerOptions\<close>, as in the source, over a state \<open>'s\<close> that
  stands for everything behind them.  Deadlines have no effect on the state.  A handler returns what it does to
  the hub as a list of actions for its goroutine, in the order of the code.
\<close>

section \<open>Dependencies\<close>

type_synonym ('s, 'a) call = "'s \<Rightarrow> (error + 'a) \<times> 's"

record 's HandlerOptions =
  ho_Verify :: "string \<Rightarrow> ('s, Claims) call"
  ho_Join :: "string \<Rightarrow> string \<Rightarrow> ('s, JoinRoomOutput) call"
  ho_State :: "string \<Rightarrow> ('s, RoomState) call"
  ho_StartRound :: "string \<Rightarrow> string \<Rightarrow> ('s, StartRoundOutput) call"
  ho_PlaceBet :: "string \<Rightarrow> string \<Rightarrow> Choice \<Rightarrow> int64 \<Rightarrow> ('s, PlaceBetOutput) call"
  ho_audited :: bool
  ho_Append :: "Entry \<Rightarrow> ('s, unit) call"
  ho_Now :: "'s \<Rightarrow> time \<times> 's"
  ho_NewID :: "'s \<Rightarrow> string \<times> 's"
  ho_float :: "string \<Rightarrow> string option"

section \<open>Connection tuning and origins\<close>

definition WriteWait :: duration where "WriteWait = 10 * Second"
definition PongWait :: duration where "PongWait = 60 * Second"
definition PingPeriod :: duration where "PingPeriod = (PongWait * 9) div 10"
definition MaxMessageSize :: nat where "MaxMessageSize = 8 * 1024"

definition AllowOrigins :: "string list \<Rightarrow> string \<Rightarrow> bool" where
  "AllowOrigins allowed origin = (if origin = [] then True else origin \<in> set allowed)"

section \<open>Messages\<close>

record inbound =
  ib_Type :: string
  ib_Data :: "json option"

fun put_inbound :: "string \<Rightarrow> json \<Rightarrow> inbound \<Rightarrow> inbound option" where
  "put_inbound f v msg =
     (if f = ''type'' then map_option (\<lambda>s. msg\<lparr>ib_Type := s\<rparr>) (as_string v (ib_Type msg))
      else Some (msg\<lparr>ib_Data := Some v\<rparr>))"

definition decode_inbound :: "string \<Rightarrow> inbound option" where
  "decode_inbound raw =
     (case json_text raw of
        None \<Rightarrow> None
      | Some v \<Rightarrow> decode_struct False [''type'', ''data''] put_inbound v \<lparr>ib_Type = [], ib_Data = None\<rparr>)"

text \<open>The three request payloads; \<open>decode\<close> refuses a message without data.\<close>

definition decode_auth :: "json \<Rightarrow> string option" where
  "decode_auth v = decode_struct False [''token''] (\<lambda>f v tok. as_string v tok) v []"

definition decode_join :: "json option \<Rightarrow> ws_error + string" where
  "decode_join data =
     (case data of
        None \<Rightarrow> Inl errMalformedMessage
      | Some v \<Rightarrow>
          (case decode_struct False [''room_id''] (\<lambda>f v r. as_string v r) v [] of
             None \<Rightarrow> Inl errMalformedMessage
           | Some roomID \<Rightarrow> Inr roomID))"

record betData =
  bd_Choice :: string
  bd_Amount :: int64

fun put_bet :: "string \<Rightarrow> json \<Rightarrow> betData \<Rightarrow> betData option" where
  "put_bet f v b =
     (if f = ''choice'' then map_option (\<lambda>s. b\<lparr>bd_Choice := s\<rparr>) (as_string v (bd_Choice b))
      else map_option (\<lambda>n. b\<lparr>bd_Amount := n\<rparr>) (as_int64 v (bd_Amount b)))"

definition decode_bet :: "json option \<Rightarrow> ws_error + betData" where
  "decode_bet data =
     (case data of
        None \<Rightarrow> Inl errMalformedMessage
      | Some v \<Rightarrow>
          (case decode_struct False [''choice'', ''amount''] put_bet v \<lparr>bd_Choice = [], bd_Amount = 0\<rparr> of
             None \<Rightarrow> Inl errMalformedMessage
           | Some b \<Rightarrow> Inr b))"

section \<open>Audit\<close>

text \<open>\<open>writeAudit\<close>: a failure to build or to store the entry is only logged.\<close>

definition redacted_value :: "(string \<Rightarrow> string option) \<Rightarrow> json option \<Rightarrow> json option" where
  "redacted_value fl data =
     (case data of
        None \<Rightarrow> None
      | Some v \<Rightarrow> if numbers_fit fl v then Some (redactValue (any_value fl v)) else None)"

definition writeAudit :: "'s HandlerOptions \<Rightarrow> string option \<Rightarrow> string \<Rightarrow> json option \<Rightarrow> ws_error option \<Rightarrow> 's \<Rightarrow> 's" where
  "writeAudit opts actorID event0 payload opErr s =
     (if \<not> ho_audited opts then s
      else
        let event = (if event0 = [] then ''ws.message'' else event0);
            (i, s) = ho_NewID opts s;
            (now, s) = ho_Now opts s in
        case NewEntry i now actorID ChannelWS event event None (map_option ws_error_text opErr)
               (redacted_value (ho_float opts) payload) of
          Inl _ \<Rightarrow> s
        | Inr entry \<Rightarrow> snd (ho_Append opts entry s))"

section \<open>Handshake\<close>

definition bearerPrefix :: string where
  "bearerPrefix = ''Bearer ''"

record handshake =
  hk_query_token :: string
  hk_Authorization :: string

definition TrimPrefix :: "string \<Rightarrow> string \<Rightarrow> string" where
  "TrimPrefix s p = (if prefix p s then drop (length p) s else s)"

definition handshakeToken :: "handshake \<Rightarrow> string" where
  "handshakeToken r =
     (let token = TrimSpace (hk_query_token r) in
      if token \<noteq> [] then token
      else if prefix bearerPrefix (hk_Authorization r) then TrimSpace (TrimPrefix (hk_Authorization r) bearerPrefix)
      else [])"

text \<open>The first frame, or none when the read fails.\<close>

definition awaitAuthMessage :: "'s HandlerOptions \<Rightarrow> string option \<Rightarrow> 's \<Rightarrow> (ws_error + Claims) \<times> 's" where
  "awaitAuthMessage opts frame s =
     (case frame of
        None \<Rightarrow> (Inl ws_error.errUnauthenticated, s)
      | Some raw \<Rightarrow>
          (case decode_inbound raw of
             None \<Rightarrow> (Inl ws_error.errUnauthenticated, s)
           | Some msg \<Rightarrow>
               if ib_Type msg \<noteq> EventAuth then (Inl ws_error.errUnauthenticated, s)
               else
                 (case ib_Data msg of
                    None \<Rightarrow> (Inl ws_error.errUnauthenticated, s)
                  | Some v \<Rightarrow>
                      (case decode_auth v of
                         None \<Rightarrow> (Inl ws_error.errUnauthenticated, s)
                       | Some token \<Rightarrow>
                           if TrimSpace token = [] then (Inl ws_error.errUnauthenticated, s)
                           else
                             (case ho_Verify opts token s of
                                (Inl _, s) \<Rightarrow> (Inl ws_error.errUnauthenticated, s)
                              | (Inr claims, s) \<Rightarrow> (Inr claims, s))))))"

text \<open>
  How a connection attempt ends: refused with 401 before the upgrade, not upgraded, closed with an
  error frame, or accepted for a player.
\<close>

datatype connection = Refused | NotUpgraded | Dropped outbound | Accepted string

definition unauthorized_frame :: outbound where
  "unauthorized_frame = \<lparr>ob_Type = EventError, ob_Data = Error_data
     \<lparr>ep_Code = ''unauthorized'', ep_Message = ''authentication is required'', ep_Event = EventAuth\<rparr>\<rparr>"

definition serve_ws :: "'s HandlerOptions \<Rightarrow> handshake \<Rightarrow> bool \<Rightarrow> string option \<Rightarrow> 's \<Rightarrow> connection \<times> 's" where
  "serve_ws opts r upgrades frame s =
     (let token = handshakeToken r;
          (verified, s) = (if token \<noteq> [] then (case ho_Verify opts token s of (c, s) \<Rightarrow> (Some c, s)) else (None, s)) in
      case verified of
        Some (Inl _) \<Rightarrow> (Refused, writeAudit opts None ''ws.connect'' None (Some ws_error.errUnauthenticated) s)
      | _ \<Rightarrow>
          if \<not> upgrades then (NotUpgraded, s)
          else
            let playerID = (case verified of Some (Inr claims) \<Rightarrow> cl_PlayerID claims | _ \<Rightarrow> []);
                (auth, s) = (if playerID = [] then awaitAuthMessage opts frame s
                             else (case verified of Some (Inr claims) \<Rightarrow> (Inr claims, s) | _ \<Rightarrow> (Inl ws_error.errUnauthenticated, s))) in
            case auth of
              Inl err \<Rightarrow> (Dropped unauthorized_frame, writeAudit opts None ''ws.connect'' None (Some err) s)
            | Inr claims \<Rightarrow>
                (Accepted (cl_PlayerID claims), writeAudit opts (Some (cl_PlayerID claims)) ''ws.connect'' None None s))"

section \<open>The session\<close>

fun containsID :: "string list \<Rightarrow> string \<Rightarrow> bool" where
  "containsID [] i = False"
| "containsID (candidate # ids) i = (if candidate = i then True else containsID ids i)"

definition session_join :: "'s HandlerOptions \<Rightarrow> nat \<Rightarrow> string \<Rightarrow> json option \<Rightarrow> 's \<Rightarrow> ws_error option \<times> action list \<times> 's" where
  "session_join opts c playerID data s =
     (case decode_join data of
        Inl err \<Rightarrow> (Some err, [], s)
      | Inr roomID \<Rightarrow>
          if TrimSpace roomID = [] then (Some (WsApp (GameErr game_error.ErrInvalidID)), [], s)
          else
            (case ho_Join opts roomID playerID s of
               (Inl err, s) \<Rightarrow> (Some (WsApp err), [], s)
             | (Inr out, s) \<Rightarrow>
                 let joined = su_ID (jo_Room out);
                     attach = [CallSetRoom c joined, CallAttachToRoom joined playerID] in
                 case ho_State opts joined s of
                   (Inl err, s) \<Rightarrow> (Some (WsApp err), attach, s)
                 | (Inr state, s) \<Rightarrow>
                     let payload = RoomState_data (roomStatePayload state) in
                     (None, attach @ SendToPlayers (st_Players state) EventRoomState payload @
                        (if \<not> containsID (st_Players state) playerID then [CallSendEvent c EventRoomState payload] else []), s)))"

definition session_startRound :: "'s HandlerOptions \<Rightarrow> string \<Rightarrow> string \<Rightarrow> 's \<Rightarrow> ws_error option \<times> action list \<times> 's" where
  "session_startRound opts playerID roomID s =
     (if roomID = [] then (Some (WsApp (AppErr ErrNotInRoom)), [], s)
      else
        (case ho_StartRound opts roomID playerID s of
           (Inl err, s) \<Rightarrow> (Some (WsApp err), [], s)
         | (Inr _, s) \<Rightarrow> (None, [], s)))"

definition session_placeBet :: "'s HandlerOptions \<Rightarrow> nat \<Rightarrow> string \<Rightarrow> string \<Rightarrow> json option \<Rightarrow> 's \<Rightarrow> ws_error option \<times> action list \<times> 's" where
  "session_placeBet opts c playerID roomID data s =
     (if roomID = [] then (Some (WsApp (AppErr ErrNotInRoom)), [], s)
      else
        (case decode_bet data of
           Inl err \<Rightarrow> (Some err, [], s)
         | Inr req \<Rightarrow>
             (case ParseChoice (bd_Choice req) of
                Inl err \<Rightarrow> (Some (WsApp err), [], s)
              | Inr choice \<Rightarrow>
                  (case ho_PlaceBet opts roomID playerID choice (bd_Amount req) s of
                     (Inl err, s) \<Rightarrow> (Some (WsApp err), [], s)
                   | (Inr out, s) \<Rightarrow>
                       (None, [CallSendEvent c EventBetAccepted (BetAccepted_data (BetAccepted_payload out))], s)))))"

text \<open>One message of the socket \<open>c\<close> of player \<open>playerID\<close>, which has joined \<open>roomID\<close> (or nothing).\<close>

definition route :: "'s HandlerOptions \<Rightarrow> nat \<Rightarrow> string \<Rightarrow> string \<Rightarrow> inbound \<Rightarrow> 's \<Rightarrow> ws_error option \<times> action list \<times> 's" where
  "route opts c playerID roomID msg s =
     (if ib_Type msg = EventRoomJoin then session_join opts c playerID (ib_Data msg) s
      else if ib_Type msg = EventRoomStart \<or> ib_Type msg = EventRoundStart then session_startRound opts playerID roomID s
      else if ib_Type msg = EventBetPlace then session_placeBet opts c playerID roomID (ib_Data msg) s
      else if ib_Type msg = EventAuth then (None, [], s)
      else (Some errUnknownEvent, [], s))"

definition session_handle :: "'s HandlerOptions \<Rightarrow> nat \<Rightarrow> string \<Rightarrow> string \<Rightarrow> string \<Rightarrow> 's \<Rightarrow> action list \<times> 's" where
  "session_handle opts c playerID roomID raw s =
     (case decode_inbound raw of
        None \<Rightarrow> (sendError c [] errMalformedMessage,
                 writeAudit opts (Some playerID) ''ws.message'' None (Some errMalformedMessage) s)
      | Some msg \<Rightarrow>
          (case route opts c playerID roomID msg s of
             (err, out, s) \<Rightarrow>
               (out @ (case err of None \<Rightarrow> [] | Some e \<Rightarrow> sendError c (ib_Type msg) e),
                writeAudit opts (Some playerID) (ib_Type msg) (ib_Data msg) err s)))"

end
