(* ===== verification/Ws_Gateway.thy ===== *)
theory Ws_Gateway
  imports Ws_Session
begin

text \<open>
  What the socket layer guarantees: the sessions meet the contract of the hub, so its invariant holds
  under every interleaving; the order in which a settled round is announced; and who can open a socket.
\<close>

section \<open>The sessions meet the hub's contract\<close>

definition session_says :: "'s HandlerOptions \<Rightarrow> Hub \<Rightarrow> nat \<Rightarrow> action list \<Rightarrow> bool" where
  "session_says opts h c out \<longleftrightarrow>
     (\<exists>raw s. out = fst (session_handle opts c (sk_playerID (client h c)) (sk_roomID (client h c)) raw s))"

lemma session_sendError: "list_all (session_action h c) (sendError c event err)"
  by (simp add: sendError_def)

lemma session_SendToPlayers: "(\<And>p. frame_for p ev d) \<Longrightarrow> list_all (session_action h c) (SendToPlayers ids ev d)"
  by (simp add: SendToPlayers_def list_all_iff)

lemma session_route:
  assumes "route opts c (sk_playerID (client h c)) roomID msg s = (err, out, s')"
  shows "list_all (session_action h c) out"
proof -
  have "list_all (session_action h c) out" if "session_join opts c (sk_playerID (client h c)) d s = (err, out, s')" for d
    using that by (auto simp: session_join_def Let_def session_SendToPlayers split: sum.splits prod.splits if_splits)
  moreover have "list_all (session_action h c) out" if "session_startRound opts p roomID s = (err, out, s')" for p
    using that by (auto simp: session_startRound_def split: sum.splits prod.splits if_splits)
  moreover have "list_all (session_action h c) out" if "session_placeBet opts c p roomID d s = (err, out, s')" for p d
    using that by (auto simp: session_placeBet_def split: sum.splits prod.splits if_splits)
  ultimately show ?thesis
    using assms by (auto simp: route_def split: if_splits)
qed

lemma session_handle_actions:
  "list_all (session_action h c) (fst (session_handle opts c (sk_playerID (client h c)) roomID raw s))"
  by (auto simp: session_handle_def session_sendError split: option.split prod.split dest: session_route)

interpretation sessions: session_layer "session_says opts" for opts :: "'s HandlerOptions"
  by unfold_locales (auto simp: session_says_def session_handle_actions)

section \<open>A goroutine on its own\<close>

text \<open>Running the next actions of one goroutine without interference is a run of the hub.\<close>

lemma run_actions_steps:
  assumes "i < length ts" and "ts ! i = as @ rest"
  shows "(hub_step says)\<^sup>*\<^sup>* (h, ts) (run_actions pick as h, ts[i := rest])"
  using assms
proof (induction pick as h arbitrary: ts rule: run_actions.induct)
  case (1 pick h)
  then have "ts[i := rest] = ts" using list_update_id [of ts i] by simp
  then show ?case by simp
next
  case (2 pick a as h)
  obtain todo h' where step: "act (pick a h) a h = (todo, h')" by fastforce
  from 2(2,3) step have "hub_step says (h, ts) (h', ts[i := todo @ as @ rest])" by (auto intro: hs_act)
  moreover have "(hub_step says)\<^sup>*\<^sup>* (h', ts[i := todo @ as @ rest]) (run_actions pick (todo @ as) h', ts[i := todo @ as @ rest, i := rest])"
    using 2(2) by (intro 2(1) [OF step [symmetric]]) simp_all
  ultimately show ?case using step by (simp add: converse_rtranclp_into_rtranclp)
qed

lemma reach_run: "step\<^sup>*\<^sup>* s s' \<Longrightarrow> reach init step s \<Longrightarrow> reach init step s'"
  by (induction rule: rtranclp_induct) (auto intro: reach_step)

section \<open>Announcements in order\<close>

type_synonym send = "string \<times> string \<times> data"

definition send_action :: "send \<Rightarrow> action" where
  "send_action x = (case x of (p, ty, d) \<Rightarrow> CallSendToPlayer p ty d)"

definition send_frame :: "send \<Rightarrow> outbound" where
  "send_frame x = (case x of (p, ty, d) \<Rightarrow> \<lparr>ob_Type = ty, ob_Data = d\<rparr>)"

lemma send_here:
  assumes "map_of (hb_clients h) p = Some c" and "\<not> sk_closed (client h c)" and "length (sk_send (client h c)) < sendBuffer"
    and "data_encodes d"
  shows "run_actions pick (CallSendToPlayer p ty d # as) h =
    run_actions pick as (set_client c (\<lambda>k. k\<lparr>sk_send := sk_send k @ [\<lparr>ob_Type = ty, ob_Data = d\<rparr>]\<rparr>) h)"
  using assms by (simp add: SendToPlayer_def sendEvent_def Marshal_def enqueue_def)

text \<open>Sending to another player does not touch the socket \<open>c\<close>.\<close>

lemma send_elsewhere:
  assumes ok: "hub_ok h" and p: "map_of (hb_clients h) p = Some c" and q: "q \<noteq> p" and d: "data_encodes d" "frame_for q ty d"
  obtains h' where "run_actions pick (CallSendToPlayer q ty d # as) h = run_actions pick as h'" "hub_ok h'"
    "hb_clients h' = hb_clients h" "client h' c = client h c"
proof (cases "map_of (hb_clients h) q")
  case None
  then show ?thesis using ok that [of h] by (simp add: SendToPlayer_def)
next
  case (Some e)
  have e: "e < length (hb_heap h)" "sk_playerID (client h e) = q" using hub_okD [OF ok Some] by auto
  then have ne: "e \<noteq> c" using hub_okD [OF ok p] q by auto
  let ?f = "\<lparr>ob_Type = ty, ob_Data = d\<rparr>"
  obtain todo h1 where en: "enqueue (pick (CallSendEvent e ty d) h) e ?f h = (todo, h1)" by fastforce
  have ok1: "hub_ok h1" using enqueue_ok [OF ok e(1) _ en] d e(2) by simp
  have h1: "hb_clients h1 = hb_clients h" "client h1 c = client h c" "length (hb_heap h1) = length (hb_heap h)"
    and todo: "todo = [] \<or> todo = [CallClose e]"
    using en ne by (auto simp: enqueue_def Let_def set_client_def split: if_splits)
  have run: "run_actions pick (CallSendToPlayer q ty d # as) h = run_actions pick (todo @ as) h1"
    using Some en d by (simp add: SendToPlayer_def sendEvent_def Marshal_def)
  from todo show ?thesis
  proof
    assume "todo = []" then show ?thesis using run h1 ok1 that [of h1] by simp
  next
    assume "todo = [CallClose e]"
    moreover have "hub_ok (close e h1)" using ok1 e h1 unfolding close_def by (intro hub_ok_set_client) (auto simp: client_ok_def)
    moreover have "client (close e h1) c = client h c" "hb_clients (close e h1) = hb_clients h"
      using h1 ne by (simp_all add: close_def set_client_def)
    ultimately show ?thesis using run that [of "close e h1"] by simp
  qed
qed

lemma run_sends:
  assumes "hub_ok h" and "map_of (hb_clients h) p = Some c" and "\<not> sk_closed (client h c)"
    and "length (sk_send (client h c)) + length (filter (\<lambda>x. fst x = p) xs) \<le> sendBuffer"
    and "\<forall>x \<in> set xs. data_encodes (snd (snd x)) \<and> frame_for (fst x) (fst (snd x)) (snd (snd x))"
  shows "\<exists>h'. run_actions pick (map send_action xs @ as) h = run_actions pick as h' \<and> hub_ok h' \<and>
    hb_clients h' = hb_clients h \<and>
    client h' c = (client h c)\<lparr>sk_send := sk_send (client h c) @ map send_frame (filter (\<lambda>x. fst x = p) xs)\<rparr>"
  using assms
proof (induction xs arbitrary: h)
  case (Cons x xs)
  obtain q ty d where x: "x = (q, ty, d)" by (cases x)
  let ?rest = "map send_action xs @ as"
  have c: "c < length (hb_heap h)" "sk_playerID (client h c) = p" using hub_okD [OF Cons.prems(1,2)] by auto
  show ?case
  proof (cases "q = p")
    case True
    let ?h = "set_client c (\<lambda>k. k\<lparr>sk_send := sk_send k @ [\<lparr>ob_Type = ty, ob_Data = d\<rparr>]\<rparr>) h"
    have ok: "hub_ok ?h"
      using Cons.prems x True c by (intro hub_ok_set_client) (auto simp: client_ok_def)
    have k: "client ?h c = (client h c)\<lparr>sk_send := sk_send (client h c) @ [\<lparr>ob_Type = ty, ob_Data = d\<rparr>]\<rparr>"
      and m: "hb_clients ?h = hb_clients h" using c by (simp_all add: set_client_def)
    have "run_actions pick (map send_action (x # xs) @ as) h = run_actions pick ?rest ?h"
      using Cons.prems x True send_here [of h p c d pick ty ?rest] by (simp add: send_action_def [of "(p, ty, d)"])
    moreover have "\<exists>h'. run_actions pick ?rest ?h = run_actions pick as h' \<and> hub_ok h' \<and> hb_clients h' = hb_clients ?h \<and>
      client h' c = (client ?h c)\<lparr>sk_send := sk_send (client ?h c) @ map send_frame (filter (\<lambda>x. fst x = p) xs)\<rparr>"
      by (rule Cons.IH) (use Cons.prems x True ok k m in auto)
    ultimately show ?thesis
      using x True k m by (auto simp: send_frame_def)
  next
    case False
    from send_elsewhere [OF Cons.prems(1,2) False, of d ty pick ?rest] Cons.prems(5) x obtain h1 where h1:
      "run_actions pick (CallSendToPlayer q ty d # ?rest) h = run_actions pick ?rest h1" "hub_ok h1"
      "hb_clients h1 = hb_clients h" "client h1 c = client h c" by auto
    then have "\<exists>h'. run_actions pick ?rest h1 = run_actions pick as h' \<and> hub_ok h' \<and> hb_clients h' = hb_clients h1 \<and>
      client h' c = (client h1 c)\<lparr>sk_send := sk_send (client h1 c) @ map send_frame (filter (\<lambda>x. fst x = p) xs)\<rparr>"
      using Cons.prems x False by (intro Cons.IH) auto
    moreover have "map send_action (x # xs) @ as = CallSendToPlayer q ty d # ?rest" by (simp add: send_action_def x)
    ultimately show ?thesis using h1 x False by simp
  qed
qed auto

text \<open>Detaching a room leaves the queues alone.\<close>

lemma run_room_checks: "sk_send (client (run_actions pick (map (\<lambda>c. CallRoom c r) cs) h) c) = sk_send (client h c)"
proof (induction cs arbitrary: h)
  case (Cons d cs)
  have "sk_send (client (setRoom d [] h) c) = sk_send (client h c)"
    by (cases "d < length (hb_heap h)") (auto simp: setRoom_def set_client_def nth_list_update list_update_beyond)
  with Cons show ?case by simp
qed simp

lemma run_detach: "sk_send (client (run_actions pick [CallDetachRoom r] h) c) = sk_send (client h c)"
  by (simp add: DetachRoom_def run_room_checks)

lemma distinct_filter_one: "distinct xs \<Longrightarrow> p \<in> set xs \<Longrightarrow> filter (\<lambda>x. x = p) xs = [p]"
  by (induction xs) (auto simp: filter_empty_conv)

lemma SendToPlayers_sends: "SendToPlayers ids ty d = map send_action (map (\<lambda>p. (p, ty, d)) ids)"
  by (simp add: SendToPlayers_def send_action_def)

definition balance_frame :: "string \<Rightarrow> string \<Rightarrow> int64 \<Rightarrow> string \<Rightarrow> data" where
  "balance_frame roomID p balance reason =
     BalanceUpdated_data \<lparr>bu_PlayerID = p, bu_RoomID = roomID, bu_Balance = balance, bu_Reason = reason\<rparr>"

definition balance_sends :: "string \<Rightarrow> string list \<Rightarrow> (string \<times> int64) list \<Rightarrow> string \<Rightarrow> send list" where
  "balance_sends roomID members balances reason = concat (map (\<lambda>p. case map_of balances p of
     None \<Rightarrow> [] | Some balance \<Rightarrow> [(p, EventBalanceUpdated, balance_frame roomID p balance reason)]) members)"

lemma pushBalances_sends: "pushBalances roomID members balances reason = map send_action (balance_sends roomID members balances reason)"
  unfolding pushBalances_def balance_sends_def
  by (induction members) (auto simp: send_action_def balance_frame_def split: option.split)

lemma balance_sends_for:
  assumes "distinct members" and "p \<in> set members"
  shows "filter (\<lambda>x. fst x = p) (balance_sends roomID members balances reason) =
    (case map_of balances p of None \<Rightarrow> [] | Some balance \<Rightarrow> [(p, EventBalanceUpdated, balance_frame roomID p balance reason)])"
proof -
  have none: "filter (\<lambda>x. fst x = p) (balance_sends roomID ms balances reason) = []" if "p \<notin> set ms" for ms
    using that unfolding balance_sends_def by (induction ms) (auto split: option.split)
  from assms show ?thesis
  proof (induction members)
    case (Cons m ms)
    then show ?case
      using none [of ms] by (cases "m = p") (auto simp: balance_sends_def split: option.split)
  qed simp
qed

text \<open>All that one settled round sends, and the part of it that one member gets.\<close>

definition settled_sends :: "SettleRoundOutput \<Rightarrow> send list" where
  "settled_sends out =
     map (\<lambda>p. (p, EventRoundResult, RoundResult_data (RoundResult_payload out))) (se_Members out) @
     balance_sends (se_RoomID out) (se_Members out) (se_Balances out)
       (if se_RoomClosed out then BalanceReasonRoomEnd else BalanceReasonRoundEnd) @
     (if se_RoomClosed out
      then map (\<lambda>p. (p, EventRoomClosed, RoomClosed_data \<lparr>cp_RoomID = se_RoomID out, cp_Reason = se_CloseReason out\<rparr>)) (se_Members out)
      else [])"

lemma RoundSettled_sends:
  "Hub_RoundSettled out = map send_action (settled_sends out) @ (if se_RoomClosed out then [CallDetachRoom (se_RoomID out)] else [])"
  by (simp add: Hub_RoundSettled_def settled_sends_def SendToPlayers_sends pushBalances_sends)

lemma settled_sends_ok: "x \<in> set (settled_sends out) \<Longrightarrow> data_encodes (snd (snd x)) \<and> frame_for (fst x) (fst (snd x)) (snd (snd x))"
  by (auto simp: settled_sends_def balance_sends_def balance_frame_def split: if_splits option.splits)

lemma filter_pairs: "filter (\<lambda>x. fst x = p) (map (\<lambda>q. (q, z)) ms) = map (\<lambda>q. (q, z)) (filter (\<lambda>q. q = p) ms)"
  by (induction ms) auto

lemma settled_sends_for:
  assumes "distinct (se_Members out)" and "p \<in> set (se_Members out)"
  shows "map send_frame (filter (\<lambda>x. fst x = p) (settled_sends out)) =
    [\<lparr>ob_Type = EventRoundResult, ob_Data = RoundResult_data (RoundResult_payload out)\<rparr>] @
    (case map_of (se_Balances out) p of
       None \<Rightarrow> []
     | Some balance \<Rightarrow> [\<lparr>ob_Type = EventBalanceUpdated, ob_Data = balance_frame (se_RoomID out) p balance
         (if se_RoomClosed out then BalanceReasonRoomEnd else BalanceReasonRoundEnd)\<rparr>]) @
    (if se_RoomClosed out
     then [\<lparr>ob_Type = EventRoomClosed, ob_Data = RoomClosed_data \<lparr>cp_RoomID = se_RoomID out, cp_Reason = se_CloseReason out\<rparr>\<rparr>]
     else [])"
  by (simp add: settled_sends_def balance_sends_for assms filter_pairs distinct_filter_one send_frame_def split: option.split)

section \<open>Properties\<close>


definition sample_settled :: SettleRoundOutput where
  "sample_settled = \<lparr>se_RoomID = ''r'', se_RoundID = ''d'', se_RoundNumber = 10, se_Die1 = 1, se_Die2 = 3, se_Sum = 4,
     se_Outcome = OutcomeEven, se_Results = [], se_Members = [''p'', ''q''], se_Balances = [(''p'', 7), (''q'', 8)],
     se_RoomClosed = True, se_CloseReason = ReasonMaxRounds\<rparr>"

definition sample_hub :: Hub where
  "sample_hub = snd (register 1 (snd (register 0 (NewHub\<lparr>hb_heap := [newClient ''p'', newClient ''q'']\<rparr>))))"

lemma sample_hub_ok: "hub_ok sample_hub"
proof -
  have e: "sample_hub = \<lparr>hb_clients = [(''p'', 0), (''q'', 1)], hb_rooms = [], hb_heap = [newClient ''p'', newClient ''q'']\<rparr>"
    by code_simp
  show ?thesis
    unfolding e by (rule hub_okI) (auto simp: newClient_def client_ok_def split: if_splits)
qed


text \<open>
  A sample run: player \<open>p\<close> connects twice, so that the second socket replaces the first, and a room that
  closed pushes the final balances of \<open>p\<close> and of \<open>q\<close>, who is not connected.
\<close>

definition sample_closed :: CloseRoomOutput where
  "sample_closed = \<lparr>co_RoomID = ''r'', co_Status = RoomClosed, co_Closed = True, co_Reason = ReasonOwnerClosed,
     co_Members = [''p'', ''q''], co_Balances = [(''p'', 7), (''q'', 8)]\<rparr>"

definition connect_actions :: "nat \<Rightarrow> action list" where
  "connect_actions c = [CallRegister c, CallWritePump c]"

definition hub_a :: Hub where
  "hub_a = run_actions (\<lambda>a h. True) (connect_actions 0) (NewHub\<lparr>hb_heap := hb_heap NewHub @ [newClient ''p'']\<rparr>)"

definition hub_b :: Hub where
  "hub_b = run_actions (\<lambda>a h. True) (connect_actions 1) (hub_a\<lparr>hb_heap := hb_heap hub_a @ [newClient ''p'']\<rparr>)"

definition hub_c :: Hub where
  "hub_c = run_actions (\<lambda>a h. True) (Hub_RoomClosed sample_closed) hub_b"

lemma reach_connect:
  assumes "reach hub_init (hub_step says) (h, ts)"
  shows "reach hub_init (hub_step says)
    (run_actions pick (connect_actions (length (hb_heap h))) (h\<lparr>hb_heap := hb_heap h @ [newClient p]\<rparr>),
     ts @ [[CallReadPump (length (hb_heap h))]])"
proof -
  let ?c = "length (hb_heap h)" and ?h = "h\<lparr>hb_heap := hb_heap h @ [newClient p]\<rparr>"
  have "reach hub_init (hub_step says) (?h, ts @ [[CallRegister ?c, CallWritePump ?c, CallReadPump ?c]])"
    using assms by (rule reach_step) (rule hs_connect, rule refl)
  moreover have "(hub_step says)\<^sup>*\<^sup>* (?h, ts @ [connect_actions ?c @ [CallReadPump ?c]])
      (run_actions pick (connect_actions ?c) ?h, (ts @ [connect_actions ?c @ [CallReadPump ?c]])[length ts := [CallReadPump ?c]])"
    by (rule run_actions_steps) simp_all
  ultimately show ?thesis by (auto simp: connect_actions_def intro: reach_run)
qed

lemma reach_notice:
  assumes "reach hub_init (hub_step says) (h, ts)"
  shows "reach hub_init (hub_step says) (run_actions pick (notice_actions n) h, ts @ [[]])"
proof -
  have "reach hub_init (hub_step says) (h, ts @ [notice_actions n])"
    using assms by (rule reach_step) (rule hs_notice)
  moreover have "(hub_step says)\<^sup>*\<^sup>* (h, ts @ [notice_actions n]) (run_actions pick (notice_actions n) h, (ts @ [notice_actions n])[length ts := []])"
    by (rule run_actions_steps) simp_all
  ultimately show ?thesis by (auto intro: reach_run)
qed

lemma hub_c_reach:
  "reach hub_init (hub_step says) (hub_c, [[CallReadPump 0], [CallReadPump 1], []])"
proof -
  have "reach hub_init (hub_step says) (NewHub, [])" by (rule reach_init) (simp add: hub_init_def)
  from reach_connect [OF this, of "\<lambda>a h. True" "''p''"]
  have a: "reach hub_init (hub_step says) (hub_a, [[CallReadPump 0]])" by (simp add: hub_a_def NewHub_def)
  have "length (hb_heap hub_a) = 1" by code_simp
  with reach_connect [OF a, of "\<lambda>a h. True" "''p''"]
  have "reach hub_init (hub_step says) (hub_b, [[CallReadPump 0], [CallReadPump 1]])" by (simp add: hub_b_def)
  from reach_notice [OF this, of "\<lambda>a h. True" "NotifyRoomClosed sample_closed"] show ?thesis by (simp add: hub_c_def)
qed

text \<open>C30: balances are private and queues bounded.  In every reachable state of the hub, whatever the
  interleaving of sessions, announcements and write pumps, no socket has more than 32 frames queued, and every
  balance that was written to a socket or waits in its queue is the balance of the player the socket belongs to.\<close>

theorem balances_are_private:
  assumes "reach hub_init (hub_step (session_says opts)) (h, ts)" and "c < length (hb_heap h)"
  shows "length (sk_send (client h c)) \<le> sendBuffer \<and>
    (\<forall>f \<in> set (sk_written (client h c) @ sk_send (client h c)). \<forall>b.
       ob_Data f = BalanceUpdated_data b \<longrightarrow> bu_PlayerID b = sk_playerID (client h c))"
proof -
  have "client_ok (client h c)"
    using sessions.hub.reach_inv [OF assms(1)] assms(2) by (simp add: hub_inv_def hub_ok_def)
  then show ?thesis
    unfolding client_ok_def frame_for_def by (metis data_for.simps(1) set_append)
qed

definition sample_opts :: "unit HandlerOptions" where
  "sample_opts = \<lparr>ho_Verify = (\<lambda>t s. (Inl (AuthErr ErrInvalidToken), s)), ho_Join = (\<lambda>r p s. (Inl (GameErr ErrRoomNotFound), s)),
     ho_State = (\<lambda>r s. (Inl (GameErr ErrRoomNotFound), s)), ho_StartRound = (\<lambda>r p s. (Inl (GameErr ErrRoomNotFound), s)),
     ho_PlaceBet = (\<lambda>r p ch a s. (Inl (GameErr ErrRoomNotFound), s)), ho_audited = False, ho_Append = (\<lambda>e s. (Inr (), s)),
     ho_Now = (\<lambda>s. (0, s)), ho_NewID = (\<lambda>s. (''i'', s)), ho_float = Some\<rparr>"

theorem balances_are_private_witness:
  "map ob_Type (sk_send (client hub_c 1)) = [EventBalanceUpdated, EventRoomClosed] \<and>
   length (sk_send (client hub_c 1)) \<le> 32 \<and> sk_playerID (client hub_c 1) = ''p''"
proof -
  have e: "map ob_Type (sk_send (client hub_c 1)) = [EventBalanceUpdated, EventRoomClosed]" "sk_playerID (client hub_c 1) = ''p''"
    "1 < length (hb_heap hub_c)" by code_simp+
  from balances_are_private [OF hub_c_reach [of "session_says sample_opts"] e(3)] e show ?thesis
    by (simp add: sendBuffer_def)
qed

text \<open>C31: one socket per player.  In every reachable state in which no goroutine is in the middle of something
  (each is waiting for the next message or has ended), two sockets of the same player that are both open are the
  same socket, and it is the one the hub sends that player's frames to.\<close>

theorem one_socket_per_player:
  assumes "reach hub_init (hub_step (session_says opts)) (h, ts)" and "\<forall>as \<in> set ts. \<forall>a \<in> set as. \<exists>c. a = CallReadPump c"
    and "c < length (hb_heap h)" and "d < length (hb_heap h)"
    and "\<not> sk_closed (client h c)" and "\<not> sk_closed (client h d)" and "sk_playerID (client h c) = sk_playerID (client h d)"
  shows "c = d \<and> map_of (hb_clients h) (sk_playerID (client h c)) = Some c"
proof -
  have "\<not> pending (CallClose x) ts" "\<not> pending (CallRegister x) ts" for x
    using assms(2) by (auto simp: pending_def)
  then have "map_of (hb_clients h) (sk_playerID (client h x)) = Some x" if "x < length (hb_heap h)" "\<not> sk_closed (client h x)" for x
    using sessions.hub.reach_inv [OF assms(1)] that by (auto simp: hub_inv_def open_ok_def)
  then show ?thesis using assms(3-7) by (metis option.inject)
qed

theorem one_socket_per_player_witness:
  "map sk_playerID (hb_heap hub_c) = [''p'', ''p''] \<and> map sk_closed (hb_heap hub_c) = [True, False] \<and>
   map_of (hb_clients hub_c) ''p'' = Some 1"
proof -
  have e: "map sk_playerID (hb_heap hub_c) = [''p'', ''p'']" "map sk_closed (hb_heap hub_c) = [True, False]" by code_simp+
  then have i: "1 < length (hb_heap hub_c)" "\<not> sk_closed (client hub_c 1)" "sk_playerID (client hub_c 1) = ''p''"
    by code_simp+
  have "\<forall>as \<in> set [[CallReadPump 0], [CallReadPump 1], []]. \<forall>a \<in> set as. \<exists>c. a = CallReadPump c" by simp
  from one_socket_per_player [OF hub_c_reach [of "session_says sample_opts"] this i(1,1,2,2) refl] e i(3)
  show ?thesis by simp
qed

text \<open>C34: frames are well-typed.  In every reachable state of the hub each frame in a queue or already written
  carries the payload of its own event: the name in the envelope is the one the protocol gives to that kind of
  data, for commands' answers, announcements and errors alike.\<close>

theorem frames_are_well_typed:
  assumes "reach hub_init (hub_step (session_says opts)) (h, ts)" and "c < length (hb_heap h)"
    and "f \<in> set (sk_written (client h c) @ sk_send (client h c))"
  shows "ob_Type f = event_of (ob_Data f)"
proof -
  have "client_ok (client h c)"
    using sessions.hub.reach_inv [OF assms(1)] assms(2) by (simp add: hub_inv_def hub_ok_def)
  then show ?thesis
    using assms(3) unfolding client_ok_def frame_for_def by (metis set_append)
qed

theorem frames_are_well_typed_witness:
  "map (\<lambda>f. event_of (ob_Data f)) (sk_send (client hub_c 1)) = [''balance.updated'', ''room.closed'']"
proof -
  have e: "map ob_Type (sk_send (client hub_c 1)) = [''balance.updated'', ''room.closed'']" "1 < length (hb_heap hub_c)" by code_simp+
  have "map (\<lambda>f. event_of (ob_Data f)) (sk_send (client hub_c 1)) = map ob_Type (sk_send (client hub_c 1))"
    using frames_are_well_typed [OF hub_c_reach [of "session_says sample_opts"] e(2)] by (metis (mono_tags, lifting) UnCI map_eq_conv set_append)
  from this e(1) show ?thesis by (rule trans)
qed

end
