(* ===== verification/Rest_Api.thy ===== *)
theory Rest_Api
  imports Audit_Trail Api_Errors App_Auth App_Rounds
begin

text \<open>
  The HTTP interface, \<open>internal/interfaces/rest\<close>: handlers, authentication, the audit middleware and the
  table of routes.

  Matching a path against the patterns is chi's: a request arrives with the pattern chi matched and the
  value of its parameter.  A request no pattern matches never reaches this code.  A handler maps the request and the world
  to a response, what it told the audit recorder, and the new world; a response body is kept as the value that is
  encoded.  Time-outs have no effect on the state.
\<close>

section \<open>Requests and responses\<close>

record http_request =
  rq_Method :: string
  rq_Pattern :: string
  rq_Param :: string
  rq_Query :: "(string \<times> string) list"
  rq_Authorization :: string
  rq_Body :: string

record roomResponse =
  rn_ID :: string
  rn_OwnerID :: string
  rn_Status :: string
  rn_CurrentRound :: int
  rn_MaxRounds :: int
  rn_PlayerCount :: int
  rn_MaxPlayers :: int
  rn_CreatedAt :: time

datatype response_body =
    envelope string string
  | registerResponse string string int64 time
  | loginResponse string time
  | balanceResponse int64
  | room_response roomResponse
  | roomListResponse "roomResponse list" string
  | closeRoomResponse string string bool string

record response =
  rx_Status :: int
  rx_Body :: response_body

record auditRecorder =
  ar_actorID :: "string option"
  ar_errMsg :: "string option"

definition SetActor :: "string \<Rightarrow> auditRecorder \<Rightarrow> auditRecorder" where
  "SetActor playerID rec = rec\<lparr>ar_actorID := Some playerID\<rparr>"

definition SetError :: "string \<Rightarrow> auditRecorder \<Rightarrow> auditRecorder" where
  "SetError msg rec = rec\<lparr>ar_errMsg := Some msg\<rparr>"

type_synonym 'r answer = "'r world \<Rightarrow> response \<times> auditRecorder \<times> 'r world"

definition writeJSON :: "int \<Rightarrow> response_body \<Rightarrow> auditRecorder \<Rightarrow> 'r answer" where
  "writeJSON status body rec w = (\<lparr>rx_Status = status, rx_Body = body\<rparr>, rec, w)"

definition writeError :: "rest_error \<Rightarrow> auditRecorder \<Rightarrow> 'r answer" where
  "writeError err rec w =
     (case rest_mapError err of (status, code, message) \<Rightarrow>
        writeJSON status (envelope code message) (SetError (rest_error_text err) rec) w)"

text \<open>Running a use case and answering with its result.\<close>

definition respond :: "('r, error, 'a) prog \<Rightarrow> int \<Rightarrow> ('a \<Rightarrow> response_body) \<Rightarrow> auditRecorder \<Rightarrow> 'r answer" where
  "respond uc status body rec w =
     (case uc w of
        (Inl err, w) \<Rightarrow> writeError (RestApp err) rec w
      | (Inr out, w) \<Rightarrow> writeJSON status (body out) rec w)"

text \<open>\<open>io.LimitReader\<close>, \<open>http.MaxBytesReader\<close>: the first \<open>n\<close> bytes.\<close>

definition first_bytes :: "int \<Rightarrow> string \<Rightarrow> string" where
  "first_bytes n s = (if int (length s) \<le> n then s else take (nat n) s)"

lemma first_bytes_take: "first_bytes n s = take (nat n) s"
  by (auto simp: first_bytes_def)

definition maxRequestBodyBytes :: int where
  "maxRequestBodyBytes = 1048576"

definition decodeJSON :: "string list \<Rightarrow> (string \<Rightarrow> json \<Rightarrow> 'a \<Rightarrow> 'a option) \<Rightarrow> 'a \<Rightarrow> string \<Rightarrow> rest_error + 'a" where
  "decodeJSON names put dst body =
     (case json_first (first_bytes maxRequestBodyBytes body) of
        None \<Rightarrow> Inl errMalformedBody
      | Some v \<Rightarrow> (case decode_struct True names put v dst of None \<Rightarrow> Inl errMalformedBody | Some x \<Rightarrow> Inr x))"

section \<open>Accounts\<close>

record credentials =
  cd_Email :: string
  cd_Password :: string

fun put_credentials :: "string \<Rightarrow> json \<Rightarrow> credentials \<Rightarrow> credentials option" where
  "put_credentials f v r =
     (if f = ''email'' then map_option (\<lambda>s. r\<lparr>cd_Email := s\<rparr>) (as_string v (cd_Email r))
      else map_option (\<lambda>s. r\<lparr>cd_Password := s\<rparr>) (as_string v (cd_Password r)))"

definition decode_credentials :: "string \<Rightarrow> rest_error + credentials" where
  "decode_credentials = decodeJSON [''email'', ''password''] put_credentials \<lparr>cd_Email = [], cd_Password = []\<rparr>"

definition RegisterHandler :: "'r ext \<Rightarrow> http_request \<Rightarrow> auditRecorder \<Rightarrow> 'r answer" where
  "RegisterHandler X r rec w =
     (case decode_credentials (rq_Body r) of
        Inl err \<Rightarrow> writeError err rec w
      | Inr req \<Rightarrow>
          respond (RegisterUC X (cd_Email req) (cd_Password req)) StatusCreated
            (\<lambda>out. registerResponse (go_PlayerID out) (go_Email out) 0 (go_CreatedAt out)) rec w)"

definition LoginHandler :: "'r ext \<Rightarrow> duration \<Rightarrow> http_request \<Rightarrow> auditRecorder \<Rightarrow> 'r answer" where
  "LoginHandler X ttl r rec w =
     (case decode_credentials (rq_Body r) of
        Inl err \<Rightarrow> writeError err rec w
      | Inr req \<Rightarrow>
          respond (LoginUC X ttl (cd_Email req) (cd_Password req)) StatusOK
            (\<lambda>out. loginResponse (lo_Token out) (lo_ExpiresAt out)) rec w)"

section \<open>Wallet\<close>

definition decode_amount :: "string \<Rightarrow> rest_error + int64" where
  "decode_amount = decodeJSON [''amount''] (\<lambda>f v a. as_int64 v a) 0"

text \<open>The claims in the context of the request, when it passed the authenticator.\<close>

definition DepositHandler :: "'r ext \<Rightarrow> Claims option \<Rightarrow> http_request \<Rightarrow> auditRecorder \<Rightarrow> 'r answer" where
  "DepositHandler X ctx r rec w =
     (case ctx of
        None \<Rightarrow> writeError rest_error.errUnauthenticated rec w
      | Some claims \<Rightarrow>
          (case decode_amount (rq_Body r) of
             Inl err \<Rightarrow> writeError err rec w
           | Inr amount \<Rightarrow> respond (Deposit X (cl_PlayerID claims) amount) StatusOK balanceResponse rec w))"

definition WithdrawHandler :: "'r ext \<Rightarrow> Claims option \<Rightarrow> http_request \<Rightarrow> auditRecorder \<Rightarrow> 'r answer" where
  "WithdrawHandler X ctx r rec w =
     (case ctx of
        None \<Rightarrow> writeError rest_error.errUnauthenticated rec w
      | Some claims \<Rightarrow>
          (case decode_amount (rq_Body r) of
             Inl err \<Rightarrow> writeError err rec w
           | Inr amount \<Rightarrow> respond (Withdraw X (cl_PlayerID claims) amount) StatusOK balanceResponse rec w))"

definition BalanceHandler :: "'r ext \<Rightarrow> Claims option \<Rightarrow> http_request \<Rightarrow> auditRecorder \<Rightarrow> 'r answer" where
  "BalanceHandler X ctx r rec w =
     (case ctx of
        None \<Rightarrow> writeError rest_error.errUnauthenticated rec w
      | Some claims \<Rightarrow> respond (GetBalance X (cl_PlayerID claims)) StatusOK balanceResponse rec w)"

section \<open>Rooms\<close>

definition toRoomResponse :: "RoomSummary \<Rightarrow> roomResponse" where
  "toRoomResponse s =
     \<lparr>rn_ID = su_ID s, rn_OwnerID = su_OwnerID s, rn_Status = su_Status s, rn_CurrentRound = su_CurrentRound s,
      rn_MaxRounds = su_MaxRounds s, rn_PlayerCount = su_PlayerCount s, rn_MaxPlayers = su_MaxPlayers s,
      rn_CreatedAt = su_CreatedAt s\<rparr>"

definition CreateRoomHandler :: "'r ext \<Rightarrow> Claims option \<Rightarrow> http_request \<Rightarrow> auditRecorder \<Rightarrow> 'r answer" where
  "CreateRoomHandler X ctx r rec w =
     (case ctx of
        None \<Rightarrow> writeError rest_error.errUnauthenticated rec w
      | Some claims \<Rightarrow>
          respond (CreateRoomUC X (cl_PlayerID claims)) StatusCreated (\<lambda>room. room_response (toRoomResponse room)) rec w)"

text \<open>\<open>int32(v)\<close> keeps the low 32 bits.\<close>

definition queryInt :: "http_request \<Rightarrow> string \<Rightarrow> int32" where
  "queryInt r key =
     (case map_of (rq_Query r) key of
        None \<Rightarrow> 0
      | Some raw \<Rightarrow>
          if raw = [] then 0
          else (case Atoi raw of None \<Rightarrow> 0 | Some v \<Rightarrow> if v < 0 then 0 else word_of_int v))"

definition ListRoomsHandler :: "'r ext \<Rightarrow> http_request \<Rightarrow> auditRecorder \<Rightarrow> 'r answer" where
  "ListRoomsHandler X r rec w =
     respond (ListOpenRoomsUC X (sint (queryInt r ''limit'')) (sint (queryInt r ''offset''))) StatusOK
       (\<lambda>(rooms, source). roomListResponse (map toRoomResponse rooms) source) rec w"

definition CloseRoomHandler :: "'r ext \<Rightarrow> Claims option \<Rightarrow> http_request \<Rightarrow> auditRecorder \<Rightarrow> 'r answer" where
  "CloseRoomHandler X ctx r rec w =
     (case ctx of
        None \<Rightarrow> writeError rest_error.errUnauthenticated rec w
      | Some claims \<Rightarrow>
          respond (CloseRoomUC X (rq_Param r) (cl_PlayerID claims) []) StatusOK
            (\<lambda>out. closeRoomResponse (co_RoomID out) (co_Status out) (co_Closed out) (co_Reason out)) rec w)"

section \<open>Authentication\<close>

definition rest_bearerPrefix :: string where
  "rest_bearerPrefix = ''Bearer ''"

definition Authenticator :: "'r ext \<Rightarrow> (Claims option \<Rightarrow> http_request \<Rightarrow> auditRecorder \<Rightarrow> 'r answer) \<Rightarrow>
    http_request \<Rightarrow> auditRecorder \<Rightarrow> 'r answer" where
  "Authenticator X next r rec w =
     (let header = rq_Authorization r in
      if \<not> prefix rest_bearerPrefix header then writeError errMissingToken rec w
      else
        let token = TrimSpace (drop (length rest_bearerPrefix) header) in
        if token = [] then writeError errMissingToken rec w
        else
          (case Verify X token w of
             (Inl _, w) \<Rightarrow> writeError rest_error.errInvalidToken rec w
           | (Inr claims, w) \<Rightarrow> next (Some claims) r (SetActor (cl_PlayerID claims) rec) w))"

section \<open>Routes\<close>

definition NewRouter :: "'r ext \<Rightarrow> duration \<Rightarrow> http_request \<Rightarrow> (auditRecorder \<Rightarrow> 'r answer) option" where
  "NewRouter X ttl r =
     map_of [((''POST'', ''/auth/register''), RegisterHandler X r),
             ((''POST'', ''/auth/login''), LoginHandler X ttl r),
             ((''POST'', ''/wallet/deposit''), Authenticator X (DepositHandler X) r),
             ((''POST'', ''/wallet/withdraw''), Authenticator X (WithdrawHandler X) r),
             ((''GET'', ''/wallet/balance''), Authenticator X (BalanceHandler X) r),
             ((''POST'', ''/rooms''), Authenticator X (CreateRoomHandler X) r),
             ((''GET'', ''/rooms''), Authenticator X (\<lambda>ctx. ListRoomsHandler X) r),
             ((''DELETE'', ''/rooms/{id}''), Authenticator X (CloseRoomHandler X) r)] (rq_Method r, rq_Pattern r)"

section \<open>The audit middleware\<close>

definition maxAuditBodyBytes :: int where
  "maxAuditBodyBytes = 64 * 1024"

definition auditActions :: "(string \<times> string) list" where
  "auditActions =
     [(''POST /auth/register'', ''auth.register''),
      (''POST /auth/login'', ''auth.login''),
      (''POST /wallet/deposit'', ''wallet.deposit''),
      (''POST /wallet/withdraw'', ''wallet.withdraw''),
      (''GET /wallet/balance'', ''wallet.balance''),
      (''POST /rooms'', ''room.create''),
      (''GET /rooms'', ''room.list''),
      (''DELETE /rooms/{id}'', ''room.close'')]"

definition route_key :: "http_request \<Rightarrow> string" where
  "route_key r = rq_Method r @ '' '' @ rq_Pattern r"

definition audit_action :: "http_request \<Rightarrow> string" where
  "audit_action r = (case map_of auditActions (route_key r) of Some a \<Rightarrow> a | None \<Rightarrow> route_key r)"

text \<open>\<open>http.StatusText\<close> for the error statuses of this API.\<close>

definition StatusText :: "int \<Rightarrow> string" where
  "StatusText status =
     (case map_of [(StatusBadRequest, ''Bad Request''), (StatusUnauthorized, ''Unauthorized''), (StatusForbidden, ''Forbidden''),
        (StatusNotFound, ''Not Found''), (StatusConflict, ''Conflict''), (StatusInternalServerError, ''Internal Server Error''),
        (StatusServiceUnavailable, ''Service Unavailable'')] status of None \<Rightarrow> [] | Some t \<Rightarrow> t)"

text \<open>The deferred function: build the entry and append it; a failure is only logged.\<close>

definition audit_request :: "'r ext \<Rightarrow> http_request \<Rightarrow> time \<Rightarrow> json option \<Rightarrow> response \<Rightarrow> auditRecorder \<Rightarrow>
    'r world \<times> AuditLog list \<Rightarrow> 'r world \<times> AuditLog list" where
  "audit_request X r start payload resp rec s =
     (case s of (w, logs) \<Rightarrow>
        let opErr = (if rx_Status resp \<ge> StatusBadRequest
              then (case ar_errMsg rec of Some msg \<Rightarrow> Some msg | None \<Rightarrow> Some (StatusText (rx_Status resp)))
              else None) in
        case NewID X w of
          (Inl _, w) \<Rightarrow> (w, logs)
        | (Inr i, w) \<Rightarrow>
            (case NewEntry i start (ar_actorID rec) ChannelREST (rq_Pattern r) (audit_action r) (Some (rq_Method r)) opErr payload of
               Inl _ \<Rightarrow> (w, logs)
             | Inr entry \<Rightarrow>
                 (case Append X entry logs w of (Inl _, w) \<Rightarrow> (w, logs) | (Inr logs', w) \<Rightarrow> (w, logs'))))"

definition AuditMiddleware :: "'r ext \<Rightarrow> (string \<Rightarrow> string option) \<Rightarrow> (http_request \<Rightarrow> auditRecorder \<Rightarrow> 'r answer) \<Rightarrow>
    http_request \<Rightarrow> 'r world \<times> AuditLog list \<Rightarrow> response \<times> 'r world \<times> AuditLog list" where
  "AuditMiddleware X fl next r s =
     (case s of (w, logs) \<Rightarrow>
        let raw = first_bytes maxAuditBodyBytes (rq_Body r);
            payload = redactPayload fl raw in
        case Now X w of
          (now, w) \<Rightarrow>
            let start = (case now of Inl _ \<Rightarrow> 0 | Inr t \<Rightarrow> t) in
            case next (r\<lparr>rq_Body := raw\<rparr>) \<lparr>ar_actorID = None, ar_errMsg = None\<rparr> w of
              (resp, rec, w) \<Rightarrow> (resp, audit_request X r start payload resp rec (w, logs)))"

text \<open>A request: the routes of the audited group.  \<open>None\<close> when the router has no such route.\<close>

definition serve_http :: "'r ext \<Rightarrow> duration \<Rightarrow> (string \<Rightarrow> string option) \<Rightarrow> http_request \<Rightarrow>
    'r world \<times> AuditLog list \<Rightarrow> (response \<times> 'r world \<times> AuditLog list) option" where
  "serve_http X ttl fl r s =
     (if NewRouter X ttl r = None then None
      else Some (AuditMiddleware X fl (\<lambda>r rec w. case NewRouter X ttl r of
          Some handler \<Rightarrow> handler rec w
        | None \<Rightarrow> writeError (RestApp (InfraErr ''unreachable'')) rec w) r s))"

section \<open>Health\<close>

record healthResponse =
  hr_Status :: string
  hr_Version :: string
  hr_Time :: time
  hr_Dependencies :: "(string \<times> string) list"

fun probe :: "(string \<times> string option) list \<Rightarrow> int \<times> healthResponse \<Rightarrow> int \<times> healthResponse" where
  "probe [] acc = acc"
| "probe ((name, err) # deps) (status, resp) =
     (case err of
        Some e \<Rightarrow> probe deps (StatusServiceUnavailable,
          resp\<lparr>hr_Status := ''degraded'', hr_Dependencies := AList.update name (''error: '' @ e) (hr_Dependencies resp)\<rparr>)
      | None \<Rightarrow> probe deps (status, resp\<lparr>hr_Dependencies := AList.update name ''ok'' (hr_Dependencies resp)\<rparr>))"

text \<open>The dependencies come with the error their probe returned, if any.\<close>

definition healthHandler :: "string \<Rightarrow> time \<Rightarrow> (string \<times> string option) list \<Rightarrow> int \<times> healthResponse" where
  "healthHandler version now deps =
     probe deps (StatusOK, \<lparr>hr_Status = ''ok'', hr_Version = version, hr_Time = now, hr_Dependencies = []\<rparr>)"

end
