(* ===== verification/Pg_Integrity.thy ===== *)
theory Pg_Integrity
  imports Pg_Queries
begin

text \<open>
  Integrity of the store.  \<open>schema_ok\<close> collects the constraints of \<open>db/migrations\<close> (primary and unique keys,
  foreign keys, CHECKs); the statements that write are the steps of a transition system, and
  \<open>schema_ok\<close> is an invariant of it.  No statement of the program can be used to break a
  constraint, whatever its arguments.
\<close>

section \<open>The constraints\<close>

definition players_schema :: "db \<Rightarrow> bool" where
  "players_schema d \<longleftrightarrow>
     distinct (map pr_ID (db_players d)) \<and> distinct (map (\<lambda>r. ToLower (pr_Email r)) (db_players d)) \<and>
     (\<forall>r \<in> set (db_players d). players_check r = None)"

definition rooms_schema :: "db \<Rightarrow> bool" where
  "rooms_schema d \<longleftrightarrow>
     distinct (map mr_ID (db_rooms d)) \<and>
     (\<forall>r \<in> set (db_rooms d). rooms_check r = None \<and> has_player d (mr_OwnerID r))"

definition seats_schema :: "db \<Rightarrow> bool" where
  "seats_schema d \<longleftrightarrow>
     distinct (map (\<lambda>s. (sr_RoomID s, sr_PlayerID s)) (db_room_players d)) \<and>
     (\<forall>s \<in> set (db_room_players d). has_room d (sr_RoomID s) \<and> has_player d (sr_PlayerID s))"

definition rounds_schema :: "db \<Rightarrow> bool" where
  "rounds_schema d \<longleftrightarrow>
     distinct (map dr_ID (db_rounds d)) \<and> distinct (map (\<lambda>r. (dr_RoomID r, dr_Number r)) (db_rounds d)) \<and>
     (\<forall>r \<in> set (db_rounds d). rounds_check r = None \<and> has_room d (dr_RoomID r))"

definition bets_schema :: "db \<Rightarrow> bool" where
  "bets_schema d \<longleftrightarrow>
     distinct (map br_ID (db_bets d)) \<and> distinct (map (\<lambda>b. (br_RoundID b, br_PlayerID b)) (db_bets d)) \<and>
     (\<forall>b \<in> set (db_bets d). bets_check b = None \<and> has_round d (br_RoundID b) \<and> has_player d (br_PlayerID b))"

definition transactions_schema :: "db \<Rightarrow> bool" where
  "transactions_schema d \<longleftrightarrow>
     distinct (map lr_ID (db_transactions d)) \<and>
     (\<forall>t \<in> set (db_transactions d). transactions_check t = None \<and> has_player d (lr_PlayerID t) \<and>
        (case lr_RoundID t of None \<Rightarrow> True | Some i \<Rightarrow> has_round d i))"

definition schema_ok :: "db \<Rightarrow> bool" where
  "schema_ok d \<longleftrightarrow> players_schema d \<and> rooms_schema d \<and> seats_schema d \<and> rounds_schema d \<and>
     bets_schema d \<and> transactions_schema d"

lemmas schema_defs = schema_ok_def players_schema_def rooms_schema_def seats_schema_def
  rounds_schema_def bets_schema_def transactions_schema_def

definition empty_db :: db where
  "empty_db = \<lparr>db_players = [], db_rooms = [], db_room_players = [], db_rounds = [], db_bets = [],
     db_transactions = []\<rparr>"

section \<open>The statements that write\<close>

inductive sql_step :: "db \<Rightarrow> db \<Rightarrow> bool" where
  sql_CreatePlayer: "CreatePlayer r d = Inr (x, d') \<Longrightarrow> sql_step d d'"
| sql_UpdatePlayerBalance: "UpdatePlayerBalance i b d = Inr (y, d') \<Longrightarrow> sql_step d d'"
| sql_AddPlayerBalance: "AddPlayerBalance b i d = Inr (y, d') \<Longrightarrow> sql_step d d'"
| sql_InsertTransaction: "InsertTransaction t d = Inr (z, d') \<Longrightarrow> sql_step d d'"
| sql_CreateRoom: "CreateRoom_sql rm d = Inr (u, d') \<Longrightarrow> sql_step d d'"
| sql_AddRoomPlayer: "AddRoomPlayer s d = Inr (v, d') \<Longrightarrow> sql_step d d'"
| sql_RemoveRoomPlayer: "RemoveRoomPlayer i p d = Inr (n, d') \<Longrightarrow> sql_step d d'"
| sql_UpdateRoomCurrentRound: "UpdateRoomCurrentRound i k d = Inr (u, d') \<Longrightarrow> sql_step d d'"
| sql_UpdateRoomStatus: "UpdateRoomStatus st c i d = Inr (u, d') \<Longrightarrow> sql_step d d'"
| sql_CreateRound: "CreateRound i rid k t1 t2 t3 d = Inr (q, d') \<Longrightarrow> sql_step d d'"
| sql_SettleRound: "SettleRound_sql d1 d2 oc t i d = Inr (q, d') \<Longrightarrow> sql_step d d'"
| sql_InsertBet: "InsertBet i rid p ch a t d = Inr (b', d') \<Longrightarrow> sql_step d d'"
| sql_SettleBet: "SettleBet_sql wn po t i d = Inr (b', d') \<Longrightarrow> sql_step d d'"

section \<open>Preservation\<close>

lemma has_in:
  "has_player d i \<longleftrightarrow> i \<in> set (map pr_ID (db_players d))"
  "has_room d i \<longleftrightarrow> i \<in> set (map mr_ID (db_rooms d))"
  "has_round d i \<longleftrightarrow> i \<in> set (map dr_ID (db_rounds d))"
  by (auto simp: has_player_def has_room_def has_round_def list_ex_iff)

lemma has_cong:
  "map pr_ID (db_players d') = map pr_ID (db_players d) \<Longrightarrow> has_player d' = has_player d"
  "map mr_ID (db_rooms d') = map mr_ID (db_rooms d) \<Longrightarrow> has_room d' = has_room d"
  "map dr_ID (db_rounds d') = map dr_ID (db_rounds d) \<Longrightarrow> has_round d' = has_round d"
  unfolding fun_eq_iff has_in by simp_all

text \<open>A table that a statement does not write keeps its constraints when its references survive.\<close>

lemma schema_frame:
  "db_players d' = db_players d \<Longrightarrow> players_schema d' = players_schema d"
  "db_rooms d' = db_rooms d \<Longrightarrow> rooms_schema d \<Longrightarrow> (\<And>i. has_player d i \<Longrightarrow> has_player d' i) \<Longrightarrow> rooms_schema d'"
  "db_room_players d' = db_room_players d \<Longrightarrow> seats_schema d \<Longrightarrow> (\<And>i. has_player d i \<Longrightarrow> has_player d' i) \<Longrightarrow>
     (\<And>i. has_room d i \<Longrightarrow> has_room d' i) \<Longrightarrow> seats_schema d'"
  "db_rounds d' = db_rounds d \<Longrightarrow> rounds_schema d \<Longrightarrow> (\<And>i. has_room d i \<Longrightarrow> has_room d' i) \<Longrightarrow> rounds_schema d'"
  "db_bets d' = db_bets d \<Longrightarrow> bets_schema d \<Longrightarrow> (\<And>i. has_player d i \<Longrightarrow> has_player d' i) \<Longrightarrow>
     (\<And>i. has_round d i \<Longrightarrow> has_round d' i) \<Longrightarrow> bets_schema d'"
  "db_transactions d' = db_transactions d \<Longrightarrow> transactions_schema d \<Longrightarrow>
     (\<And>i. has_player d i \<Longrightarrow> has_player d' i) \<Longrightarrow> (\<And>i. has_round d i \<Longrightarrow> has_round d' i) \<Longrightarrow> transactions_schema d'"
  by (simp_all add: players_schema_def rooms_schema_def seats_schema_def rounds_schema_def bets_schema_def
      transactions_schema_def split: option.splits)

lemma schema_ok_step:
  assumes ok: "schema_ok d"
    and has: "\<And>i. has_player d i \<Longrightarrow> has_player d' i" "\<And>i. has_room d i \<Longrightarrow> has_room d' i"
      "\<And>i. has_round d i \<Longrightarrow> has_round d' i"
    and tables: "db_players d' = db_players d \<or> players_schema d'" "db_rooms d' = db_rooms d \<or> rooms_schema d'"
      "db_room_players d' = db_room_players d \<or> seats_schema d'" "db_rounds d' = db_rounds d \<or> rounds_schema d'"
      "db_bets d' = db_bets d \<or> bets_schema d'" "db_transactions d' = db_transactions d \<or> transactions_schema d'"
  shows "schema_ok d'"
proof -
  have "players_schema d'" using ok tables(1) schema_frame(1) [of d' d] unfolding schema_ok_def by blast
  moreover have "rooms_schema d'"
    using tables(2) ok has by (elim disjE) (assumption | (rule schema_frame(2) [of d' d]; simp add: schema_ok_def))+
  moreover have "seats_schema d'"
    using tables(3) ok has by (elim disjE) (assumption | (rule schema_frame(3) [of d' d]; simp add: schema_ok_def))+
  moreover have "rounds_schema d'"
    using tables(4) ok has by (elim disjE) (assumption | (rule schema_frame(4) [of d' d]; simp add: schema_ok_def))+
  moreover have "bets_schema d'"
    using tables(5) ok has by (elim disjE) (assumption | (rule schema_frame(5) [of d' d]; simp add: schema_ok_def))+
  moreover have "transactions_schema d'"
    using tables(6) ok has by (elim disjE) (assumption | (rule schema_frame(6) [of d' d]; simp add: schema_ok_def))+
  ultimately show ?thesis by (simp add: schema_ok_def)
qed

lemma find_mem: "find P xs = Some x \<Longrightarrow> x \<in> set xs \<and> P x"
  by (induction xs) (auto split: if_splits)

text \<open>In a table with a key, the row an UPDATE finds is the only one it changes.\<close>

lemma find_only:
  assumes "distinct (map k xs)" and "find (\<lambda>r. k r = i \<and> Q r) xs = Some r" and "r' \<in> set xs" and "k r' = i"
  shows "r' = r"
proof -
  have r: "r \<in> set xs" "k r = i" using find_mem [OF assms(2)] by auto
  have "inj_on k (set xs)" using assms(1) by (simp add: distinct_map)
  then show ?thesis by (rule inj_onD) (simp_all add: r assms)
qed

lemma find_only_key:
  "distinct (map k xs) \<Longrightarrow> find (\<lambda>r. k r = i) xs = Some r \<Longrightarrow> r' \<in> set xs \<Longrightarrow> k r' = i \<Longrightarrow> r' = r"
  using find_only [of k xs i "\<lambda>_. True" r r'] by simp

lemma schema_put_balance:
  assumes ok: "schema_ok d" and f: "find (\<lambda>r. pr_ID r = i) (db_players d) = Some r"
    and c: "players_check (r\<lparr>pr_Balance := b\<rparr>) = None"
  shows "schema_ok (put_balance i b d)"
proof -
  let ?d = "put_balance i b d"
  have keys: "map pr_ID (db_players ?d) = map pr_ID (db_players d)"
    "map (\<lambda>r. ToLower (pr_Email r)) (db_players ?d) = map (\<lambda>r. ToLower (pr_Email r)) (db_players d)"
    by (simp_all add: put_balance_def)
  have "players_check q = None" if "q \<in> set (db_players ?d)" for q
    using that ok c find_only_key [OF _ f] by (auto simp: schema_ok_def players_schema_def put_balance_def)
  then have "players_schema ?d" using ok keys by (simp only: schema_ok_def players_schema_def) blast
  moreover have "has_player ?d = has_player d" "has_room ?d = has_room d" "has_round ?d = has_round d"
    using keys(1) by (auto intro!: has_cong simp: put_balance_def)
  ultimately show ?thesis
    by (intro schema_ok_step [OF ok]) (simp_all add: put_balance_def)
qed

lemma schema_upd_room:
  assumes ok: "schema_ok d" and f: "find (\<lambda>r. mr_ID r = i) (db_rooms d) = Some r"
    and g: "\<And>r. mr_ID (g r) = mr_ID r" "\<And>r. mr_OwnerID (g r) = mr_OwnerID r" and c: "rooms_check (g r) = None"
  shows "schema_ok (upd_room i g d)"
proof -
  let ?d = "upd_room i g d"
  have keys: "map mr_ID (db_rooms ?d) = map mr_ID (db_rooms d)" by (simp add: upd_room_def g)
  have has: "has_player ?d = has_player d" "has_room ?d = has_room d" "has_round ?d = has_round d"
    using keys by (auto intro!: has_cong simp: upd_room_def)
  have "rooms_check q = None \<and> has_player d (mr_OwnerID q)" if "q \<in> set (db_rooms ?d)" for q
    using that ok c find_only_key [OF _ f] by (auto simp: schema_ok_def rooms_schema_def upd_room_def g)
  then have "rooms_schema ?d" using ok keys has by (simp only: schema_ok_def rooms_schema_def) blast
  then show ?thesis
    by (intro schema_ok_step [OF ok]) (simp_all add: has, simp_all add: upd_room_def)
qed

lemma schema_upd_round:
  assumes ok: "schema_ok d" and f: "find (\<lambda>r. dr_ID r = i \<and> Q r) (db_rounds d) = Some r"
    and g: "\<And>r. dr_ID (g r) = dr_ID r" "\<And>r. dr_RoomID (g r) = dr_RoomID r" "\<And>r. dr_Number (g r) = dr_Number r"
    and c: "rounds_check (g r) = None"
  shows "schema_ok (upd_round i g d)"
proof -
  let ?d = "upd_round i g d"
  have keys: "map dr_ID (db_rounds ?d) = map dr_ID (db_rounds d)"
    "map (\<lambda>r. (dr_RoomID r, dr_Number r)) (db_rounds ?d) = map (\<lambda>r. (dr_RoomID r, dr_Number r)) (db_rounds d)"
    by (simp_all add: upd_round_def g)
  have has: "has_player ?d = has_player d" "has_room ?d = has_room d" "has_round ?d = has_round d"
    using keys(1) by (auto intro!: has_cong simp: upd_round_def)
  have "rounds_check q = None \<and> has_room d (dr_RoomID q)" if "q \<in> set (db_rounds ?d)" for q
    using that ok c find_only [OF _ f] by (auto simp: schema_ok_def rounds_schema_def upd_round_def g)
  then have "rounds_schema ?d" using ok keys has by (simp only: schema_ok_def rounds_schema_def) blast
  then show ?thesis
    by (intro schema_ok_step [OF ok]) (simp_all add: has, simp_all add: upd_round_def)
qed

lemma schema_upd_bet:
  assumes ok: "schema_ok d" and f: "find (\<lambda>b. br_ID b = i \<and> Q b) (db_bets d) = Some r"
    and g: "\<And>b. br_ID (g b) = br_ID b" "\<And>b. br_RoundID (g b) = br_RoundID b" "\<And>b. br_PlayerID (g b) = br_PlayerID b"
    and c: "bets_check (g r) = None"
  shows "schema_ok (upd_bet i g d)"
proof -
  let ?d = "upd_bet i g d"
  have keys: "map br_ID (db_bets ?d) = map br_ID (db_bets d)"
    "map (\<lambda>b. (br_RoundID b, br_PlayerID b)) (db_bets ?d) = map (\<lambda>b. (br_RoundID b, br_PlayerID b)) (db_bets d)"
    by (simp_all add: upd_bet_def g)
  have has: "has_player ?d = has_player d" "has_room ?d = has_room d" "has_round ?d = has_round d"
    by (auto intro!: has_cong simp: upd_bet_def)
  have "bets_check q = None \<and> has_round d (br_RoundID q) \<and> has_player d (br_PlayerID q)"
    if "q \<in> set (db_bets ?d)" for q
    using that ok c find_only [OF _ f] by (auto simp: schema_ok_def bets_schema_def upd_bet_def g)
  then have "bets_schema ?d" using ok keys has by (simp only: schema_ok_def bets_schema_def) blast
  then show ?thesis
    by (intro schema_ok_step [OF ok]) (simp_all add: has, simp_all add: upd_bet_def)
qed

lemma sql_step_schema: "sql_step d d' \<Longrightarrow> schema_ok d \<Longrightarrow> schema_ok d'"
proof (induction rule: sql_step.induct)
  case (sql_CreatePlayer r d x d')
  then show ?case
    by (intro schema_ok_step [of d d'])
       (auto simp: CreatePlayer_def ok_inv schema_ok_def players_schema_def has_in list_all_iff)
next
  case (sql_UpdatePlayerBalance i b d y d')
  then show ?case
    by (auto simp: UpdatePlayerBalance_def ok_inv split: option.splits intro: schema_put_balance)
next
  case (sql_AddPlayerBalance b i d y d')
  then show ?case
    by (auto simp: AddPlayerBalance_def ok_inv split: option.splits if_splits intro: schema_put_balance)
next
  case (sql_InsertTransaction t d z d')
  then show ?case
    by (intro schema_ok_step [of d d'])
       (auto simp: InsertTransaction_def ok_inv schema_ok_def transactions_schema_def has_in list_all_iff
         split: option.splits)
next
  case (sql_CreateRoom rm d u d')
  then show ?case
    by (intro schema_ok_step [of d d'])
       (auto simp: CreateRoom_sql_def ok_inv schema_ok_def rooms_schema_def has_in)
next
  case (sql_AddRoomPlayer s d v d')
  then show ?case
    by (intro schema_ok_step [of d d'])
       (auto simp: AddRoomPlayer_def ok_inv schema_ok_def seats_schema_def has_in list_all_iff)
next
  case (sql_RemoveRoomPlayer i p d n d')
  then show ?case
    by (intro schema_ok_step [of d d'])
       (auto simp: RemoveRoomPlayer_def schema_ok_def seats_schema_def has_in Let_def distinct_map inj_on_def)
next
  case (sql_UpdateRoomCurrentRound i k d u d')
  then show ?case
    by (auto simp: UpdateRoomCurrentRound_def ok_inv split: option.splits intro!: schema_upd_room)
next
  case (sql_UpdateRoomStatus st c i d u d')
  then show ?case
    by (auto simp: UpdateRoomStatus_def ok_inv split: option.splits intro!: schema_upd_room)
next
  case (sql_CreateRound i rid k t1 t2 t3 d q d')
  then show ?case
    by (intro schema_ok_step [of d d'])
       (auto simp: CreateRound_def Let_def ok_inv schema_ok_def rounds_schema_def has_in list_all_iff)
next
  case (sql_SettleRound d1 d2 oc t i d q d')
  then show ?case
    by (auto simp: SettleRound_sql_def ok_inv settle_row_def split: option.splits intro!: schema_upd_round dest: find_mem)
next
  case (sql_InsertBet i rid p ch a t d b' d')
  then show ?case
    by (intro schema_ok_step [of d d'])
       (auto simp: InsertBet_def Let_def ok_inv schema_ok_def bets_schema_def has_in list_all_iff)
next
  case (sql_SettleBet wn po t i d b' d')
  then show ?case
    by (auto simp: SettleBet_sql_def ok_inv resolve_row_def split: option.splits intro!: schema_upd_bet dest: find_mem)
qed

lemma schema_empty: "schema_ok empty_db"
  by (simp add: schema_defs empty_db_def)

interpretation schema: step_invariant "\<lambda>d. d = empty_db" sql_step schema_ok
  by unfold_locales (auto simp: schema_empty sql_step_schema)


definition sample_player :: PlayerRow where
  "sample_player = \<lparr>pr_ID = ''p'', pr_Email = ''a@b.c'', pr_PasswordHash = ''h'', pr_Balance = 5, pr_CreatedAt = 0\<rparr>"


end
