(* ===== verification/Game_Store.thy ===== *)
theory Game_Store
  imports App_Auth Pg_Integrity
begin

text \<open>
  The stored game.  A room row with its seat rows, its latest round row and the bets of that
  round represent one \<open>Room\<close> aggregate: \<open>abs_room\<close> is the abstraction function, and what the
  repositories load is exactly it.  \<open>play_ok\<close> says that every stored room and every stored round is
  well-formed in the sense of the domain, that rounds are numbered below the room's counter
  with at most the last one open, and that a player has a seat in at most one active room.
\<close>

section \<open>Identifiers in the tables\<close>

definition cid :: "'r ext \<Rightarrow> id \<Rightarrow> bool" where
  "cid X i \<longleftrightarrow> x_uuid X i = Some i \<and> \<not> blank i"

lemma uuid_cid: "uuid_canonical X \<Longrightarrow> x_uuid X s = Some u \<Longrightarrow> cid X u"
  by (auto simp: uuid_canonical_def cid_def)

definition canonical_rows :: "'r ext \<Rightarrow> db \<Rightarrow> bool" where
  "canonical_rows X d \<longleftrightarrow>
     (\<forall>r \<in> set (db_players d). cid X (pr_ID r)) \<and>
     (\<forall>r \<in> set (db_rooms d). cid X (mr_ID r) \<and> cid X (mr_OwnerID r)) \<and>
     (\<forall>s \<in> set (db_room_players d). cid X (sr_PlayerID s)) \<and>
     (\<forall>r \<in> set (db_rounds d). cid X (dr_ID r)) \<and>
     (\<forall>b \<in> set (db_bets d). cid X (br_ID b) \<and> cid X (br_PlayerID b))"

definition store_ok :: "'r ext \<Rightarrow> db \<Rightarrow> bool" where
  "store_ok X d \<longleftrightarrow> schema_ok d \<and> canonical_rows X d"

section \<open>Abstraction\<close>

definition bets_of :: "db \<Rightarrow> id \<Rightarrow> BetRow list" where
  "bets_of d i = sort_key br_PlacedAt (filter (\<lambda>b. br_RoundID b = i) (db_bets d))"

definition abs_round :: "db \<Rightarrow> RoundRow \<Rightarrow> Round" where
  "abs_round d row =
     \<lparr>rd_ID = dr_ID row, rd_RoomID = dr_RoomID row, rd_Number = dr_Number row,
      rd_BettingOpensAt = dr_BettingOpensAt row, rd_BettingClosesAt = dr_BettingClosesAt row,
      rd_Die1 = fromInt2 (dr_Die1 row), rd_Die2 = fromInt2 (dr_Die2 row),
      rd_Outcome = (case dr_Outcome row of None \<Rightarrow> [] | Some oc \<Rightarrow> oc), rd_Status = dr_Status row,
      rd_SettledAt = dr_SettledAt row,
      rd_bets = map (\<lambda>b. (br_PlayerID b, toDomainBet b)) (bets_of d (dr_ID row))\<rparr>"

definition current_row :: "db \<Rightarrow> id \<Rightarrow> RoundRow option" where
  "current_row d i = find (\<lambda>_. True) (sort_key (\<lambda>r. - dr_Number r) (rounds_of d i))"

definition seat_map :: "db \<Rightarrow> id \<Rightarrow> (id \<times> time) list" where
  "seat_map d i = map (\<lambda>s. (sr_PlayerID s, sr_JoinedAt s)) (sort_key sr_JoinedAt (seats_of d i))"

definition bare_room :: "db \<Rightarrow> RoomRow \<Rightarrow> Room" where
  "bare_room d r =
     \<lparr>rm_ID = mr_ID r, rm_OwnerID = mr_OwnerID r, rm_Status = mr_Status r, rm_MaxRounds = MaxRounds,
      rm_MaxPlayers = MaxPlayers, rm_CurrentRound = mr_CurrentRound r, rm_CreatedAt = mr_CreatedAt r,
      rm_ClosedAt = mr_ClosedAt r, rm_players = seat_map d (mr_ID r), rm_round = None\<rparr>"

definition abs_room :: "db \<Rightarrow> RoomRow \<Rightarrow> Room" where
  "abs_room d r = AttachRound (bare_room d r) (map_option (abs_round d) (current_row d (mr_ID r)))"

section \<open>What the repositories load\<close>

lemma fold_update_fresh:
  assumes "distinct (map k xs)" and "\<forall>x \<in> set xs. k x \<notin> fst ` set m"
  shows "fold (\<lambda>x m. AList.update (k x) (v x) m) xs m = m @ map (\<lambda>x. (k x, v x)) xs"
  using assms
proof (induction xs arbitrary: m)
  case (Cons x xs)
  then have "AList.update (k x) (v x) m = m @ [(k x, v x)]"
    by (intro AList_update_new) (simp add: map_of_eq_None_iff)
  moreover have "fold (\<lambda>x m. AList.update (k x) (v x) m) xs (m @ [(k x, v x)]) =
      (m @ [(k x, v x)]) @ map (\<lambda>x. (k x, v x)) xs"
    using Cons.prems by (intro Cons.IH) (auto simp: image_iff)
  ultimately show ?case by simp
qed simp

lemma seats_distinct:
  assumes "schema_ok d"
  shows "distinct (map sr_PlayerID (sort_key sr_JoinedAt (seats_of d i)))"
proof -
  have "distinct (map (\<lambda>s. (sr_RoomID s, sr_PlayerID s)) (db_room_players d))"
    using assms by (simp add: schema_ok_def seats_schema_def)
  then have "distinct (map sr_PlayerID (seats_of d i))"
    unfolding seats_of_def by (auto simp: distinct_map inj_on_def)
  moreover have "mset (map sr_PlayerID (sort_key sr_JoinedAt (seats_of d i))) = mset (map sr_PlayerID (seats_of d i))"
    by (simp add: mset_map)
  ultimately show ?thesis using mset_eq_imp_distinct_iff by blast
qed

lemma bets_distinct:
  assumes "schema_ok d"
  shows "distinct (map br_PlayerID (bets_of d i))"
proof -
  have "distinct (map (\<lambda>b. (br_RoundID b, br_PlayerID b)) (db_bets d))"
    using assms by (simp add: schema_ok_def bets_schema_def)
  then have "distinct (map br_PlayerID (filter (\<lambda>b. br_RoundID b = i) (db_bets d)))"
    by (auto simp: distinct_map inj_on_def)
  moreover have "mset (map br_PlayerID (bets_of d i)) = mset (map br_PlayerID (filter (\<lambda>b. br_RoundID b = i) (db_bets d)))"
    by (simp add: bets_of_def mset_map)
  ultimately show ?thesis using mset_eq_imp_distinct_iff by blast
qed

lemma Room_load_ok:
  assumes "store_ok X (w_db w)" and "Room_load X i u w = (Inr room, w')"
  obtains r where "x_uuid X i = Some (mr_ID r)" "r \<in> set (db_rooms (w_db w))"
    "room = bare_room (w_db w) r" "w_db w' = w_db w"
proof -
  let ?d = "w_db w"
  from assms(2) obtain rid r where i: "x_uuid X i = Some rid"
    and f: "find (\<lambda>r. mr_ID r = rid) (db_rooms ?d) = Some r"
    and h: "RehydrateRoom (mr_ID r) (mr_OwnerID r) (mr_Status r) (mr_CurrentRound r) (mr_CreatedAt r) (mr_ClosedAt r)
       (fold (\<lambda>s m. AList.update (sr_PlayerID s) (sr_JoinedAt s) m) (sort_key sr_JoinedAt (seats_of ?d rid)) []) None = Inr room"
    by (auto simp: Room_load_def GetRoomForUpdate_def GetRoomByID_def ListRoomPlayers_def ok_inv split: if_splits)
  have r: "mr_ID r = rid" "r \<in> set (db_rooms ?d)" using find_mem [OF f] by auto
  have "distinct (map sr_PlayerID (sort_key sr_JoinedAt (seats_of ?d rid)))"
    using assms(1) seats_distinct by (simp add: store_ok_def)
  from fold_update_fresh [OF this, of "[]" sr_JoinedAt] h have "room = bare_room ?d r"
    by (auto simp: RehydrateRoom_def bare_room_def seat_map_def r split: if_splits)
  with i r readingD [OF reading_repos(5) assms(2)] show ?thesis by (intro that) simp_all
qed

lemma hydrate_ok:
  assumes "store_ok X (w_db w)" and "row \<in> set (db_rounds (w_db w))" and "hydrate X row w = (Inr rnd, w')"
  shows "rnd = abs_round (w_db w) row" and "w_db w' = w_db w"
proof -
  have c: "x_uuid X (dr_ID row) = Some (dr_ID row)" "schema_ok (w_db w)"
    using assms(1,2) by (auto simp: store_ok_def canonical_rows_def cid_def)
  let ?bs = "map toDomainBet (bets_of (w_db w) (dr_ID row))"
  from assms(3) have h: "RehydrateRound (dr_ID row) (dr_RoomID row) (dr_Number row) (dr_BettingOpensAt row)
       (dr_BettingClosesAt row) (fromInt2 (dr_Die1 row)) (fromInt2 (dr_Die2 row))
       (case dr_Outcome row of None \<Rightarrow> [] | Some oc \<Rightarrow> oc) (dr_Status row) (dr_SettledAt row) ?bs = Inr rnd"
    by (auto simp: hydrate_def Bet_ListByRound_def ListBetsByRound_def bets_of_def ok_inv c)
  have "map bt_PlayerID ?bs = map br_PlayerID (bets_of (w_db w) (dr_ID row))"
    by (simp add: toDomainBet_def)
  then have "distinct (map bt_PlayerID ?bs)" using bets_distinct [OF c(2)] by (simp only:)
  from fold_update_fresh [OF this, of "[]" "\<lambda>b. b"] h show "rnd = abs_round (w_db w) row"
    by (auto simp: RehydrateRound_def abs_round_def toDomainBet_def comp_def)
  show "w_db w' = w_db w" by (rule readingD [OF reading_repos(13) assms(3)])
qed

lemma current_row_mem: "current_row d i = Some row \<Longrightarrow> row \<in> set (db_rounds d) \<and> dr_RoomID row = i"
  using find_mem [of "\<lambda>_. True" "sort_key (\<lambda>r. - dr_Number r) (rounds_of d i)" row]
  by (auto simp: current_row_def rounds_of_def)

lemma Round_GetCurrent_ok:
  assumes "store_ok X (w_db w)" and "x_uuid X i = Some rid" and "Round_GetCurrent X i w = (Inr rnd, w')"
  obtains row where "current_row (w_db w) rid = Some row" "rnd = abs_round (w_db w) row"
proof -
  from assms(2,3) obtain row w1 where f: "current_row (w_db w) rid = Some row" and h: "hydrate X row w1 = (Inr rnd, w')"
    and w1: "w_db w1 = w_db w"
    by (auto simp: Round_GetCurrent_def GetCurrentRound_def current_row_def ok_inv)
  from hydrate_ok(1) [OF _ _ h] assms(1) w1 current_row_mem [OF f] have "rnd = abs_round (w_db w) row" by simp
  with f show ?thesis by (rule that)
qed

lemma Round_GetCurrent_missing:
  assumes "x_uuid X i = Some rid" and "Round_GetCurrent X i w = (Inl (GameErr ErrRoundNotFound), w')"
    and "cid X rid" and "store_ok X (w_db w)"
  shows "current_row (w_db w) rid = None"
proof (rule ccontr)
  assume "current_row (w_db w) rid \<noteq> None"
  then obtain row where f: "current_row (w_db w) rid = Some row" by auto
  then have row: "row \<in> set (db_rounds (w_db w))" using current_row_mem by blast
  then have c: "x_uuid X (dr_ID row) = Some (dr_ID row)"
    using assms(4) by (auto simp: store_ok_def canonical_rows_def cid_def)
  from assms(1,2) f c show False
    by (auto simp: Round_GetCurrent_def GetCurrentRound_def current_row_def [symmetric] bnd_run on_error_run toUUID_def
        ret_def isNoRows_def hydrate_def Bet_ListByRound_def ListBetsByRound_def lift_def RehydrateRound_def
        exec_def Let_def reads_def one_row_def split: if_splits)
qed

lemma attachLiveRound_ok:
  assumes "store_ok X (w_db w)" and "r \<in> set (db_rooms (w_db w))"
    and "attachLiveRound X (bare_room (w_db w) r) w = (Inr (live, room), w')"
  shows "live = map_option (abs_round (w_db w)) (current_row (w_db w) (mr_ID r))"
    and "room = abs_room (w_db w) r" and "w_db w' = w_db w"
proof -
  let ?d = "w_db w" and ?room = "bare_room (w_db w) r"
  have c: "x_uuid X (mr_ID r) = Some (mr_ID r)" "cid X (mr_ID r)"
    using assms(1,2) by (auto simp: store_ok_def canonical_rows_def cid_def)
  have id: "rm_ID ?room = mr_ID r" by (simp add: bare_room_def)
  from assms(3) obtain res w1 where g: "Round_GetCurrent X (mr_ID r) w = (res, w1)"
    and k: "(case res of Inl e \<Rightarrow> if isRoundMissing e then ret (None, ?room) else fail e
           | Inr rnd \<Rightarrow> ret (Some rnd, AttachRound ?room (Some rnd))) w1 = (Inr (live, room), w')"
    unfolding attachLiveRound_def id by (auto simp: bnd_ok attempt_ok)
  have "live = map_option (abs_round ?d) (current_row ?d (mr_ID r)) \<and> room = abs_room ?d r"
  proof (cases res)
    case (Inl e)
    with k have "e = GameErr ErrRoundNotFound" "live = None" "room = ?room"
      by (auto simp: isRoundMissing_def ret_def fail_def split: if_splits)
    with g Inl Round_GetCurrent_missing [OF c(1) _ c(2) assms(1)] show ?thesis
      by (auto simp: abs_room_def AttachRound_def bare_room_def)
  next
    case (Inr rnd)
    with g obtain row where "current_row ?d (mr_ID r) = Some row" "rnd = abs_round ?d row"
      using Round_GetCurrent_ok [OF assms(1) c(1)] by metis
    with k Inr show ?thesis by (auto simp: abs_room_def ret_def)
  qed
  then show "live = map_option (abs_round ?d) (current_row ?d (mr_ID r))" "room = abs_room ?d r" by auto
  show "w_db w' = ?d" by (rule readingD [OF reading_attachLiveRound assms(3)])
qed

end
