(* ===== verification/Game_Integrity.thy ===== *)
theory Game_Integrity
  imports Game_Store
begin

text \<open>
  Every use case keeps the schema and the canonical form of the identifiers: each repository
  call does, whatever it returns, and the use cases are sequences of such calls.
\<close>

lemma steady_schema_exec:
  assumes "\<And>d x d'. q d = Inr (x, d') \<Longrightarrow> sql_step d d'"
  shows "steady schema_ok (exec X q)"
  by (rule steady_exec) (blast intro: sql_step_schema dest: assms)

lemma steady_store_exec:
  assumes "\<And>d x d'. q d = Inr (x, d') \<Longrightarrow> sql_step d d'"
    and "\<And>d x d'. canonical_rows X d \<Longrightarrow> q d = Inr (x, d') \<Longrightarrow> canonical_rows X d'"
  shows "steady (store_ok X) (exec X q)"
  by (rule steady_exec) (auto simp: store_ok_def intro: sql_step_schema dest: assms)

lemma steady_toUUID_bnd:
  assumes "\<And>u. x_uuid X s = Some u \<Longrightarrow> steady I (k u)"
  shows "steady I (bnd (toUUID X e s) k)"
  using assms by (cases "x_uuid X s") (auto simp: toUUID_def steady_def bnd_def ret_def fail_def)

lemma canonical_update:
  "canonical_rows X d \<Longrightarrow> canonical_rows X (put_balance i b d)"
  "canonical_rows X d \<Longrightarrow> canonical_rows X (d\<lparr>db_transactions := ts\<rparr>)"
  "canonical_rows X d \<Longrightarrow> (\<And>r. mr_ID (g r) = mr_ID r) \<Longrightarrow> (\<And>r. mr_OwnerID (g r) = mr_OwnerID r) \<Longrightarrow>
     canonical_rows X (upd_room i g d)"
  "canonical_rows X d \<Longrightarrow> (\<And>r. dr_ID (h r) = dr_ID r) \<Longrightarrow> canonical_rows X (upd_round i h d)"
  "canonical_rows X d \<Longrightarrow> (\<And>b. br_ID (k b) = br_ID b) \<Longrightarrow> (\<And>b. br_PlayerID (k b) = br_PlayerID b) \<Longrightarrow>
     canonical_rows X (upd_bet i k d)"
  by (auto simp: canonical_rows_def put_balance_def upd_room_def upd_round_def upd_bet_def)

lemma steady_store_updates:
  "steady (store_ok X) (exec X (UpdatePlayerBalance i b))" "steady (store_ok X) (exec X (UpdateRoomStatus st c i))"
  "steady (store_ok X) (exec X (UpdateRoomCurrentRound i n))" "steady (store_ok X) (exec X (SettleRound_sql d1 d2 oc t i))"
  "steady (store_ok X) (exec X (SettleBet_sql wn po t i))" "steady (store_ok X) (exec X (InsertTransaction tr))"
  by (rule steady_store_exec;
      (erule sql_step.intros | (auto simp: UpdatePlayerBalance_def UpdateRoomStatus_def UpdateRoomCurrentRound_def
        SettleRound_sql_def SettleBet_sql_def InsertTransaction_def ok_inv settle_row_def resolve_row_def
        split: option.splits intro!: canonical_update) | (auto simp: canonical_rows_def)))+

lemma steady_store_inserts:
  assumes "uuid_canonical X"
  shows "steady (store_ok X) (AddPlayer X rm p t)" "steady (store_ok X) (Bet_Insert X b)"
    "steady (store_ok X) (Round_Create X rnd)" "steady (store_ok X) (Player_Create X pl)"
proof -
  have seat: "steady (store_ok X) (exec X (AddRoomPlayer \<lparr>sr_RoomID = r, sr_PlayerID = q, sr_JoinedAt = t\<rparr>))"
    if "x_uuid X s = Some q" for r q s
    using uuid_cid [OF assms that]
    by (intro steady_store_exec) (erule sql_step.intros, auto simp: AddRoomPlayer_def ok_inv canonical_rows_def)
  show "steady (store_ok X) (AddPlayer X rm p t)"
    unfolding AddPlayer_def by (intro steady_toUUID_bnd steady_bnd steady_on_error seat steady_basic)
  have bet: "steady (store_ok X) (exec X (InsertBet i r q ch a t'))"
    if "x_uuid X s = Some i" "x_uuid X s' = Some q" for i r q ch a t' s s'
    using uuid_cid [OF assms that(1)] uuid_cid [OF assms that(2)]
    by (intro steady_store_exec) (erule sql_step.intros, auto simp: InsertBet_def Let_def ok_inv canonical_rows_def)
  show "steady (store_ok X) (Bet_Insert X b)"
    unfolding Bet_Insert_def by (intro steady_toUUID_bnd steady_bnd steady_on_error bet steady_basic)
  have rnd: "steady (store_ok X) (exec X (CreateRound i r n t1 t2 t3))" if "x_uuid X s = Some i" for i r n t1 t2 t3 s
    using uuid_cid [OF assms that]
    by (intro steady_store_exec) (erule sql_step.intros, auto simp: CreateRound_def Let_def ok_inv canonical_rows_def)
  have at: "steady (store_ok X) (\<lambda>w. exec X (CreateRound i r n t1 t2 (server_now X w)) w)"
    if "x_uuid X s = Some i" for i r n t1 t2 s
    by (rule steady_server_now) (rule rnd [OF that])
  show "steady (store_ok X) (Round_Create X rnd)"
    unfolding Round_Create_def by (intro steady_toUUID_bnd steady_bnd steady_on_error at steady_basic)
  have pl: "steady (store_ok X) (exec X (CreatePlayer r))" if "x_uuid X s = Some (pr_ID r)" for r s
    using uuid_cid [OF assms that]
    by (intro steady_store_exec) (erule sql_step.intros, auto simp: CreatePlayer_def ok_inv canonical_rows_def)
  show "steady (store_ok X) (Player_Create X pl)"
    unfolding Player_Create_def by (intro steady_toUUID_bnd steady_bnd steady_on_error pl steady_basic) simp
qed

lemma steady_store_repos:
  "steady (store_ok X) (UpdateBalance X i b)" "steady (store_ok X) (Transaction_Insert X t)"
  "steady (store_ok X) (UpdateStatus X rm st c)" "steady (store_ok X) (SetCurrentRound X rm n)"
  "steady (store_ok X) (SettleBet X i wn po)" "steady (store_ok X) (Round_SettleRow X rnd)"
proof -
  have null: "steady (store_ok X) (toNullUUID X e s)" for e s
    unfolding toNullUUID_def by (cases s) (auto intro!: steady_bnd steady_basic)
  show "steady (store_ok X) (UpdateBalance X i b)" "steady (store_ok X) (Transaction_Insert X t)"
    "steady (store_ok X) (UpdateStatus X rm st c)" "steady (store_ok X) (SetCurrentRound X rm n)"
    "steady (store_ok X) (SettleBet X i wn po)" "steady (store_ok X) (Round_SettleRow X rnd)"
    unfolding UpdateBalance_def Transaction_Insert_def UpdateStatus_def SetCurrentRound_def SettleBet_def Round_SettleRow_def
    by (intro steady_bnd steady_on_error steady_store_updates steady_basic steady_case_option null)+
qed

lemma keeps_Room_Create_store: "uuid_canonical X \<Longrightarrow> keeps (store_ok X) (Room_Create X room)"
proof -
  assume u: "uuid_canonical X"
  have room: "steady (store_ok X) (exec X (CreateRoom_sql r))"
    if "x_uuid X s = Some (mr_ID r)" "x_uuid X s' = Some (mr_OwnerID r)" for r s s'
    using uuid_cid [OF u that(1)] uuid_cid [OF u that(2)]
    by (intro steady_store_exec) (erule sql_step.intros, auto simp: CreateRoom_sql_def ok_inv canonical_rows_def)
  have bind: "keeps I (bnd (toUUID X e s) k)" if "\<And>v. x_uuid X s = Some v \<Longrightarrow> keeps I (k v)"
    for I e s and k :: "id \<Rightarrow> ('a, error, 'b) prog"
    using that by (auto simp: keeps_def bnd_ok toUUID_ok)
  show ?thesis
    unfolding Room_Create_def
    by (intro bind keeps_bnd keeps_each keeps_steady [OF steady_store_inserts(1) [OF u]] keeps_steady
        [OF steady_on_error] room) simp_all
qed

lemma keeps_moves_store:
  "keeps (store_ok X) (stake X p a rid now)"
  "keeps (store_ok X) (settle_credit X p a rid now)" "keeps (store_ok X) (refund X p a rid now)"
  "keeps (store_ok X) (Deposit_tx X i a)" "keeps (store_ok X) (Withdraw_tx X i a)"
  unfolding stake_def settle_credit_def refund_def Deposit_tx_def Withdraw_tx_def
  by (intro keeps_bnd keeps_if keeps_reads keeps_steady [OF steady_store_repos(1)] keeps_steady [OF steady_store_repos(2)])+

lemma keeps_pay_result_store: "keeps (store_ok X) (pay_result X rid now res)"
  unfolding pay_result_def
  by (intro keeps_bnd keeps_if keeps_reads keeps_moves_store steady_store_repos [THEN keeps_steady])

lemma keeps_store:
  assumes "uuid_canonical X"
  shows "keeps (store_ok X) (CreateRoom_tx X owner room)" "keeps (store_ok X) (JoinRoom_tx X rm p)"
    "keeps (store_ok X) (CloseRoom_tx X rm who reason)" "keeps (store_ok X) (StartRound_tx X window rm who)"
    "keeps (store_ok X) (PlaceBet_tx X rm p ch a)" "keeps (store_ok X) (SettleRound_tx X rm)"
    "keeps (store_ok X) (AbortRoom_tx X rm reason)"
  unfolding CreateRoom_tx_def JoinRoom_tx_def CloseRoom_tx_def StartRound_tx_def PlaceBet_tx_def
    PlaceBet_live_def SettleRound_tx_def SettleRound_live_def SettleRound_writes_def pay_result_def AbortRoom_tx_def refund_round_def
  by (intro keeps_bnd keeps_if keeps_each keeps_case_sum keeps_case_option keeps_case_prod keeps_Let keeps_reads
      keeps_attempt_Roll keeps_attempt keeps_Room_Create_store keeps_moves_store steady_store_inserts
      steady_store_repos [THEN keeps_steady] steady_store_inserts [THEN keeps_steady] assms)+

end
