(* ===== verification/Game_Invariant.thy ===== *)
theory Game_Invariant
  imports Game_Integrity
begin

text \<open>
  The game invariant of the database.  Each use case is shown to keep it: what a transaction
  writes is the image, under \<open>abs_room\<close>, of the domain operation it ran on what it loaded.
\<close>

section \<open>The invariant\<close>

definition rooms_ok_but :: "id set \<Rightarrow> db \<Rightarrow> bool" where
  "rooms_ok_but A d \<longleftrightarrow> (\<forall>r \<in> set (db_rooms d). mr_ID r \<notin> A \<longrightarrow> wf_room (abs_room d r))"

definition rounds_ok :: "db \<Rightarrow> bool" where
  "rounds_ok d \<longleftrightarrow> (\<forall>row \<in> set (db_rounds d). wf_round (abs_round d row))"

definition order_ok :: "db \<Rightarrow> bool" where
  "order_ok d \<longleftrightarrow> (\<forall>r \<in> set (db_rooms d). \<forall>row \<in> set (db_rounds d). dr_RoomID row = mr_ID r \<longrightarrow>
     dr_Number row \<le> mr_CurrentRound r \<and>
     (dr_Status row = RoundBetting \<and> mr_Status r \<noteq> RoomClosed \<longrightarrow> dr_Number row = mr_CurrentRound r))"

definition one_room :: "db \<Rightarrow> bool" where
  "one_room d \<longleftrightarrow> (\<forall>p. \<forall>i \<in> set (active_rooms d p). \<forall>j \<in> set (active_rooms d p). i = j)"

definition game_ok :: "db \<Rightarrow> bool" where
  "game_ok d \<longleftrightarrow> rooms_ok_but {} d \<and> rounds_ok d \<and> order_ok d \<and> one_room d"

definition play_ok :: "'r ext \<Rightarrow> db \<Rightarrow> bool" where
  "play_ok X d \<longleftrightarrow> store_ok X d \<and> game_ok d"

section \<open>Frames\<close>

lemma set_bets_of: "set (bets_of d i) = {b \<in> set (db_bets d). br_RoundID b = i}"
  by (auto simp: bets_of_def)

lemma set_rounds_of: "set (rounds_of d i) = {r \<in> set (db_rounds d). dr_RoomID r = i}"
  by (auto simp: rounds_of_def)

lemma set_seats_of: "set (seats_of d i) = {s \<in> set (db_room_players d). sr_RoomID s = i}"
  by (auto simp: seats_of_def)

lemma abs_round_cong: "bets_of d' (dr_ID row) = bets_of d (dr_ID row) \<Longrightarrow> abs_round d' row = abs_round d row"
  by (simp add: abs_round_def)

lemma abs_room_cong_rounds:
  assumes "seats_of d' (mr_ID r) = seats_of d (mr_ID r)" and "rounds_of d' (mr_ID r) = rounds_of d (mr_ID r)"
    and "\<And>row. row \<in> set (db_rounds d) \<Longrightarrow> dr_RoomID row = mr_ID r \<Longrightarrow> abs_round d' row = abs_round d row"
  shows "abs_room d' r = abs_room d r"
proof -
  have c: "current_row d' (mr_ID r) = current_row d (mr_ID r)" by (simp add: current_row_def assms(2))
  have "map_option (abs_round d') (current_row d (mr_ID r)) = map_option (abs_round d) (current_row d (mr_ID r))"
    using current_row_mem by (intro map_option_cong assms(3) refl) auto
  with c show ?thesis by (simp add: abs_room_def bare_room_def seat_map_def assms(1))
qed

lemma abs_room_cong:
  assumes "seats_of d' (mr_ID r) = seats_of d (mr_ID r)" and "rounds_of d' (mr_ID r) = rounds_of d (mr_ID r)"
    and "\<And>row. row \<in> set (db_rounds d) \<Longrightarrow> dr_RoomID row = mr_ID r \<Longrightarrow> bets_of d' (dr_ID row) = bets_of d (dr_ID row)"
  shows "abs_room d' r = abs_room d r"
  using assms by (intro abs_room_cong_rounds abs_round_cong) auto

text \<open>Only four tables matter, and the abstraction of a room does not read the table of rooms.\<close>

lemma abs_frame:
  assumes "db_room_players d' = db_room_players d" "db_rounds d' = db_rounds d" "db_bets d' = db_bets d"
  shows "abs_room d' = abs_room d" and "abs_round d' = abs_round d"
proof -
  have b: "bets_of d' = bets_of d" by (rule ext) (simp add: bets_of_def assms)
  then show "abs_round d' = abs_round d" by (intro ext abs_round_cong) simp
  show "abs_room d' = abs_room d"
    by (intro ext abs_room_cong) (simp_all add: b seats_of_def rounds_of_def assms)
qed

lemma active_rooms_frame:
  "db_room_players d' = db_room_players d \<Longrightarrow> db_rooms d' = db_rooms d \<Longrightarrow> active_rooms d' = active_rooms d"
  by (rule ext) (simp add: active_rooms_def)

lemma game_ok_besides:
  assumes "besides d' = besides d"
  shows "game_ok d' = game_ok d"
proof -
  have t: "db_room_players d' = db_room_players d" "db_rounds d' = db_rounds d" "db_bets d' = db_bets d"
    "db_rooms d' = db_rooms d"
    using assms by (simp_all add: besides_def)
  show ?thesis
    unfolding game_ok_def rooms_ok_but_def rounds_ok_def order_ok_def one_room_def
    by (simp add: abs_frame [OF t(1-3)] active_rooms_frame [OF t(1,4)] t)
qed

lemma moved_game_ok: "pg.moved p x w w' \<Longrightarrow> game_ok (w_db w') = game_ok (w_db w)"
  by (rule game_ok_besides) (simp add: pg.moved_def)

lemma room_unique:
  assumes "schema_ok d" and "r \<in> set (db_rooms d)" and "r' \<in> set (db_rooms d)" and "mr_ID r' = mr_ID r"
  shows "r' = r"
  using assms by (auto simp: schema_ok_def rooms_schema_def distinct_map dest: inj_onD)

lemma round_unique:
  assumes "schema_ok d" and "r \<in> set (db_rounds d)" and "r' \<in> set (db_rounds d)" and "dr_ID r' = dr_ID r"
  shows "r' = r"
  using assms by (auto simp: schema_ok_def rounds_schema_def distinct_map dest: inj_onD)

lemma round_number_unique:
  assumes "schema_ok d" and "r \<in> set (db_rounds d)" and "r' \<in> set (db_rounds d)"
    and "dr_RoomID r' = dr_RoomID r" and "dr_Number r' = dr_Number r"
  shows "r' = r"
  using assms by (auto simp: schema_ok_def rounds_schema_def distinct_map dest: inj_onD)

section \<open>Status changes\<close>

lemma active_rooms_status:
  assumes "schema_ok d" and "r \<in> set (db_rooms d)" and "st = RoomClosed \<or> mr_Status r \<noteq> RoomClosed"
    and "d' = upd_room (mr_ID r) (\<lambda>r. r\<lparr>mr_Status := st, mr_ClosedAt := c\<rparr>) d"
  shows "set (active_rooms d' p) \<subseteq> set (active_rooms d p)"
proof
  fix i assume "i \<in> set (active_rooms d' p)"
  then obtain s q where s: "s \<in> set (db_room_players d)" "sr_PlayerID s = p" "sr_RoomID s = i"
    and q: "q \<in> set (db_rooms d)" "mr_ID q = i"
    and st: "(if mr_ID q = mr_ID r then st else mr_Status q) \<noteq> RoomClosed"
    unfolding set_active_rooms assms(4) upd_room_def RoomClosed_def by (auto split: if_splits)
  have "mr_Status q \<noteq> RoomClosed"
    using st assms room_unique [OF assms(1,2) q(1)] by (auto split: if_splits)
  with s q show "i \<in> set (active_rooms d p)"
    unfolding set_active_rooms RoomClosed_def by blast
qed

lemma game_ok_status:
  assumes s: "schema_ok d" and r: "r \<in> set (db_rooms d)"
    and ok: "rooms_ok_but {mr_ID r} d" "rounds_ok d" "order_ok d" "one_room d"
    and wf: "wf_room (abs_room d (r\<lparr>mr_Status := st, mr_ClosedAt := c\<rparr>))"
    and st: "st = RoomClosed \<or> mr_Status r \<noteq> RoomClosed"
  shows "game_ok (upd_room (mr_ID r) (\<lambda>r. r\<lparr>mr_Status := st, mr_ClosedAt := c\<rparr>) d)" (is "game_ok ?d")
proof -
  have abs: "abs_room ?d = abs_room d" "abs_round ?d = abs_round d"
    by (rule abs_frame; simp add: upd_room_def)+
  have rooms: "q \<in> set (db_rooms d) \<and> mr_ID q \<noteq> mr_ID r \<or> q = r\<lparr>mr_Status := st, mr_ClosedAt := c\<rparr>"
    if "q \<in> set (db_rooms ?d)" for q
    using that room_unique [OF s r] by (auto simp: upd_room_def split: if_splits)
  have "rooms_ok_but {} ?d"
    unfolding rooms_ok_but_def abs using rooms ok(1) wf by (auto simp: rooms_ok_but_def)
  moreover have "rounds_ok ?d" using ok(2) unfolding rounds_ok_def abs by (simp add: upd_room_def)
  moreover have "order_ok ?d"
    unfolding order_ok_def
  proof (intro ballI impI)
    fix q row assume q: "q \<in> set (db_rooms ?d)" and row: "row \<in> set (db_rounds ?d)" "dr_RoomID row = mr_ID q"
    have row': "row \<in> set (db_rounds d)" using row by (simp add: upd_room_def)
    from rooms [OF q] show "dr_Number row \<le> mr_CurrentRound q \<and>
        (dr_Status row = RoundBetting \<and> mr_Status q \<noteq> RoomClosed \<longrightarrow> dr_Number row = mr_CurrentRound q)"
    proof (elim disjE conjE)
      assume "q \<in> set (db_rooms d)"
      then show ?thesis using ok(3) row' row(2) unfolding order_ok_def by blast
    next
      assume "q = r\<lparr>mr_Status := st, mr_ClosedAt := c\<rparr>"
      then show ?thesis using ok(3) row' row(2) r st unfolding order_ok_def by auto
    qed
  qed
  moreover have "one_room ?d"
    using ok(4) active_rooms_status [OF s r st refl] unfolding one_room_def by blast
  ultimately show ?thesis by (simp add: game_ok_def)
qed

lemma UpdateStatus_ok:
  assumes "cid X i" and "UpdateStatus X i st c w = (Inr u, w')"
  shows "w_db w' = upd_room i (\<lambda>r. r\<lparr>mr_Status := st, mr_ClosedAt := c\<rparr>) (w_db w)"
  using assms by (auto simp: UpdateStatus_def UpdateRoomStatus_def ok_inv cid_def split: option.splits)

lemma abs_room_sel [simp]:
  "rm_ID (abs_room d r) = mr_ID r" "rm_OwnerID (abs_room d r) = mr_OwnerID r"
  "rm_Status (abs_room d r) = mr_Status r" "rm_CurrentRound (abs_room d r) = mr_CurrentRound r"
  "rm_MaxRounds (abs_room d r) = MaxRounds" "rm_MaxPlayers (abs_room d r) = MaxPlayers"
  "rm_ClosedAt (abs_room d r) = mr_ClosedAt r" "rm_players (abs_room d r) = seat_map d (mr_ID r)"
  by (simp_all add: abs_room_def AttachRound_def bare_room_def split: option.split)

lemma abs_room_status:
  "abs_room d (r\<lparr>mr_Status := st, mr_ClosedAt := c\<rparr>) = (abs_room d r)\<lparr>rm_Status := st, rm_ClosedAt := c\<rparr>"
  by (simp add: abs_room_def AttachRound_def bare_room_def split: option.split)

lemma Close_shape:
  "Close r who now = Inr r' \<Longrightarrow> r' = r\<lparr>rm_Status := rm_Status r', rm_ClosedAt := rm_ClosedAt r'\<rparr> \<and> rm_Status r \<noteq> RoomClosed"
  by (auto simp: Close_def markClosed_def split: if_splits)

lemma rooms_ok_weaken: "rooms_ok_but {} d \<Longrightarrow> rooms_ok_but A d"
  by (simp add: rooms_ok_but_def)

lemma game_okD:
  "game_ok d \<Longrightarrow> rooms_ok_but {} d" "game_ok d \<Longrightarrow> rounds_ok d" "game_ok d \<Longrightarrow> order_ok d" "game_ok d \<Longrightarrow> one_room d"
  by (simp_all add: game_ok_def)

lemma game_ok_wf: "game_ok d \<Longrightarrow> r \<in> set (db_rooms d) \<Longrightarrow> wf_room (abs_room d r)"
  by (simp add: game_ok_def rooms_ok_but_def)

lemma play_okI:
  assumes "keeps (store_ok X) m"
    and "\<And>w x w'. m w = (Inr x, w') \<Longrightarrow> store_ok X (w_db w) \<Longrightarrow> game_ok (w_db w) \<Longrightarrow> game_ok (w_db w')"
  shows "keeps (play_ok X) m"
proof (rule keepsI)
  fix w x w' assume run: "m w = (Inr x, w')" and ok: "play_ok X (w_db w)"
  then have "store_ok X (w_db w)" "game_ok (w_db w)" by (simp_all add: play_ok_def)
  with assms(2) [OF run] keepsD [OF assms(1) run] show "play_ok X (w_db w')" by (simp add: play_ok_def)
qed

lemma CloseRoom_tx_ok:
  assumes run: "CloseRoom_tx X i who reason w = (Inr x, w')" and s: "store_ok X (w_db w)"
  obtains r now room where "x_uuid X i = Some (mr_ID r)" "r \<in> set (db_rooms (w_db w))" "Close (abs_room (w_db w) r) who now = Inr room"
    "w_db w' = upd_room (mr_ID r) (\<lambda>r. r\<lparr>mr_Status := rm_Status room, mr_ClosedAt := rm_ClosedAt room\<rparr>) (w_db w)"
    "co_Closed (fst x) = (rm_Status room = RoomClosed)"
proof -
  obtain out sm where xp: "x = (out, sm)" by (rule prod.exhaust)
  from run [unfolded xp] obtain room0 w1 live room1 w2 now w3 room w4 bs w5 where
    l: "Room_GetForUpdate X i w = (Inr room0, w1)" and a: "attachLiveRound X room0 w1 = (Inr (live, room1), w2)"
    and n: "Now X w2 = (Inr now, w3)" and c: "Close room1 who now = Inr room"
    and u: "UpdateStatus X (rm_ID room) (rm_Status room) (rm_ClosedAt room) w3 = (Inr (), w4)"
    and b: "(if rm_Status room = RoomClosed then memberBalances X (Players room) else ret []) w4 = (Inr bs, w5)"
    and e: "w' = w5" and out: "out = \<lparr>co_RoomID = rm_ID room, co_Status = rm_Status room, co_Closed = (rm_Status room = RoomClosed),
      co_Reason = reason, co_Members = Players room, co_Balances = bs\<rparr>"
    unfolding CloseRoom_tx_def Let_def run_ok prod.inject by blast
  from Room_load_ok [OF s l [unfolded Room_GetForUpdate_def]] obtain r where
    r: "x_uuid X i = Some (mr_ID r)" "r \<in> set (db_rooms (w_db w))" "room0 = bare_room (w_db w) r" and w1: "w_db w1 = w_db w" by metis
  have room1: "room1 = abs_room (w_db w) r" and w2: "w_db w2 = w_db w"
    using attachLiveRound_ok [of X w1 r live room1 w2] a r s w1 by simp_all
  have w3: "w_db w3 = w_db w" using n w2 by (simp add: Now_ok)
  note sh = Close_shape [OF c]
  have id: "rm_ID room = mr_ID r" using sh room1 by (metis Room.select_convs(1) Room.surjective Room.update_convs(3,8) abs_room_sel(1))
  have cid: "cid X (mr_ID r)" using s r by (auto simp: store_ok_def canonical_rows_def)
  have w4: "w_db w4 = upd_room (mr_ID r) (\<lambda>r. r\<lparr>mr_Status := rm_Status room, mr_ClosedAt := rm_ClosedAt room\<rparr>) (w_db w)"
    using UpdateStatus_ok [OF cid u [unfolded id]] w3 by simp
  have "w_db w5 = w_db w4"
    using b by (auto simp: ret_def split: if_splits dest: readingD [OF reading_memberBalances])
  with w4 e have w': "w_db w' = upd_room (mr_ID r) (\<lambda>r. r\<lparr>mr_Status := rm_Status room, mr_ClosedAt := rm_ClosedAt room\<rparr>) (w_db w)" by simp
  show ?thesis by (rule that [OF r(1,2) c [unfolded room1] w']) (simp add: xp out)
qed

lemma CloseRoom_game_ok:
  assumes run: "CloseRoom_tx X i who reason w = (Inr x, w')" and s: "store_ok X (w_db w)" and g: "game_ok (w_db w)"
  shows "game_ok (w_db w')"
  using run s
proof (rule CloseRoom_tx_ok)
  fix r now room
  assume r: "r \<in> set (db_rooms (w_db w))" and c: "Close (abs_room (w_db w) r) who now = Inr room"
    and w': "w_db w' = upd_room (mr_ID r) (\<lambda>r. r\<lparr>mr_Status := rm_Status room, mr_ClosedAt := rm_ClosedAt room\<rparr>) (w_db w)"
  note sh = Close_shape [OF c]
  have "wf_room room" using wf_Close [OF game_ok_wf [OF g r] c] .
  then have "wf_room (abs_room (w_db w) (r\<lparr>mr_Status := rm_Status room, mr_ClosedAt := rm_ClosedAt room\<rparr>))"
    using sh unfolding abs_room_status by metis
  then show "game_ok (w_db w')"
    unfolding w' using s g r sh
    by (intro game_ok_status) (auto simp: store_ok_def game_okD rooms_ok_weaken)
qed

lemma keeps_CloseRoom_play: "uuid_canonical X \<Longrightarrow> keeps (play_ok X) (CloseRoom_tx X i who reason)"
  by (rule play_okI [OF keeps_store(3)]) (auto intro: CloseRoom_game_ok)

section \<open>Aborting\<close>

lemma keeps_refund_besides: "uuid_canonical X \<Longrightarrow> keeps (\<lambda>d. besides d = B) (refund X p a rid now)"
proof (rule keepsI)
  fix w u w' assume "uuid_canonical X" and "refund X p a rid now w = (Inr u, w')" and "besides (w_db w) = B"
  then show "besides (w_db w') = B" using refund_moves [of X p a rid now w w'] by (auto simp: pg.moved_def)
qed

lemma keeps_refunds_besides:
  "uuid_canonical X \<Longrightarrow> keeps (\<lambda>d. besides d = B) (each (refund_round X now) rounds)"
  unfolding refund_round_def by (intro keeps_rules keeps_refund_besides)

text \<open>What a successful abort wrote: refunds, which leave the game tables alone, then the closing.\<close>

lemma AbortRoom_tx_ok:
  assumes u: "uuid_canonical X" and run: "AbortRoom_tx X i reason w = (Inr x, w')" and s: "store_ok X (w_db w)"
  obtains r now rounds w1 w2 w3 where "x_uuid X i = Some (mr_ID r)" "r \<in> set (db_rooms (w_db w))"
    "mr_Status r \<noteq> RoomClosed" "Round_ListByRoom X (mr_ID r) w1 = (Inr rounds, w2)" "w_db w1 = w_db w"
    "each (refund_round X now) rounds (w2\<lparr>w_ticks := Suc (w_ticks w2)\<rparr>) = (Inr (), w3)"
    "besides (w_db w3) = besides (w_db w)"
    "w_db w' = upd_room (mr_ID r) (\<lambda>r. r\<lparr>mr_Status := RoomClosed, mr_ClosedAt := Some now\<rparr>) (w_db w3)"
    "now = x_clock X (w_ticks w2)"
proof -
  from run obtain room w1 rounds w2 now w3 w4 w5 bs where
    l: "Room_GetForUpdate X i w = (Inr room, w1)" and o: "rm_Status room \<noteq> RoomClosed"
    and rs: "Round_ListByRoom X (rm_ID room) w1 = (Inr rounds, w2)" and n: "Now X w2 = (Inr now, w3)"
    and e: "each (refund_round X now) rounds w3 = (Inr (), w4)"
    and st: "UpdateStatus X (rm_ID (ForceClose room now)) (rm_Status (ForceClose room now))
        (rm_ClosedAt (ForceClose room now)) w4 = (Inr (), w5)"
    and m: "memberBalances X (Players (ForceClose room now)) w5 = (Inr bs, w')"
    unfolding AbortRoom_tx_def Let_def run_ok if_prog_ok by blast
  from Room_load_ok [OF s l [unfolded Room_GetForUpdate_def]] obtain r where
    i: "x_uuid X i = Some (mr_ID r)" and r: "r \<in> set (db_rooms (w_db w))" "room = bare_room (w_db w) r"
    and w1: "w_db w1 = w_db w" by metis
  have room: "rm_ID room = mr_ID r" "rm_Status room = mr_Status r" by (simp_all add: r bare_room_def)
  have cid: "cid X (mr_ID r)" using s r by (auto simp: store_ok_def canonical_rows_def)
  have w3: "w3 = w2\<lparr>w_ticks := Suc (w_ticks w2)\<rparr>" "now = x_clock X (w_ticks w2)" using n by (auto simp: Now_ok)
  have w2: "w_db w2 = w_db w" using readingD [OF reading_repos(17) rs] w1 by simp
  have fc: "rm_ID (ForceClose room now) = mr_ID r" "rm_Status (ForceClose room now) = RoomClosed"
    "rm_ClosedAt (ForceClose room now) = Some now"
    using o room by (simp_all add: ForceClose_def markClosed_def)
  have "besides (w_db w4) = besides (w_db w)"
    using keepsD [OF keeps_refunds_besides [OF u] e, of "besides (w_db w)"] w3 w2 by simp
  moreover have "w_db w' = upd_room (mr_ID r) (\<lambda>r. r\<lparr>mr_Status := RoomClosed, mr_ClosedAt := Some now\<rparr>) (w_db w4)"
    using UpdateStatus_ok [OF cid st [unfolded fc]] readingD [OF reading_memberBalances m] by simp
  ultimately show ?thesis
    using that [OF i r(1) _ rs [unfolded room] w1 e [unfolded w3(1)] _ _ w3(2)] o room by simp
qed

lemma besides_tables:
  assumes "besides d' = besides d"
  shows "db_rooms d' = db_rooms d" "db_room_players d' = db_room_players d" "db_rounds d' = db_rounds d"
    "db_bets d' = db_bets d" "map pr_ID (db_players d') = map pr_ID (db_players d)"
proof -
  have "map pr_ID (db_players d') = map pr_ID (map (\<lambda>r. r\<lparr>pr_Balance := 0\<rparr>) (db_players d'))" by simp
  also have "\<dots> = map pr_ID (map (\<lambda>r. r\<lparr>pr_Balance := 0\<rparr>) (db_players d))"
    using assms by (simp only: besides_def prod.inject)
  finally show "map pr_ID (db_players d') = map pr_ID (db_players d)" by simp
qed (use assms in \<open>simp_all add: besides_def\<close>)

lemma keeps_refunds_store: "keeps (store_ok X) (each (refund_round X now) rounds)"
  unfolding refund_round_def by (intro keeps_rules keeps_moves_store keeps_reads)

lemma AbortRoom_game_ok:
  assumes u: "uuid_canonical X" and run: "AbortRoom_tx X i reason w = (Inr x, w')" and s: "store_ok X (w_db w)"
    and g: "game_ok (w_db w)"
  shows "game_ok (w_db w')"
  using u run s
proof (rule AbortRoom_tx_ok)
  fix r now rounds w1 w2 w3
  assume r: "r \<in> set (db_rooms (w_db w))" and ls: "Round_ListByRoom X (mr_ID r) w1 = (Inr rounds, w2)" "w_db w1 = w_db w"
    and e: "each (refund_round X now) rounds (w2\<lparr>w_ticks := Suc (w_ticks w2)\<rparr>) = (Inr (), w3)"
    and b: "besides (w_db w3) = besides (w_db w)"
    and w': "w_db w' = upd_room (mr_ID r) (\<lambda>r. r\<lparr>mr_Status := RoomClosed, mr_ClosedAt := Some now\<rparr>) (w_db w3)"
  have "w_db w2 = w_db w" using readingD [OF reading_repos(17) ls(1)] ls(2) by simp
  then have "store_ok X (w_db w3)" using keepsD [OF keeps_refunds_store e] s by simp
  then have s3: "schema_ok (w_db w3)" by (simp add: store_ok_def)
  have g3: "game_ok (w_db w3)" using game_ok_besides [OF b] g by simp
  have r3: "r \<in> set (db_rooms (w_db w3))" using besides_tables [OF b] r by simp
  have "wf_room (abs_room (w_db w3) (r\<lparr>mr_Status := RoomClosed, mr_ClosedAt := Some now\<rparr>))"
    using wf_markClosed [OF game_ok_wf [OF g3 r3], of now] by (simp add: abs_room_status markClosed_def)
  then show "game_ok (w_db w')"
    unfolding w' using s3 r3 g3 by (intro game_ok_status) (auto simp: game_okD rooms_ok_weaken)
qed

lemma keeps_AbortRoom_play: "uuid_canonical X \<Longrightarrow> keeps (play_ok X) (AbortRoom_tx X i reason)"
  by (rule play_okI [OF keeps_store(7)]) (auto intro: AbortRoom_game_ok)

end
