(* ===== verification/Game_Seats.thy ===== *)
theory Game_Seats
  imports Game_Invariant
begin

text \<open>
  Seats: creating and joining a room keep the game invariant, in particular the cap of six
  seats and the rule of one active room per player.
\<close>

section \<open>The active-room check\<close>

lemma active_rooms_canonical:
  assumes "store_ok X d" and "i \<in> set (active_rooms d p)"
  shows "cid X i"
  using assms by (auto simp: set_active_rooms store_ok_def canonical_rows_def)

lemma FindActive_result:
  assumes s: "store_ok X (w_db w)" and f: "FindActiveRoomForPlayer X p w = (Inr e, w')" and q: "x_uuid X p = Some q"
  shows "if active_rooms (w_db w) q = [] then e = [] else e = hd (active_rooms (w_db w) q) \<and> e \<noteq> []"
  using f
proof (cases rule: FindActiveRoomForPlayer_ok)
  case (free q')
  then show ?thesis using q exec_no_rows [OF free(2)] by (simp add: FindActiveRoom_no_rows)
next
  case (seated q')
  then have e: "active_rooms (w_db w) q \<noteq> []" "e = hd (active_rooms (w_db w) q)"
    using q by (auto simp: exec_ok FindActiveRoom_row)
  then have "cid X e" using active_rooms_canonical [OF s] by (metis list.set_sel(1))
  with e show ?thesis by (auto simp: cid_def blank_def TrimSpace_def)
qed

lemma FindActive_uuid: "FindActiveRoomForPlayer X p w = (Inr e, w') \<Longrightarrow> \<exists>q. x_uuid X p = Some q"
  by (erule FindActiveRoomForPlayer_ok) auto

section \<open>A new seat\<close>

lemma wf_room_seats:
  assumes "wf_room r" and "distinct (map fst ps)" and "int (length ps) \<le> MaxPlayers"
  shows "wf_room (r\<lparr>rm_players := ps\<rparr>)"
  using assms by (simp add: wf_room_def PlayerCount_def) blast

lemma length_seat_map: "length (seat_map d i) = length (seats_of d i)"
  by (simp add: seat_map_def)

lemma seat_map_distinct: "schema_ok d \<Longrightarrow> distinct (map fst (seat_map d i))"
  using seats_distinct [of d i] by (simp add: seat_map_def comp_def)

lemma abs_room_seats:
  assumes "db_rounds d' = db_rounds d" and "db_bets d' = db_bets d"
  shows "abs_room d' r = (abs_room d r)\<lparr>rm_players := seat_map d' (mr_ID r)\<rparr>"
proof -
  have b: "bets_of d' = bets_of d" by (rule ext) (simp add: bets_of_def assms)
  have "abs_round d' = abs_round d" by (intro ext abs_round_cong) (simp add: b)
  moreover have "current_row d' = current_row d" by (rule ext) (simp add: current_row_def rounds_of_def assms)
  ultimately show ?thesis
    by (simp add: abs_room_def AttachRound_def bare_room_def split: option.split)
qed

lemma active_rooms_new_seat:
  assumes "db_rooms d' = db_rooms d" and "db_room_players d' = db_room_players d @ [s]"
  shows "set (active_rooms d' p) \<subseteq> set (active_rooms d p) \<union> (if p = sr_PlayerID s then {sr_RoomID s} else {})"
  using assms by (auto simp: set_active_rooms)

lemma game_ok_new_seat:
  assumes sch: "schema_ok d'" and g: "game_ok d" and r: "r \<in> set (db_rooms d)"
    and d': "d' = d\<lparr>db_room_players := db_room_players d @ [s]\<rparr>" and sr: "sr_RoomID s = mr_ID r"
    and room: "int (length (seats_of d (mr_ID r))) < MaxPlayers"
    and act: "set (active_rooms d (sr_PlayerID s)) \<subseteq> {mr_ID r}"
  shows "game_ok d'"
proof -
  have abs: "abs_room d' q = (abs_room d q)\<lparr>rm_players := seat_map d' (mr_ID q)\<rparr>" for q
    by (rule abs_room_seats) (simp_all add: d')
  have wf: "wf_room (abs_room d' q)" if q: "q \<in> set (db_rooms d)" for q
  proof -
    have w: "wf_room (abs_room d q)" by (rule game_ok_wf [OF g q])
    have "seats_of d' (mr_ID q) = seats_of d (mr_ID q) @ (if mr_ID q = mr_ID r then [s] else [])"
      by (simp add: d' seats_of_def sr)
    then have "int (length (seat_map d' (mr_ID q))) \<le> MaxPlayers"
      using room w by (auto simp: length_seat_map wf_room_def PlayerCount_def)
    with wf_room_seats [OF w seat_map_distinct [OF sch]] show ?thesis by (simp add: abs)
  qed
  have "rounds_ok d'"
    using game_okD(2) [OF g] by (simp add: rounds_ok_def d' abs_round_def bets_of_def)
  moreover have "order_ok d'" using game_okD(3) [OF g] by (simp add: order_ok_def d')
  moreover have "one_room d'"
    unfolding one_room_def
  proof (intro allI ballI)
    fix p i j assume "i \<in> set (active_rooms d' p)" and "j \<in> set (active_rooms d' p)"
    moreover have "set (active_rooms d' p) \<subseteq> set (active_rooms d p) \<union> (if p = sr_PlayerID s then {mr_ID r} else {})"
      using active_rooms_new_seat [of d' d s p] sr by (simp add: d' split: if_splits)
    ultimately show "i = j"
      using game_okD(4) [OF g] act unfolding one_room_def by (cases "p = sr_PlayerID s") (simp_all, blast+)
  qed
  moreover have "rooms_ok_but {} d'" using wf by (simp add: rooms_ok_but_def d')
  ultimately show ?thesis by (simp add: game_ok_def)
qed

section \<open>Joining\<close>

lemma AddPlayer_ok:
  assumes "AddPlayer X roomID playerID t w = (Inr u, w')"
  obtains rid pid where "x_uuid X roomID = Some rid" "x_uuid X playerID = Some pid"
    "w_db w' = (w_db w)\<lparr>db_room_players := db_room_players (w_db w) @ [\<lparr>sr_RoomID = rid, sr_PlayerID = pid, sr_JoinedAt = t\<rparr>]\<rparr>"
    "\<not> list_ex (\<lambda>s. sr_RoomID s = rid \<and> sr_PlayerID s = pid) (db_room_players (w_db w))"
  using assms by (auto simp: AddPlayer_def AddRoomPlayer_def ok_inv list_all_iff list_ex_iff)

lemma AddPlayer_fail_db: "AddPlayer X roomID playerID t w = (Inl e, w') \<Longrightarrow> w_db w' = w_db w"
  by (auto simp: AddPlayer_def bnd_run on_error_run toUUID_def ret_def fail_def dest: exec_fail_db split: option.splits)

text \<open>What a successful join wrote: nothing, or one seat in the room it was asked for.\<close>

lemma JoinRoom_tx_ok:
  assumes u: "uuid_canonical X" and run: "JoinRoom_tx X roomID playerID w = (Inr x, w')" and s: "store_ok X (w_db w)"
    and g: "game_ok (w_db w)"
  obtains (same) "w_db w' = w_db w"
  | (seat) r pid now where "r \<in> set (db_rooms (w_db w))" "x_uuid X roomID = Some (mr_ID r)" "x_uuid X playerID = Some pid"
      "w_db w' = (w_db w)\<lparr>db_room_players := db_room_players (w_db w) @
         [\<lparr>sr_RoomID = mr_ID r, sr_PlayerID = pid, sr_JoinedAt = now\<rparr>]\<rparr>"
      "int (length (seats_of (w_db w) (mr_ID r))) < MaxPlayers" "set (active_rooms (w_db w) pid) \<subseteq> {mr_ID r}"
      "mr_Status r = RoomOpen"
proof -
  let ?d = "w_db w"
  from run obtain room w1 existing w2 now w3 where l: "Room_GetForUpdate X roomID w = (Inr room, w1)"
    and f: "FindActiveRoomForPlayer X playerID w1 = (Inr existing, w2)"
    and ex: "\<not> (existing \<noteq> [] \<and> existing \<noteq> roomID)" and n: "Now X w2 = (Inr now, w3)"
    and k: "(case Join room playerID now of
         Inl e \<Rightarrow> if e = GameErr ErrAlreadyJoined then ret (joined_as room True, True) else fail e
       | Inr room' \<Rightarrow>
           bnd (attempt (AddPlayer X roomID playerID now)) (\<lambda>r.
           case r of
             Inl e \<Rightarrow> if e = GameErr ErrAlreadyJoined then ret (joined_as room' True, True) else fail e
           | Inr _ \<Rightarrow> ret (joined_as room' False, False))) w3 = (Inr x, w')"
    unfolding JoinRoom_tx_def bnd_ok if_prog_ok by blast
  from Room_load_ok [OF s l [unfolded Room_GetForUpdate_def]] obtain r where
    i: "x_uuid X roomID = Some (mr_ID r)" and r: "r \<in> set (db_rooms ?d)" "room = bare_room ?d r" and w1: "w_db w1 = ?d" by metis
  have w2: "w_db w2 = ?d" using readingD [OF reading_repos(18) f] w1 by simp
  have w3: "w_db w3 = ?d" using n w2 by (simp add: Now_ok)
  show ?thesis
  proof (cases "Join room playerID now")
    case (Inl e)
    with k w3 show ?thesis by (intro same) (auto simp: ret_def fail_def split: if_splits)
  next
    case (Inr room')
    with k obtain res w4 where a: "AddPlayer X roomID playerID now w3 = (res, w4)"
      and k4: "(case res of Inl e \<Rightarrow> if e = GameErr ErrAlreadyJoined then ret (joined_as room' True, True) else fail e
           | Inr _ \<Rightarrow> ret (joined_as room' False, False)) w4 = (Inr x, w')"
      by (auto simp: bnd_ok attempt_ok)
    have w4: "w' = w4" using k4 by (cases res) (auto simp: ret_def fail_def split: if_splits)
    show ?thesis
    proof (cases res)
      case (Inl e)
      with a w4 w3 show ?thesis by (intro same) (auto dest: AddPlayer_fail_db)
    next
      case (Inr v)
      with a obtain rid pid where "x_uuid X roomID = Some rid" and p: "x_uuid X playerID = Some pid"
        and d': "w_db w4 = ?d\<lparr>db_room_players := db_room_players ?d @ [\<lparr>sr_RoomID = rid, sr_PlayerID = pid, sr_JoinedAt = now\<rparr>]\<rparr>"
        using w3 by (auto elim: AddPlayer_ok)
      then have rid: "rid = mr_ID r" using i by simp
      from \<open>Join room playerID now = Inr room'\<close> have j: "mr_Status r \<noteq> RoomClosed" "mr_Status r \<noteq> RoomClosing"
        "\<not> MaxPlayers \<le> int (length (seats_of ?d (mr_ID r)))"
        by (auto simp: Join_ok Full_def r bare_room_def length_seat_map)
      have op: "mr_Status r = RoomOpen" using j wf_room_status [OF game_ok_wf [OF g r(1)]] by simp
      have "set (active_rooms ?d pid) \<subseteq> {mr_ID r}"
      proof (cases "active_rooms ?d pid = []")
        case False
        with FindActive_result [OF _ f p] s w1 ex have h: "hd (active_rooms ?d pid) = roomID" by auto
        then have in_act: "roomID \<in> set (active_rooms ?d pid)" using False by (metis list.set_sel(1))
        then have "cid X roomID" by (rule active_rooms_canonical [OF s])
        then have "roomID = mr_ID r" using i by (simp add: cid_def)
        with game_okD(4) [OF g] in_act show ?thesis unfolding one_room_def by blast
      qed simp
      with j op show ?thesis using i p d' w4 rid r by (intro seat [of r pid now]) simp_all
    qed
  qed
qed

lemma keeps_JoinRoom_play: "uuid_canonical X \<Longrightarrow> keeps (play_ok X) (JoinRoom_tx X i p)"
proof (rule play_okI [OF keeps_store(2)])
  fix w x w' assume u: "uuid_canonical X" and run: "JoinRoom_tx X i p w = (Inr x, w')"
    and s: "store_ok X (w_db w)" and g: "game_ok (w_db w)"
  have s': "store_ok X (w_db w')" using keepsD [OF keeps_store(2) [OF u] run] s by simp
  from u run s g show "game_ok (w_db w')"
  proof (cases rule: JoinRoom_tx_ok)
    case (seat r pid now)
    then show ?thesis using g s' by (intro game_ok_new_seat [OF _ g seat(1) seat(4)]) (auto simp: store_ok_def)
  qed (use g in simp)
qed simp

section \<open>Creating\<close>

lemma no_references:
  assumes "schema_ok d" and "\<not> has_room d i"
  shows "seats_of d i = []" and "rounds_of d i = []"
  using assms by (auto simp: schema_ok_def seats_schema_def rounds_schema_def seats_of_def rounds_of_def filter_empty_conv)

lemma CreateRoom_tx_ok:
  assumes run: "CreateRoom_tx X owner room w = (Inr x, w')" and new: "NewRoom rid owner now = Inr room"
    and s: "store_ok X (w_db w)"
  obtains i p row where "x_uuid X rid = Some i" "x_uuid X owner = Some p" "\<not> has_room (w_db w) i" "active_rooms (w_db w) p = []"
    "row = \<lparr>mr_ID = i, mr_OwnerID = p, mr_Status = RoomOpen, mr_MaxRounds = 10, mr_MaxPlayers = 6,
       mr_CurrentRound = 0, mr_CreatedAt = now, mr_ClosedAt = None\<rparr>"
    "w_db w' = (w_db w)\<lparr>db_rooms := db_rooms (w_db w) @ [row], db_room_players := db_room_players (w_db w) @
       [\<lparr>sr_RoomID = i, sr_PlayerID = p, sr_JoinedAt = now\<rparr>]\<rparr>"
proof -
  let ?d = "w_db w"
  from run obtain w1 where f: "FindActiveRoomForPlayer X owner w = (Inr [], w1)" and c: "Room_Create X room w1 = (Inr x, w')"
    unfolding CreateRoom_tx_def bnd_ok if_prog_ok by blast
  have w1: "w_db w1 = ?d" by (rule readingD [OF reading_repos(18) f])
  have room: "rm_ID room = rid" "rm_OwnerID room = owner" "rm_Status room = RoomOpen" "rm_MaxRounds room = 10"
    "rm_MaxPlayers room = 6" "rm_CurrentRound room = 0" "rm_CreatedAt room = now" "Players room = [owner]"
    using new by (auto simp: NewRoom_def MaxRounds_def MaxPlayers_def Players_def insertion_sort_def split: if_splits)
  from c obtain i p z w2 where i: "x_uuid X rid = Some i" and p: "x_uuid X owner = Some p"
    and cr: "exec X (CreateRoom_sql \<lparr>mr_ID = i, mr_OwnerID = p, mr_Status = RoomOpen, mr_MaxRounds = 10,
        mr_MaxPlayers = 6, mr_CurrentRound = 0, mr_CreatedAt = now, mr_ClosedAt = None\<rparr>) w1 = (Inr z, w2)"
    and ad: "AddPlayer X rid owner now w2 = (Inr (), w')"
    unfolding Room_Create_def room by (auto simp: bnd_ok toUUID_ok on_error_ok ret_ok simp del: exec_ok)
  show ?thesis
  proof (rule that [OF i p])
    show "\<not> has_room ?d i" using cr w1 by (auto simp: exec_ok CreateRoom_sql_def ok_inv)
    show "active_rooms ?d p = []" using FindActive_result [OF s f p] by (auto split: if_splits)
    show "w_db w' = ?d\<lparr>db_rooms := db_rooms ?d @ [\<lparr>mr_ID = i, mr_OwnerID = p, mr_Status = RoomOpen,
        mr_MaxRounds = 10, mr_MaxPlayers = 6, mr_CurrentRound = 0, mr_CreatedAt = now, mr_ClosedAt = None\<rparr>],
        db_room_players := db_room_players ?d @ [\<lparr>sr_RoomID = i, sr_PlayerID = p, sr_JoinedAt = now\<rparr>]\<rparr>"
      using cr ad i p w1 by (elim AddPlayer_ok) (auto simp: exec_ok CreateRoom_sql_def ok_inv)
  qed simp
qed

lemma game_ok_new_room:
  assumes sch: "schema_ok d" and g: "game_ok d" and new: "\<not> has_room d i" and free: "active_rooms d p = []"
    and row: "mr_ID row = i" "mr_OwnerID row = p" "mr_Status row = RoomOpen" "mr_CurrentRound row = 0" "mr_ClosedAt row = None"
    and ids: "\<not> blank i" "\<not> blank p"
    and d': "d' = d\<lparr>db_rooms := db_rooms d @ [row], db_room_players := db_room_players d @
       [\<lparr>sr_RoomID = i, sr_PlayerID = p, sr_JoinedAt = now\<rparr>]\<rparr>"
  shows "game_ok d'"
proof -
  note none = no_references [OF sch new]
  have old: "mr_ID q \<noteq> i" if "q \<in> set (db_rooms d)" for q using that new by (auto simp: has_in)
  have wf_old: "wf_room (abs_room d' q)" if q: "q \<in> set (db_rooms d)" for q
  proof -
    have "abs_room d' q = abs_room d q"
      by (rule abs_room_cong) (use old [OF q] in \<open>simp_all add: d' seats_of_def rounds_of_def bets_of_def\<close>)
    with game_ok_wf [OF g q] show ?thesis by simp
  qed
  have "seat_map d' i = [(p, now)]" using none(1) by (simp add: d' seat_map_def seats_of_def)
  moreover have "current_row d' i = None" using none(2) by (simp add: d' current_row_def rounds_of_def)
  ultimately have "wf_room (abs_room d' row)"
    using ids by (simp add: abs_room_def AttachRound_def bare_room_def row wf_room_def MaxRounds_def MaxPlayers_def
        PlayerCount_def live_round_def)
  with wf_old have "rooms_ok_but {} d'" by (auto simp: rooms_ok_but_def d')
  moreover have "rounds_ok d'" using game_okD(2) [OF g] by (simp add: rounds_ok_def d' abs_round_def bets_of_def)
  moreover have "order_ok d'"
    using game_okD(3) [OF g] none(2) row by (auto simp: order_ok_def d' rounds_of_def filter_empty_conv)
  moreover have "one_room d'"
    unfolding one_room_def
  proof (intro allI ballI)
    fix q a b assume "a \<in> set (active_rooms d' q)" and "b \<in> set (active_rooms d' q)"
    moreover have "c \<in> set (active_rooms d q) \<or> c = i \<and> q = p" if "c \<in> set (active_rooms d' q)" for c
      using that none(1) row(1) by (auto simp: set_active_rooms d' seats_of_def filter_empty_conv)
    ultimately show "a = b" using game_okD(4) [OF g] free unfolding one_room_def by (metis empty_iff empty_set)
  qed
  ultimately show ?thesis by (simp add: game_ok_def)
qed

lemma keeps_CreateRoom_play:
  assumes u: "uuid_canonical X" and new: "NewRoom rid owner now = Inr room"
  shows "keeps (play_ok X) (CreateRoom_tx X owner room)"
proof (rule play_okI [OF keeps_store(1) [OF u]])
  fix w x w' assume run: "CreateRoom_tx X owner room w = (Inr x, w')" and s: "store_ok X (w_db w)" and g: "game_ok (w_db w)"
  from run new s show "game_ok (w_db w')"
  proof (rule CreateRoom_tx_ok)
    fix i p row assume "x_uuid X rid = Some i" "x_uuid X owner = Some p" and h: "\<not> has_room (w_db w) i" "active_rooms (w_db w) p = []"
      and row: "row = \<lparr>mr_ID = i, mr_OwnerID = p, mr_Status = RoomOpen, mr_MaxRounds = 10, mr_MaxPlayers = 6,
        mr_CurrentRound = 0, mr_CreatedAt = now, mr_ClosedAt = None\<rparr>"
      and d': "w_db w' = (w_db w)\<lparr>db_rooms := db_rooms (w_db w) @ [row], db_room_players := db_room_players (w_db w) @
         [\<lparr>sr_RoomID = i, sr_PlayerID = p, sr_JoinedAt = now\<rparr>]\<rparr>"
    then have "\<not> blank i" "\<not> blank p" using uuid_cid [OF u] by (auto simp: cid_def)
    with s g h d' show ?thesis
      by (intro game_ok_new_room [OF _ g h _ _ _ _ _ _ _ d']) (simp_all add: row store_ok_def)
  qed
qed

end
