(* ===== verification/Game_Rounds.thy ===== *)
theory Game_Rounds
  imports Game_Seats
begin

text \<open>
  Rounds: starting a round, placing a bet and settling keep the game invariant.  What each
  transaction writes is again the image of the domain operation under \<open>abs_room\<close>.
\<close>

section \<open>The current round\<close>

lemma current_row_None: "current_row d i = None \<longleftrightarrow> rounds_of d i = []"
proof -
  have "sort_key (\<lambda>r. - dr_Number r) (rounds_of d i) = [] \<longleftrightarrow> rounds_of d i = []"
    by (metis length_0_conv length_sort)
  then show ?thesis by (auto simp: current_row_def find_True split: list.splits)
qed

lemma current_row_max:
  assumes "current_row d i = Some row" and "q \<in> set (db_rounds d)" and "dr_RoomID q = i"
  shows "dr_Number q \<le> dr_Number row"
proof -
  let ?xs = "sort_key (\<lambda>r. - dr_Number r) (rounds_of d i)"
  from assms(1) obtain ys where xs: "?xs = row # ys"
    by (auto simp: current_row_def find_True split: list.splits)
  have "q \<in> set ?xs" using assms(2,3) by (simp add: set_rounds_of)
  moreover have "sorted (map (\<lambda>r. - dr_Number r) ?xs)" by simp
  ultimately show ?thesis unfolding xs by auto
qed

lemma current_rowI:
  assumes "schema_ok d" and "row \<in> set (db_rounds d)" and "dr_RoomID row = i"
    and "\<And>q. q \<in> set (db_rounds d) \<Longrightarrow> dr_RoomID q = i \<Longrightarrow> dr_Number q \<le> dr_Number row"
  shows "current_row d i = Some row"
proof -
  have "rounds_of d i \<noteq> []" using assms(2,3) set_rounds_of [of d i] by force
  then obtain c where c: "current_row d i = Some c" using current_row_None by fastforce
  then have m: "c \<in> set (db_rounds d)" "dr_RoomID c = i" using current_row_mem by auto
  have "dr_Number c = dr_Number row"
    using current_row_max [OF c assms(2,3)] assms(4) [OF m] by simp
  then have "c = row" using round_number_unique [OF assms(1,2) m(1)] m(2) assms(3) by simp
  with c show ?thesis by simp
qed

section \<open>Changes to one room\<close>

text \<open>A change of the rounds and bets of one room leaves what every other room represents alone.\<close>

definition within_room :: "id \<Rightarrow> db \<Rightarrow> db \<Rightarrow> bool" where
  "within_room i d d' \<longleftrightarrow> db_room_players d' = db_room_players d \<and>
     (\<forall>j. j \<noteq> i \<longrightarrow> rounds_of d' j = rounds_of d j) \<and>
     (\<forall>row \<in> set (db_rounds d). dr_RoomID row \<noteq> i \<longrightarrow> abs_round d' row = abs_round d row)"

lemma within_room_abs:
  assumes "within_room i d d'" and "mr_ID r \<noteq> i"
  shows "abs_room d' r = abs_room d r"
  using assms by (intro abs_room_cong_rounds) (auto simp: within_room_def seats_of_def)

lemma within_room_rooms:
  assumes "within_room i d d'" and "rooms_ok_but {} d"
    and "\<And>q. q \<in> set (db_rooms d') \<Longrightarrow> mr_ID q \<noteq> i \<Longrightarrow> q \<in> set (db_rooms d)"
  shows "rooms_ok_but {i} d'"
  using assms(2,3) within_room_abs [OF assms(1)] by (simp add: rooms_ok_but_def)

lemma rooms_ok_close:
  assumes "rooms_ok_but {i} d" and "\<And>q. q \<in> set (db_rooms d) \<Longrightarrow> mr_ID q = i \<Longrightarrow> wf_room (abs_room d q)"
  shows "rooms_ok_but {} d"
  using assms unfolding rooms_ok_but_def by blast

lemma wf_round_perm:
  assumes "wf_round r" and "mset bs = mset (rd_bets r)"
  shows "wf_round (r\<lparr>rd_bets := bs\<rparr>)"
proof -
  have "mset (map fst bs) = mset (map fst (rd_bets r))" using assms(2) by simp
  then have d: "distinct (map fst bs) = distinct (map fst (rd_bets r))" by (rule mset_eq_imp_distinct_iff)
  have s: "set bs = set (rd_bets r)" using assms(2) by (rule mset_eq_setD)
  have c: "bet_of_round (r\<lparr>rd_bets := bs\<rparr>) = bet_of_round r" "bet_state (r\<lparr>rd_bets := bs\<rparr>) = bet_state r"
    by (auto simp: bet_of_round_def bet_state_def)
  show ?thesis using assms(1) by (simp add: wf_round_def d s c)
qed

lemma wf_room_round:
  assumes "wf_room r" and "rm_round r = Some rd" and "wf_round rd'"
    and "rd_RoomID rd' = rd_RoomID rd" "rd_Number rd' = rd_Number rd" "rd_Status rd' = rd_Status rd"
  shows "wf_room (r\<lparr>rm_round := Some rd'\<rparr>)"
  using assms by (auto simp: wf_room_def PlayerCount_def live_round_def)

lemma abs_round_sel [simp]:
  "rd_ID (abs_round d row) = dr_ID row" "rd_RoomID (abs_round d row) = dr_RoomID row"
  "rd_Number (abs_round d row) = dr_Number row" "rd_Status (abs_round d row) = dr_Status row"
  by (simp_all add: abs_round_def)

lemma abs_room_live:
  assumes "current_row d (mr_ID r) = Some row" and "dr_Status row \<noteq> RoundSettled"
  shows "abs_room d r = (bare_room d r)\<lparr>rm_round := Some (abs_round d row)\<rparr>"
  using assms by (simp add: abs_room_def AttachRound_def)

lemma abs_room_idle:
  assumes "\<And>row. current_row d (mr_ID r) = Some row \<Longrightarrow> dr_Status row = RoundSettled"
  shows "abs_room d r = bare_room d r"
  using assms by (cases "current_row d (mr_ID r)") (simp_all add: abs_room_def AttachRound_def bare_room_def)

lemma abs_room_round: "rm_round (abs_room d r) = Some rd \<longleftrightarrow>
    (\<exists>row. current_row d (mr_ID r) = Some row \<and> dr_Status row \<noteq> RoundSettled \<and> rd = abs_round d row)"
  by (auto simp: abs_room_def AttachRound_def bare_room_def split: option.split)

text \<open>A stored room that is active and has no live round has no betting round at all.\<close>

lemma no_live_betting:
  assumes sch: "schema_ok d" and g: "game_ok d" and r: "r \<in> set (db_rooms d)" and n: "\<not> live_round (abs_room d r)"
    and q: "q \<in> set (db_rounds d)" "dr_RoomID q = mr_ID r" and st: "mr_Status r \<noteq> RoomClosed"
  shows "dr_Status q \<noteq> RoundBetting"
proof
  assume b: "dr_Status q = RoundBetting"
  have ord: "dr_Number x \<le> mr_CurrentRound r" if "x \<in> set (db_rounds d)" "dr_RoomID x = mr_ID r" for x
    using game_okD(3) [OF g] that r unfolding order_ok_def by blast
  have "dr_Number q = mr_CurrentRound r" using game_okD(3) [OF g] q r b st unfolding order_ok_def by blast
  then have "current_row d (mr_ID r) = Some q" using ord by (intro current_rowI [OF sch q]) simp
  then have "live_round (abs_room d r)" using b by (simp add: abs_room_live live_round_def)
  with n show False by contradiction
qed

section \<open>Starting a round\<close>

lemma Round_Create_ok:
  assumes "Round_Create X rnd w = (Inr u, w')"
  obtains i rid t where "x_uuid X (rd_ID rnd) = Some i" "x_uuid X (rd_RoomID rnd) = Some rid"
    "w_db w' = (w_db w)\<lparr>db_rounds := db_rounds (w_db w) @ [\<lparr>dr_ID = i, dr_RoomID = rid, dr_Number = trunc32 (rd_Number rnd),
       dr_BettingOpensAt = rd_BettingOpensAt rnd, dr_BettingClosesAt = rd_BettingClosesAt rnd, dr_Die1 = None,
       dr_Die2 = None, dr_Outcome = None, dr_Status = RoundBetting, dr_CreatedAt = t, dr_SettledAt = None\<rparr>]\<rparr>"
    "\<not> has_round (w_db w) i"
  using assms by (auto simp: Round_Create_def CreateRound_def ok_inv RoundBetting_def Let_def)

lemma SetCurrentRound_ok:
  assumes "cid X i" and "SetCurrentRound X i n w = (Inr u, w')"
  shows "w_db w' = upd_room i (\<lambda>r. r\<lparr>mr_CurrentRound := trunc32 n\<rparr>) (w_db w)"
  using assms by (auto simp: SetCurrentRound_def UpdateRoomCurrentRound_def ok_inv cid_def split: option.splits)

text \<open>What a successful start wrote.\<close>

lemma StartRound_tx_ok:
  assumes u: "uuid_canonical X" and run: "StartRound_tx X window roomID who w = (Inr x, w')" and s: "store_ok X (w_db w)"
    and g: "game_ok (w_db w)"
  obtains r i now t where "r \<in> set (db_rooms (w_db w))" "x_uuid X roomID = Some (mr_ID r)" "mr_Status r = RoomOpen"
    "\<not> live_round (abs_room (w_db w) r)" "mr_CurrentRound r < MaxRounds" "mr_OwnerID r = who"
    "cid X i" "\<not> has_round (w_db w) i" "0 < window"
    "w_db w' = upd_room (mr_ID r) (\<lambda>q. q\<lparr>mr_CurrentRound := mr_CurrentRound r + 1\<rparr>)
      ((w_db w)\<lparr>db_rounds := db_rounds (w_db w) @ [\<lparr>dr_ID = i, dr_RoomID = mr_ID r, dr_Number = mr_CurrentRound r + 1,
       dr_BettingOpensAt = now, dr_BettingClosesAt = now + window, dr_Die1 = None,
       dr_Die2 = None, dr_Outcome = None, dr_Status = RoundBetting, dr_CreatedAt = t, dr_SettledAt = None\<rparr>]\<rparr>)"
proof -
  let ?d = "w_db w"
  from run obtain room0 w1 live room1 w2 rid w3 now w4 rnd room w5 where
    l: "Room_GetForUpdate X roomID w = (Inr room0, w1)" and a: "attachLiveRound X room0 w1 = (Inr (live, room1), w2)"
    and own: "IsOwner room1 who" and n: "NewID X w2 = (Inr rid, w3)" and t: "Now X w3 = (Inr now, w4)"
    and st: "StartRound room1 rid now window = Inr (rnd, room)"
    and c: "Round_Create X rnd w4 = (Inr (), w5)" and e: "SetCurrentRound X (rm_ID room) (rm_CurrentRound room) w5 = (Inr (), w')"
    unfolding StartRound_tx_def run_ok if_prog_ok by blast
  from Room_load_ok [OF s l [unfolded Room_GetForUpdate_def]] obtain r where
    i: "x_uuid X roomID = Some (mr_ID r)" and r: "r \<in> set (db_rooms ?d)" "room0 = bare_room ?d r" and w1: "w_db w1 = ?d" by metis
  have room1: "room1 = abs_room ?d r" and w2: "w_db w2 = ?d"
    using attachLiveRound_ok [of X w1 r live room1 w2] a r s w1 by simp_all
  have w4: "w_db w4 = ?d" using n t w2 by (simp add: Now_ok NewID_ok)
  have cid: "cid X (mr_ID r)" using s r by (auto simp: store_ok_def canonical_rows_def)
  from st have sr: "mr_Status r = RoomOpen" "\<not> live_round (abs_room ?d r)" "mr_CurrentRound r < MaxRounds"
    and rnd: "rd_ID rnd = rid" "rd_RoomID rnd = mr_ID r" "rd_Number rnd = mr_CurrentRound r + 1"
      "rd_BettingOpensAt rnd = now" "rd_BettingClosesAt rnd = now + window" "0 < window"
    and room: "rm_ID room = mr_ID r" "rm_CurrentRound room = mr_CurrentRound r + 1"
    by (auto simp: StartRound_ok NewRound_ok room1)
  have "0 \<le> mr_CurrentRound r" using game_ok_wf [OF g r(1)] by (simp add: wf_room_def)
  then have tr: "trunc32 (mr_CurrentRound r + 1) = mr_CurrentRound r + 1" using sr(3) by (simp add: MaxRounds_def)
  from c obtain i' rid' tt where ids: "x_uuid X rid = Some i'" "x_uuid X (mr_ID r) = Some rid'" and nr: "\<not> has_round ?d i'"
    and w5: "w_db w5 = ?d\<lparr>db_rounds := db_rounds ?d @ [\<lparr>dr_ID = i', dr_RoomID = rid', dr_Number = mr_CurrentRound r + 1,
       dr_BettingOpensAt = now, dr_BettingClosesAt = now + window, dr_Die1 = None,
       dr_Die2 = None, dr_Outcome = None, dr_Status = RoundBetting, dr_CreatedAt = tt, dr_SettledAt = None\<rparr>]\<rparr>"
    by (rule Round_Create_ok) (simp add: rnd tr w4)
  have "rid' = mr_ID r" using ids(2) cid by (simp add: cid_def)
  with w5 SetCurrentRound_ok [OF cid e [unfolded room]] sr nr uuid_cid [OF u ids(1)] own rnd(6)
  show ?thesis by (intro that [OF r(1) i, of i' now tt]) (simp_all add: tr room1 IsOwner_def)
qed

lemma fresh_round_bets:
  assumes "schema_ok d" and "\<not> has_round d i"
  shows "bets_of d i = []"
proof -
  have "filter (\<lambda>b. br_RoundID b = i) (db_bets d) = []"
    using assms by (auto simp: schema_ok_def bets_schema_def has_in filter_empty_conv)
  then show ?thesis by (simp add: bets_of_def)
qed

lemma abs_new_round:
  assumes "bets_of d i = []"
  shows "abs_round d \<lparr>dr_ID = i, dr_RoomID = rid, dr_Number = n, dr_BettingOpensAt = now, dr_BettingClosesAt = now + window,
      dr_Die1 = None, dr_Die2 = None, dr_Outcome = None, dr_Status = RoundBetting, dr_CreatedAt = t, dr_SettledAt = None\<rparr> =
    \<lparr>rd_ID = i, rd_RoomID = rid, rd_Number = n, rd_BettingOpensAt = now, rd_BettingClosesAt = now + window,
      rd_Die1 = 0, rd_Die2 = 0, rd_Outcome = [], rd_Status = RoundBetting, rd_SettledAt = None, rd_bets = []\<rparr>"
  using assms by (simp add: abs_round_def fromInt2_def)

lemma game_ok_new_round:
  assumes sch: "schema_ok d" and sch': "schema_ok d'" and g: "game_ok d" and r: "r \<in> set (db_rooms d)"
    and st: "mr_Status r = RoomOpen" "\<not> live_round (abs_room d r)" "mr_CurrentRound r < MaxRounds"
    and i: "\<not> has_round d i" "\<not> blank i" and win: "0 < window"
    and row: "row = \<lparr>dr_ID = i, dr_RoomID = mr_ID r, dr_Number = mr_CurrentRound r + 1,
       dr_BettingOpensAt = now, dr_BettingClosesAt = now + window, dr_Die1 = None,
       dr_Die2 = None, dr_Outcome = None, dr_Status = RoundBetting, dr_CreatedAt = t, dr_SettledAt = None\<rparr>"
    and d': "d' = upd_room (mr_ID r) (\<lambda>q. q\<lparr>mr_CurrentRound := mr_CurrentRound r + 1\<rparr>) (d\<lparr>db_rounds := db_rounds d @ [row]\<rparr>)"
  shows "game_ok d'"
proof -
  let ?r' = "r\<lparr>mr_CurrentRound := mr_CurrentRound r + 1\<rparr>"
  have tabs: "db_room_players d' = db_room_players d" "db_bets d' = db_bets d" "db_rounds d' = db_rounds d @ [row]"
    by (simp_all add: d' upd_room_def)
  have rooms: "q \<in> set (db_rooms d) \<and> mr_ID q \<noteq> mr_ID r \<or> q = ?r'" if "q \<in> set (db_rooms d')" for q
    using that room_unique [OF sch r] by (auto simp: d' upd_room_def split: if_splits)
  have b: "bets_of d' = bets_of d" by (rule ext) (simp add: bets_of_def tabs)
  have win_r: "within_room (mr_ID r) d d'" using abs_round_cong [of d' _ d] by (simp add: within_room_def tabs b rounds_of_def row)
  note ord = game_okD(3) [OF g]
  have low: "dr_Number q \<le> mr_CurrentRound r" if "q \<in> set (db_rounds d)" "dr_RoomID q = mr_ID r" for q
    using ord that r unfolding order_ok_def by blast
  have sel: "dr_RoomID row = mr_ID r" "dr_Number row = mr_CurrentRound r + 1" "dr_Status row = RoundBetting"
    by (simp_all add: row)
  have cur: "current_row d' (mr_ID r) = Some row"
    using low by (intro current_rowI [OF sch']) (force simp: tabs sel)+
  have abs_row: "abs_round d' row = \<lparr>rd_ID = i, rd_RoomID = mr_ID r, rd_Number = mr_CurrentRound r + 1,
      rd_BettingOpensAt = now, rd_BettingClosesAt = now + window, rd_Die1 = 0, rd_Die2 = 0, rd_Outcome = [],
      rd_Status = RoundBetting, rd_SettledAt = None, rd_bets = []\<rparr>" (is "_ = ?rd")
    unfolding row using fresh_round_bets [OF sch i(1)] by (intro abs_new_round) (simp add: b)
  have wf: "wf_room (abs_room d r)" by (rule game_ok_wf [OF g r])
  have new: "NewRound i (mr_ID r) (mr_CurrentRound r + 1) now window = Inr ?rd"
    using wf i win st by (simp add: NewRound_ok wf_room_def)
  then have wr: "wf_round (abs_round d' row)" unfolding abs_row by (rule wf_NewRound)
  have "abs_room d' ?r' = (abs_room d r)\<lparr>rm_CurrentRound := mr_CurrentRound r + 1, rm_round := Some (abs_round d' row)\<rparr>"
    using cur by (simp add: abs_room_live sel abs_room_def AttachRound_def bare_room_def seat_map_def seats_of_def tabs split: option.split)
  moreover have "wf_room ((abs_room d r)\<lparr>rm_CurrentRound := mr_CurrentRound r + 1, rm_round := Some (abs_round d' row)\<rparr>)"
    using wf wr st by (simp add: wf_room_def PlayerCount_def live_round_def sel)
  ultimately have wf': "wf_room (abs_room d' ?r')" by simp
  have "rooms_ok_but {mr_ID r} d'"
    by (rule within_room_rooms [OF win_r game_okD(1) [OF g]]) (use rooms in force)
  then have "rooms_ok_but {} d'" by (rule rooms_ok_close) (use rooms wf' in force)
  moreover have "rounds_ok d'"
    using game_okD(2) [OF g] wr abs_round_cong [of d' _ d] by (auto simp: rounds_ok_def tabs b)
  moreover have "order_ok d'"
    unfolding order_ok_def
  proof (intro ballI impI)
    fix q x assume q: "q \<in> set (db_rooms d')" and x: "x \<in> set (db_rounds d')" "dr_RoomID x = mr_ID q"
    show "dr_Number x \<le> mr_CurrentRound q \<and>
        (dr_Status x = RoundBetting \<and> mr_Status q \<noteq> RoomClosed \<longrightarrow> dr_Number x = mr_CurrentRound q)"
    proof (cases "x = row")
      case True
      then have "q = ?r'" using rooms [OF q] x sel by auto
      then show ?thesis using True sel by simp
    next
      case False
      then have x': "x \<in> set (db_rounds d)" using x tabs by simp
      show ?thesis
      proof (cases "q = ?r'")
        case True
        then have xr: "dr_RoomID x = mr_ID r" using x by simp
        have "dr_Status x \<noteq> RoundBetting"
          using no_live_betting [OF sch g r st(2)] x' xr st(1) by simp
        then show ?thesis using low [OF x' xr] True by simp
      next
        case False
        then show ?thesis using rooms [OF q] ord x' x(2) unfolding order_ok_def by blast
      qed
    qed
  qed
  moreover have "one_room d'"
  proof -
    have "set (active_rooms d' p) \<subseteq> set (active_rooms d p)" for p
      by (auto simp: set_active_rooms tabs d' upd_room_def split: if_splits) metis+
    then show ?thesis using game_okD(4) [OF g] unfolding one_room_def by blast
  qed
  ultimately show ?thesis by (simp add: game_ok_def)
qed

lemma keeps_StartRound_play:
  assumes u: "uuid_canonical X"
  shows "keeps (play_ok X) (StartRound_tx X window i who)"
proof (rule play_okI [OF keeps_store(4) [OF u]])
  fix w x w' assume run: "StartRound_tx X window i who w = (Inr x, w')" and s: "store_ok X (w_db w)" and g: "game_ok (w_db w)"
  have s': "store_ok X (w_db w')" by (rule keepsD [OF keeps_store(4) [OF u] run s])
  from u run s g show "game_ok (w_db w')"
    by (rule StartRound_tx_ok)
       (rule game_ok_new_round [OF _ _ g _ _ _ _ _ _ _ refl];
        use s s' in \<open>simp add: store_ok_def cid_def\<close>)
qed

section \<open>Placing a bet\<close>

lemma toDomainBet_sel [simp]:
  "bt_ID (toDomainBet b) = br_ID b" "bt_RoundID (toDomainBet b) = br_RoundID b" "bt_PlayerID (toDomainBet b) = br_PlayerID b"
  "bt_Choice (toDomainBet b) = br_Choice b" "bt_Amount (toDomainBet b) = br_Amount b" "bt_Won (toDomainBet b) = br_Won b"
  "bt_Payout (toDomainBet b) = br_Payout b" "bt_PlacedAt (toDomainBet b) = br_PlacedAt b"
  by (simp_all add: toDomainBet_def)

lemma abs_round_put_bets:
  "db_bets d' = db_bets d @ [b] \<Longrightarrow> br_RoundID b = dr_ID row \<Longrightarrow>
   \<exists>bs. abs_round d' row = (abs_round d row)\<lparr>rd_bets := bs\<rparr> \<and>
     mset bs = mset (rd_bets (abs_round d row) @ [(br_PlayerID b, toDomainBet b)])"
  by (simp add: abs_round_def bets_of_def)

lemma game_ok_new_bet:
  assumes sch: "schema_ok d" and g: "game_ok d" and r: "r \<in> set (db_rooms d)"
    and cur: "current_row d (mr_ID r) = Some row" and st: "dr_Status row \<noteq> RoundSettled"
    and pb: "Round_PlaceBet (abs_round d row) (Some (toDomainBet b)) now = Inr rd"
    and b: "br_PlacedAt b = now" "Choice_Valid (br_Choice b)" "0 < sint (br_Amount b)" "br_Won b = None" "br_Payout b = None"
    and d': "d' = d\<lparr>db_bets := db_bets d @ [b]\<rparr>"
  shows "game_ok d'"
proof -
  have tabs: "db_room_players d' = db_room_players d" "db_rounds d' = db_rounds d" "db_rooms d' = db_rooms d"
    "db_bets d' = db_bets d @ [b]" by (simp_all add: d')
  have row: "row \<in> set (db_rounds d)" "dr_RoomID row = mr_ID r" using current_row_mem [OF cur] by auto
  have rid: "br_RoundID b = dr_ID row" using pb by (simp add: Round_PlaceBet_ok)
  have other: "bets_of d' j = bets_of d j" if "j \<noteq> dr_ID row" for j
    using that rid by (simp add: bets_of_def tabs)
  have same: "abs_round d' q = abs_round d q" if "q \<in> set (db_rounds d)" "q \<noteq> row" for q
    using that round_unique [OF sch row(1)] by (intro abs_round_cong other) blast
  have "wf_round (abs_round d row)" using game_okD(2) [OF g] row by (simp add: rounds_ok_def)
  then have wf: "wf_round rd" using b by (intro wf_Round_PlaceBet [OF _ pb]) simp_all
  have rd: "rd = (abs_round d row)\<lparr>rd_bets := rd_bets (abs_round d row) @ [(br_PlayerID b, toDomainBet b)]\<rparr>"
    using pb by (auto simp: Round_PlaceBet_ok HasBet_def AList_update_new)
  obtain bs where bs: "abs_round d' row = (abs_round d row)\<lparr>rd_bets := bs\<rparr>"
    "mset bs = mset (rd_bets (abs_round d row) @ [(br_PlayerID b, toDomainBet b)])"
    using abs_round_put_bets [OF tabs(4) rid] by blast
  have "wf_round (rd\<lparr>rd_bets := bs\<rparr>)" using bs(2) by (intro wf_round_perm [OF wf]) (simp add: rd)
  then have wr: "wf_round (abs_round d' row)" by (simp add: bs(1) rd)
  have rounds: "rounds_ok d'"
    using game_okD(2) [OF g] same wr unfolding rounds_ok_def tabs by metis
  have cur': "current_row d' (mr_ID r) = Some row" using cur by (simp add: current_row_def rounds_of_def tabs)
  have "abs_room d' r = (abs_room d r)\<lparr>rm_round := Some (abs_round d' row)\<rparr>"
    using abs_room_live [OF cur st] abs_room_live [OF cur' st]
    by (simp add: bare_room_def seat_map_def seats_of_def tabs)
  moreover have "wf_room ((abs_room d r)\<lparr>rm_round := Some (abs_round d' row)\<rparr>)"
    by (rule wf_room_round [OF game_ok_wf [OF g r] _ wr, of "abs_round d row"])
       (simp_all add: abs_room_live [OF cur st])
  ultimately have wf_r: "wf_room (abs_room d' r)" by simp
  have "within_room (mr_ID r) d d'"
    using same row(2) by (auto simp: within_room_def tabs rounds_of_def)
  then have "rooms_ok_but {mr_ID r} d'"
    by (rule within_room_rooms [OF _ game_okD(1) [OF g]]) (simp add: tabs)
  then have "rooms_ok_but {} d'" by (rule rooms_ok_close) (use wf_r room_unique [OF sch r] tabs in metis)
  with rounds game_okD(3,4) [OF g] active_rooms_frame [OF tabs(1,3)] show ?thesis
    by (simp add: game_ok_def order_ok_def one_room_def tabs)
qed

lemma Bet_Insert_ok:
  assumes "Bet_Insert X b w = (Inr u, w')"
  obtains i rid pid where "x_uuid X (bt_ID b) = Some i" "x_uuid X (bt_RoundID b) = Some rid" "x_uuid X (bt_PlayerID b) = Some pid"
    "w_db w' = (w_db w)\<lparr>db_bets := db_bets (w_db w) @ [\<lparr>br_ID = i, br_RoundID = rid, br_PlayerID = pid, br_Choice = bt_Choice b,
       br_Amount = bt_Amount b, br_Won = None, br_Payout = None, br_PlacedAt = bt_PlacedAt b, br_SettledAt = None\<rparr>]\<rparr>"
  using assms by (auto simp: Bet_Insert_def InsertBet_def ok_inv Let_def)

lemma seated_canonical: "store_ok X d \<Longrightarrow> HasPlayer (abs_room d r) p \<Longrightarrow> cid X p"
  by (auto simp: HasPlayer_def seat_map_def set_seats_of store_ok_def canonical_rows_def dest!: map_of_SomeD)

lemma PlaceBet_tx_run:
  assumes "PlaceBet_tx X roomID playerID choice amount w = (Inr x, w')"
  obtains room0 w1 room1 w2 rnd where "Room_GetByID X roomID w = (Inr room0, w1)"
    "attachLiveRound X room0 w1 = (Inr (Some rnd, room1), w2)"
    "PlaceBet_live X room1 rnd playerID choice amount w2 = (Inr x, w')"
  using assms unfolding PlaceBet_tx_def run_ok by (auto simp: fail_ok split: option.splits)

text \<open>What a successful bet wrote: one bet row in the live round, then the stake.\<close>

lemma PlaceBet_tx_ok:
  assumes u: "uuid_canonical X" and run: "PlaceBet_tx X roomID playerID choice amount w = (Inr x, w')" and s: "store_ok X (w_db w)"
  obtains r row bid now rd w1 where "r \<in> set (db_rooms (w_db w))" "x_uuid X roomID = Some (mr_ID r)"
    "current_row (w_db w) (mr_ID r) = Some row" "dr_Status row \<noteq> RoundSettled" "mr_Status r \<noteq> RoomClosed"
    "HasPlayer (abs_room (w_db w) r) playerID" "Choice_Valid choice" "0 < sint amount" "cid X playerID"
    "Round_PlaceBet (abs_round (w_db w) row) (Some (toDomainBet \<lparr>br_ID = bid, br_RoundID = dr_ID row,
       br_PlayerID = playerID, br_Choice = choice, br_Amount = amount, br_Won = None, br_Payout = None,
       br_PlacedAt = now, br_SettledAt = None\<rparr>)) now = Inr rd"
    "w_db w1 = (w_db w)\<lparr>db_bets := db_bets (w_db w) @ [\<lparr>br_ID = bid, br_RoundID = dr_ID row,
       br_PlayerID = playerID, br_Choice = choice, br_Amount = amount, br_Won = None, br_Payout = None,
       br_PlacedAt = now, br_SettledAt = None\<rparr>]\<rparr>"
    "pg.moved playerID (- sint amount) w1 w'" "po_RoundID x = dr_ID row" "po_Amount x = amount"
proof -
  let ?d = "w_db w"
  from run obtain room0 w1 room1 w2 rnd where l: "Room_GetByID X roomID w = (Inr room0, w1)"
    and a: "attachLiveRound X room0 w1 = (Inr (Some rnd, room1), w2)"
    and k: "PlaceBet_live X room1 rnd playerID choice amount w2 = (Inr x, w')" by (rule PlaceBet_tx_run)
  from k obtain now w3 bid w4 bet room2 w5 where t: "Now X w2 = (Inr now, w3)" and n: "NewID X w3 = (Inr bid, w4)"
    and nb: "NewBet bid (rd_ID rnd) playerID choice amount now = Inr bet"
    and pb: "PlaceBet room1 (Some bet) now = Inr room2" and ins: "Bet_Insert X bet w4 = (Inr (), w5)"
    and tail: "stake X playerID amount (rd_ID rnd) now w5 = (Inr (), w')"
    and x: "x = \<lparr>po_BetID = bt_ID bet, po_RoomID = rm_ID room2, po_RoundID = rd_ID rnd,
       po_RoundNumber = rd_Number rnd, po_Choice = bt_Choice bet, po_Amount = bt_Amount bet\<rparr>"
    unfolding PlaceBet_live_def run_ok by blast
  from Room_load_ok [OF s l [unfolded Room_GetByID_def]] obtain r where
    i: "x_uuid X roomID = Some (mr_ID r)" and r: "r \<in> set (db_rooms ?d)" "room0 = bare_room ?d r" and w1: "w_db w1 = ?d" by metis
  have live: "Some rnd = map_option (abs_round ?d) (current_row ?d (mr_ID r))"
    and room1: "room1 = abs_room ?d r" and w2: "w_db w2 = ?d"
    using attachLiveRound_ok [of X w1 r "Some rnd" room1 w2] a r s w1 by simp_all
  have w4: "w_db w4 = ?d" using n t w2 by (simp add: Now_ok NewID_ok)
  from live [symmetric] obtain row where cur: "current_row ?d (mr_ID r) = Some row" and rnd: "rnd = abs_round ?d row" by auto
  from pb obtain rd0 rd where act: "Room_Active (abs_room ?d r)" and has: "HasPlayer (abs_room ?d r) (bt_PlayerID bet)"
    and rd0: "rm_round (abs_room ?d r) = Some rd0" and pbr: "Round_PlaceBet rd0 (Some bet) now = Inr rd"
    unfolding room1 PlaceBet_ok by blast
  from rd0 cur have st: "dr_Status row \<noteq> RoundSettled" and rd0': "rd0 = abs_round ?d row" unfolding abs_room_round by auto
  from nb have bet: "bet = \<lparr>bt_ID = bid, bt_RoundID = dr_ID row, bt_PlayerID = playerID, bt_Choice = choice, bt_Amount = amount,
      bt_Won = None, bt_Payout = None, bt_PlacedAt = now\<rparr>" and ok: "Choice_Valid choice" "0 < sint amount"
    by (simp_all add: NewBet_ok rnd)
  have p: "cid X playerID" using seated_canonical [OF s has] by (simp add: bet)
  have c: "cid X (dr_ID row)" using s current_row_mem [OF cur] by (auto simp: store_ok_def canonical_rows_def)
  from ins obtain bid' where w5: "w_db w5 = ?d\<lparr>db_bets := db_bets ?d @ [\<lparr>br_ID = bid', br_RoundID = dr_ID row,
       br_PlayerID = playerID, br_Choice = choice, br_Amount = amount, br_Won = None, br_Payout = None,
       br_PlacedAt = now, br_SettledAt = None\<rparr>]\<rparr>"
    by (rule Bet_Insert_ok) (use p c in \<open>simp add: bet w4 cid_def\<close>)
  have out: "po_RoundID x = dr_ID row" "po_Amount x = amount"
    by (simp_all add: x rnd bet)
  have mv: "pg.moved playerID (- sint amount) w5 w'"
    using stake_moves [OF u tail] p by (auto simp: cid_def)
  show ?thesis
    by (rule that [OF r(1) i cur st _ _ ok p _ w5 mv out])
       (use act has pbr in \<open>simp_all add: Room_Active_def bet rd0' Round_PlaceBet_ok\<close>)
qed

lemma keeps_PlaceBet_play:
  assumes u: "uuid_canonical X"
  shows "keeps (play_ok X) (PlaceBet_tx X rm p ch a)"
proof (rule play_okI [OF keeps_store(5) [OF u]])
  fix w x w' assume run: "PlaceBet_tx X rm p ch a w = (Inr x, w')" and s: "store_ok X (w_db w)" and g: "game_ok (w_db w)"
  have sch: "schema_ok (w_db w)" using s by (simp add: store_ok_def)
  from u run s show "game_ok (w_db w')"
  proof (rule PlaceBet_tx_ok)
    fix r and row :: RoundRow and bid now rd and w1 :: "'a world"
    let ?b = "\<lparr>br_ID = bid, br_RoundID = dr_ID row, br_PlayerID = p, br_Choice = ch, br_Amount = a, br_Won = None,
      br_Payout = None, br_PlacedAt = now, br_SettledAt = None\<rparr>"
    assume h: "r \<in> set (db_rooms (w_db w))" "current_row (w_db w) (mr_ID r) = Some row" "dr_Status row \<noteq> RoundSettled"
      "Round_PlaceBet (abs_round (w_db w) row) (Some (toDomainBet ?b)) now = Inr rd"
      and ok: "Choice_Valid ch" "0 < sint a"
      and w1: "w_db w1 = (w_db w)\<lparr>db_bets := db_bets (w_db w) @ [?b]\<rparr>" and mv: "pg.moved p (- sint a) w1 w'"
    have "game_ok (w_db w1)" by (rule game_ok_new_bet [OF sch g h _ _ _ _ _ w1]) (simp_all add: ok)
    with moved_game_ok [OF mv] show ?thesis by simp
  qed
qed

end
