(* ===== verification/Game_Settlement.thy ===== *)
theory Game_Settlement
  imports Game_Rounds
begin

text \<open>
  Settlement and abort, exactly: which bets they resolve, by how much they move which wallet,
  and that the game invariant survives.  A sequence of wallet moves is summarised by \<open>shifted\<close>:
  the balance and the ledger of every player moved by a given amount.
\<close>

section \<open>Sums of moves\<close>

definition shifted :: "(id \<Rightarrow> int) \<Rightarrow> db \<Rightarrow> db \<Rightarrow> bool" where
  "shifted f d d' \<longleftrightarrow> (\<forall>p. balance_of d' p = map_option (\<lambda>b. b + f p) (balance_of d p) \<and>
     ledger_of d' p = ledger_of d p + f p \<and> (balance_of d p = None \<longrightarrow> f p = 0))"

lemma shifted_refl: "shifted (\<lambda>_. 0) d d"
  by (auto simp: shifted_def option.map_ident)

lemma shifted_same:
  assumes "db_players d' = db_players d" and "db_transactions d' = db_transactions d"
  shows "shifted (\<lambda>_. 0) d d'"
  using assms by (auto simp: shifted_def balance_of_def ledger_of_def option.map_ident)

lemma shifted_trans:
  assumes "shifted f d d1" and "shifted g d1 d2"
  shows "shifted (\<lambda>p. f p + g p) d d2"
  unfolding shifted_def
proof
  fix p show "balance_of d2 p = map_option (\<lambda>b. b + (f p + g p)) (balance_of d p) \<and>
      ledger_of d2 p = ledger_of d p + (f p + g p) \<and> (balance_of d p = None \<longrightarrow> f p + g p = 0)"
    using assms by (cases "balance_of d p") (auto simp: shifted_def dest!: spec [of _ p])
qed

lemma shifted_moved:
  assumes "pg.moved p x w w'"
  shows "shifted (\<lambda>q. if q = p then x else 0) (w_db w) (w_db w')"
  unfolding shifted_def
proof
  fix q show "balance_of (w_db w') q = map_option (\<lambda>b. b + (if q = p then x else 0)) (balance_of (w_db w) q) \<and>
     ledger_of (w_db w') q = ledger_of (w_db w) q + (if q = p then x else 0) \<and>
     (balance_of (w_db w) q = None \<longrightarrow> (if q = p then x else 0) = 0)"
    using assms by (auto simp: pg.moved_def option.map_ident)
qed

section \<open>Bets as the domain sees them\<close>

definition dom_bets :: "db \<Rightarrow> Bet list" where
  "dom_bets d = map toDomainBet (db_bets d)"

lemma sort_key_map: "sort_key k (map f xs) = map f (sort_key (\<lambda>x. k (f x)) xs)"
proof (induction xs)
  case (Cons x xs)
  have "insort_key k (f y) (map f ys) = map f (insort_key (\<lambda>x. k (f x)) y ys)" for y ys
    by (induction ys) auto
  with Cons show ?case by simp
qed simp

definition round_bets :: "db \<Rightarrow> id \<Rightarrow> Bet list" where
  "round_bets d i = sort_key bt_PlacedAt (filter (\<lambda>b. bt_RoundID b = i) (dom_bets d))"

lemma round_bets_eq: "round_bets d i = map toDomainBet (bets_of d i)"
  by (simp add: round_bets_def dom_bets_def bets_of_def filter_map comp_def sort_key_map)

lemma rd_bets_abs: "rd_bets (abs_round d row) = map (\<lambda>b. (bt_PlayerID b, b)) (round_bets d (dr_ID row))"
  by (simp add: abs_round_def round_bets_eq)

lemma Bets_abs: "Bets (abs_round d row) = round_bets d (dr_ID row)"
proof -
  have "sort_key bt_PlacedAt (round_bets d i) = round_bets d i" for i
    by (rule sort_key_id_if_sorted) (simp add: round_bets_def)
  then show ?thesis by (simp add: Bets_eq rd_bets_abs comp_def)
qed

lemma set_round_bets: "set (round_bets d i) = {b \<in> set (dom_bets d). bt_RoundID b = i}"
  by (auto simp: round_bets_def)

lemma dom_bets_ids: "schema_ok d \<Longrightarrow> distinct (map bt_ID (dom_bets d))"
  by (simp add: dom_bets_def comp_def schema_ok_def bets_schema_def)

lemma round_bets_ids:
  assumes "schema_ok d"
  shows "distinct (round_bets d i)"
proof -
  have "distinct (filter (\<lambda>b. bt_RoundID b = i) (dom_bets d))"
    using dom_bets_ids [OF assms] by (simp add: distinct_map)
  then show ?thesis by (simp add: round_bets_def)
qed

lemma dom_bets_canonical:
  "store_ok X d \<Longrightarrow> b \<in> set (dom_bets d) \<Longrightarrow> cid X (bt_ID b) \<and> cid X (bt_PlayerID b)"
  by (auto simp: dom_bets_def store_ok_def canonical_rows_def)

section \<open>Paying the results\<close>

definition winnings :: "Outcome \<Rightarrow> Bet list \<Rightarrow> id \<Rightarrow> int" where
  "winnings oc bs p = (\<Sum>b \<leftarrow> filter (\<lambda>b. bt_PlayerID b = p) bs. sint (credited (bt_Choice b) (bt_Amount b) oc))"

definition same_game :: "db \<Rightarrow> db \<Rightarrow> bool" where
  "same_game d d' \<longleftrightarrow> db_rooms d' = db_rooms d \<and> db_room_players d' = db_room_players d \<and> db_rounds d' = db_rounds d"

lemma SettleBet_effect:
  assumes "SettleBet X i won payout w = (Inr u, w')" and "cid X i"
  shows "same_game (w_db w) (w_db w')" "db_players (w_db w') = db_players (w_db w)"
    "db_transactions (w_db w') = db_transactions (w_db w)" "0 \<le> sint payout"
    "dom_bets (w_db w') = map (\<lambda>b. if bt_ID b = i \<and> bt_Won b = None
       then b\<lparr>bt_Won := Some won, bt_Payout := Some payout\<rparr> else b) (dom_bets (w_db w))"
proof -
  let ?d = "w_db w"
  from assms obtain t b where c: "bets_check (resolve_row won payout t b) = None"
    and d': "w_db w' = upd_bet i (\<lambda>b. if br_Won b = None then resolve_row won payout t b else b) ?d"
    by (auto simp: SettleBet_def SettleBet_sql_def ok_inv cid_def split: option.splits)
  from d' show "same_game ?d (w_db w')" "db_players (w_db w') = db_players ?d" "db_transactions (w_db w') = db_transactions ?d"
    by (simp_all add: same_game_def upd_bet_def)
  from c show "0 \<le> sint payout" by (auto simp: bets_check_def resolve_row_def split: if_splits)
  show "dom_bets (w_db w') = map (\<lambda>b. if bt_ID b = i \<and> bt_Won b = None
       then b\<lparr>bt_Won := Some won, bt_Payout := Some payout\<rparr> else b) (dom_bets ?d)"
    by (simp add: d' dom_bets_def upd_bet_def resolve_row_def toDomainBet_def)
qed

lemma besides_game: "besides d' = besides d \<Longrightarrow> same_game d d' \<and> dom_bets d' = dom_bets d"
  by (simp add: besides_def same_game_def dom_bets_def)

lemma same_game_trans: "same_game d d1 \<Longrightarrow> same_game d1 d2 \<Longrightarrow> same_game d d2"
  by (simp add: same_game_def)

lemma result_under_sel [simp]:
  "rs_BetID (result_under oc b) = bt_ID b" "rs_PlayerID (result_under oc b) = bt_PlayerID b"
  "rs_Won (result_under oc b) = Matches (bt_Choice b) oc"
  "rs_Payout (result_under oc b) = credited (bt_Choice b) (bt_Amount b) oc"
  by (simp_all add: result_under_def)

text \<open>One result: the bet is resolved as the domain resolves it and its player gets the payout.\<close>

lemma pay_result_effect:
  assumes u: "uuid_canonical X" and run: "pay_result X rid now (result_under oc b) w = (Inr (), w')"
    and b: "b \<in> set (dom_bets (w_db w))" "\<not> Settled b" "cid X (bt_ID b)" "cid X (bt_PlayerID b)"
    and ids: "distinct (map bt_ID (dom_bets (w_db w)))"
  shows "same_game (w_db w) (w_db w')" "shifted (winnings oc [b]) (w_db w) (w_db w')"
    "dom_bets (w_db w') = map (\<lambda>c. if c = b then settled_as b oc else c) (dom_bets (w_db w))"
proof -
  let ?po = "credited (bt_Choice b) (bt_Amount b) oc"
  from run obtain w1 where s: "SettleBet X (bt_ID b) (Matches (bt_Choice b) oc) ?po w = (Inr (), w1)"
    and k: "(if \<not> Matches (bt_Choice b) oc \<or> sint ?po \<le> 0 then ret () else settle_credit X (bt_PlayerID b) ?po rid now) w1 = (Inr (), w')"
    unfolding pay_result_def run_ok result_under_sel by (elim exE conjE) (rule that)
  note e = SettleBet_effect [OF s b(3)]
  have k': "same_game (w_db w1) (w_db w') \<and> dom_bets (w_db w') = dom_bets (w_db w1) \<and> shifted (winnings oc [b]) (w_db w1) (w_db w')"
  proof (cases "\<not> Matches (bt_Choice b) oc \<or> sint ?po \<le> 0")
    case True
    then have "sint ?po = 0" using e(4) by (auto simp: credited_def)
    then have "winnings oc [b] = (\<lambda>_. 0)" by (auto simp: winnings_def)
    with True k show ?thesis by (simp add: ret_ok shifted_refl same_game_def)
  next
    case False
    with k have c: "settle_credit X (bt_PlayerID b) ?po rid now w1 = (Inr (), w')" by (simp only: if_False)
    have mv: "pg.moved (bt_PlayerID b) (sint ?po) w1 w'"
      using settle_credit_moves [OF u c] b(4) by (auto simp: cid_def)
    have "winnings oc [b] = (\<lambda>q. if q = bt_PlayerID b then sint ?po else 0)" by (auto simp: winnings_def)
    with shifted_moved [OF mv] mv show ?thesis by (auto simp: pg.moved_def dest: besides_game)
  qed
  then show "same_game (w_db w) (w_db w')" using e(1) same_game_trans by blast
  show "shifted (winnings oc [b]) (w_db w) (w_db w')"
    using shifted_trans [OF shifted_same [OF e(2,3)], of "winnings oc [b]"] k' by simp
  have "c = b" if "c \<in> set (dom_bets (w_db w))" "bt_ID c = bt_ID b" for c
    using that b(1) ids by (auto simp: distinct_map dest: inj_onD)
  then show "dom_bets (w_db w') = map (\<lambda>c. if c = b then settled_as b oc else c) (dom_bets (w_db w))"
    using k' e(5) b(1,2) by (auto simp: settled_as_def Settled_def)
qed

lemma pay_results_effect:
  assumes u: "uuid_canonical X"
  shows "each (pay_result X rid now) (map (result_under oc) bs) w = (Inr (), w') \<Longrightarrow>
    \<forall>b \<in> set bs. b \<in> set (dom_bets (w_db w)) \<and> \<not> Settled b \<and> cid X (bt_ID b) \<and> cid X (bt_PlayerID b) \<Longrightarrow>
    distinct bs \<Longrightarrow> distinct (map bt_ID (dom_bets (w_db w))) \<Longrightarrow>
    same_game (w_db w) (w_db w') \<and> shifted (winnings oc bs) (w_db w) (w_db w') \<and>
    dom_bets (w_db w') = map (\<lambda>c. if c \<in> set bs then settled_as c oc else c) (dom_bets (w_db w))"
proof (induction bs arbitrary: w)
  case Nil
  then have "w' = w" by (simp add: ret_ok)
  moreover have "winnings oc [] = (\<lambda>_. 0)" by (simp add: winnings_def fun_eq_iff)
  ultimately show ?case by (simp add: same_game_def shifted_refl)
next
  case (Cons b bs)
  from Cons.prems(1) obtain w1 where h: "pay_result X rid now (result_under oc b) w = (Inr (), w1)"
    and t: "each (pay_result X rid now) (map (result_under oc) bs) w1 = (Inr (), w')"
    by (auto simp: bnd_ok)
  have b: "b \<in> set (dom_bets (w_db w))" "\<not> Settled b" "cid X (bt_ID b)" "cid X (bt_PlayerID b)"
    using Cons.prems(2) by simp_all
  note e = pay_result_effect [OF u h b Cons.prems(4)]
  have "map bt_ID (dom_bets (w_db w1)) = map bt_ID (dom_bets (w_db w))" by (simp add: e(3))
  then have ids: "distinct (map bt_ID (dom_bets (w_db w1)))" using Cons.prems(4) by (simp only:)
  have "\<forall>c \<in> set bs. c \<in> set (dom_bets (w_db w1)) \<and> \<not> Settled c \<and> cid X (bt_ID c) \<and> cid X (bt_PlayerID c)"
    using Cons.prems(2,3) by (auto simp: e(3) image_iff)
  from Cons.IH [OF t this _ ids] Cons.prems(3) have ih: "same_game (w_db w1) (w_db w')"
    "shifted (winnings oc bs) (w_db w1) (w_db w')"
    "dom_bets (w_db w') = map (\<lambda>c. if c \<in> set bs then settled_as c oc else c) (dom_bets (w_db w1))" by simp_all
  have "settled_as b oc \<notin> set bs" using Cons.prems(2) by (auto simp: settled_as_def Settled_def)
  moreover have "b \<notin> set bs" using Cons.prems(3) by simp
  ultimately have "dom_bets (w_db w') = map (\<lambda>c. if c \<in> set (b # bs) then settled_as c oc else c) (dom_bets (w_db w))"
    by (auto simp: ih(3) e(3))
  moreover have "winnings oc (b # bs) = (\<lambda>p. winnings oc [b] p + winnings oc bs p)"
    by (simp add: winnings_def fun_eq_iff)
  ultimately show ?case using same_game_trans [OF e(1) ih(1)] shifted_trans [OF e(2) ih(2)] by simp
qed

section \<open>The settled round\<close>

lemma wf_room_drop_round:
  assumes "wf_room r" and "\<not> live_round r"
  shows "wf_room (r\<lparr>rm_round := None\<rparr>)"
  using assms by (auto simp: wf_room_def PlayerCount_def)

lemma round_bets_settled:
  assumes "dom_bets d' = map (\<lambda>c. if bt_RoundID c = i then settled_as c oc else c) (dom_bets d)"
  shows "round_bets d' j = (if j = i then map (\<lambda>c. settled_as c oc) (round_bets d i) else round_bets d j)"
proof -
  have f: "filter (\<lambda>b. bt_RoundID b = j) (dom_bets d') =
      map (\<lambda>c. if bt_RoundID c = i then settled_as c oc else c) (filter (\<lambda>b. bt_RoundID b = j) (dom_bets d))"
    by (simp add: assms filter_map comp_def if_distrib cong: if_cong)
  show ?thesis
  proof (cases "j = i")
    case True
    have "filter (\<lambda>b. bt_RoundID b = i) (dom_bets d') = map (\<lambda>c. settled_as c oc) (filter (\<lambda>b. bt_RoundID b = i) (dom_bets d))"
      using f True by simp
    then show ?thesis using True by (simp add: round_bets_def sort_key_map)
  next
    case False
    then have "filter (\<lambda>b. bt_RoundID b = j) (dom_bets d') = filter (\<lambda>b. bt_RoundID b = j) (dom_bets d)"
      unfolding f by (intro map_idI) auto
    then show ?thesis using False by (simp add: round_bets_def)
  qed
qed

lemma abs_round_settled:
  assumes "dom_bets d' = map (\<lambda>c. if bt_RoundID c = dr_ID row then settled_as c oc else c) (dom_bets d)"
  shows "abs_round d' (settle_row d1 d2 oc now row) = settled_round (abs_round d row) d1 d2 oc now"
    and "dr_ID q \<noteq> dr_ID row \<Longrightarrow> abs_round d' q = abs_round d q"
proof -
  note b = round_bets_settled [OF assms]
  have bets: "map (\<lambda>b. (br_PlayerID b, toDomainBet b)) (bets_of d i) = map (\<lambda>b. (bt_PlayerID b, b)) (round_bets d i)" for d i
    by (simp add: round_bets_eq)
  show "abs_round d' (settle_row d1 d2 oc now row) = settled_round (abs_round d row) d1 d2 oc now"
    unfolding abs_round_def bets by (simp add: settle_row_def settled_round_def b fromInt2_def RoundSettled_def comp_def)
  show "dr_ID q \<noteq> dr_ID row \<Longrightarrow> abs_round d' q = abs_round d q"
    unfolding abs_round_def bets by (simp add: b)
qed

text \<open>The database after the round row and its bets are settled, before the room row is touched.\<close>

lemma game_parts_settled:
  assumes sch: "schema_ok d" and sch': "schema_ok d'" and g: "game_ok d" and r: "r \<in> set (db_rooms d)"
    and cur: "current_row d (mr_ID r) = Some row" and st: "dr_Status row = RoundBetting" and oc: "OutcomeOf d1 d2 = Inr oc"
    and tabs: "db_rooms d' = db_rooms d" "db_room_players d' = db_room_players d"
      "db_rounds d' = map (\<lambda>q. if q = row then settle_row d1 d2 oc now row else q) (db_rounds d)"
    and bets: "dom_bets d' = map (\<lambda>c. if bt_RoundID c = dr_ID row then settled_as c oc else c) (dom_bets d)"
  shows "rooms_ok_but {mr_ID r} d'" and "rounds_ok d'" and "order_ok d'" and "one_room d'"
    and "abs_room d' r = (abs_room d r)\<lparr>rm_round := None\<rparr>"
proof -
  have row: "row \<in> set (db_rounds d)" "dr_RoomID row = mr_ID r" using current_row_mem [OF cur] by auto
  have sel: "dr_RoomID (settle_row d1 d2 oc now row) = mr_ID r" "dr_Number (settle_row d1 d2 oc now row) = dr_Number row"
    "dr_Status (settle_row d1 d2 oc now row) = RoundSettled"
    using row by (simp_all add: settle_row_def RoundSettled_def)
  have other: "abs_round d' q = abs_round d q" if "q \<in> set (db_rounds d)" "q \<noteq> row" for q
    using that round_unique [OF sch row(1)] by (intro abs_round_settled(2) [OF bets]) blast
  have rounds: "rounds_of d' j = rounds_of d j" if "j \<noteq> mr_ID r" for j
  proof -
    have "filter (\<lambda>q. dr_RoomID q = j) (map (\<lambda>q. if q = row then settle_row d1 d2 oc now row else q) xs) =
        filter (\<lambda>q. dr_RoomID q = j) xs" for xs
      using that sel row by (induction xs) auto
    then show ?thesis by (simp add: rounds_of_def tabs)
  qed
  have "within_room (mr_ID r) d d'"
    using rounds other row(2) by (auto simp: within_room_def tabs)
  then show "rooms_ok_but {mr_ID r} d'"
    by (rule within_room_rooms [OF _ game_okD(1) [OF g]]) (simp add: tabs)
  have "wf_round (abs_round d row)" using game_okD(2) [OF g] row by (simp add: rounds_ok_def)
  then have "wf_round (abs_round d' (settle_row d1 d2 oc now row))"
    unfolding abs_round_settled(1) [OF bets] using st oc by (intro wf_settled_round) simp_all
  then show "rounds_ok d'"
    using game_okD(2) [OF g] other by (auto simp: rounds_ok_def tabs)
  show "order_ok d'"
    using game_okD(3) [OF g] row sel unfolding order_ok_def tabs by (auto split: if_splits)
  show "one_room d'" using game_okD(4) [OF g] active_rooms_frame [OF tabs(2,1)] by (simp add: one_room_def)
  have "current_row d' (mr_ID r) = Some (settle_row d1 d2 oc now row)"
  proof (rule current_rowI [OF sch' _ sel(1)])
    show "settle_row d1 d2 oc now row \<in> set (db_rounds d')" using row by (auto simp: tabs image_iff)
    fix q assume "q \<in> set (db_rounds d')" "dr_RoomID q = mr_ID r"
    then show "dr_Number q \<le> dr_Number (settle_row d1 d2 oc now row)"
      using current_row_max [OF cur] sel by (auto simp: tabs split: if_splits)
  qed
  then have "abs_room d' r = bare_room d' r" using sel by (intro abs_room_idle) simp
  moreover have "abs_room d r = (bare_room d r)\<lparr>rm_round := Some (abs_round d row)\<rparr>"
    by (rule abs_room_live [OF cur]) (simp add: st)
  ultimately show "abs_room d' r = (abs_room d r)\<lparr>rm_round := None\<rparr>"
    by (simp add: bare_room_def seat_map_def seats_of_def tabs)
qed

section \<open>The settlement transaction\<close>

lemma Round_SettleRow_ok:
  assumes "Round_SettleRow X rnd w = (Inr u, w')" and "cid X (rd_ID rnd)" and sch: "schema_ok (w_db w)"
    and row: "row \<in> set (db_rounds (w_db w))" "dr_ID row = rd_ID rnd" "dr_Status row = RoundBetting"
    and "rd_SettledAt rnd = Some t"
  shows "w_db w' = (w_db w)\<lparr>db_rounds := map (\<lambda>q. if q = row
    then settle_row (trunc16 (rd_Die1 rnd)) (trunc16 (rd_Die2 rnd)) (rd_Outcome rnd) t row else q) (db_rounds (w_db w))\<rparr>"
proof -
  have only: "dr_ID q = rd_ID rnd \<longleftrightarrow> q = row" if "q \<in> set (db_rounds (w_db w))" for q
    using that row(2) round_unique [OF sch row(1) that] by auto
  have rows: "map (\<lambda>q. if dr_ID q = rd_ID rnd then if dr_Status q = ''betting'' then f q else q else q) (db_rounds (w_db w)) =
      map (\<lambda>q. if q = row then f row else q) (db_rounds (w_db w))" for f
  proof (intro map_cong refl)
    fix q assume "q \<in> set (db_rounds (w_db w))"
    from only [OF this] show "(if dr_ID q = rd_ID rnd then if dr_Status q = ''betting'' then f q else q else q) =
        (if q = row then f row else q)"
      using row(3) by (cases "q = row") (simp_all add: RoundBetting_def)
  qed
  from assms(1,2,7) obtain d where d: "SettleRound_sql (trunc16 (rd_Die1 rnd)) (trunc16 (rd_Die2 rnd)) (rd_Outcome rnd) t (rd_ID rnd) (w_db w) = Inr d"
    and w': "w_db w' = snd d"
    by (auto simp: Round_SettleRow_def ok_inv cid_def)
  then show ?thesis
    by (cases d) (auto simp: SettleRound_sql_def writes_ok upd_round_def rows split: option.splits)
qed

lemma SettleRound_tx_run:
  assumes "SettleRound_tx X roomID w = (Inr x, w')"
  obtains room0 w1 room1 w2 loaded where "Room_GetForUpdate X roomID w = (Inr room0, w1)"
    "attachLiveRound X room0 w1 = (Inr (Some loaded, room1), w2)" "SettleRound_live X room1 loaded w2 = (Inr x, w')"
  using assms unfolding SettleRound_tx_def run_ok by (auto simp: fail_ok split: option.splits)

lemma validDie_trunc: "validDie n \<Longrightarrow> trunc16 n = n"
  by (simp add: validDie_def)

lemma settled_round_sel [simp]:
  "rd_ID (settled_round r d1 d2 oc now) = rd_ID r" "rd_Die1 (settled_round r d1 d2 oc now) = d1"
  "rd_Die2 (settled_round r d1 d2 oc now) = d2" "rd_Outcome (settled_round r d1 d2 oc now) = oc"
  "rd_SettledAt (settled_round r d1 d2 oc now) = Some now" "rd_Status (settled_round r d1 d2 oc now) = RoundSettled"
  by (simp_all add: settled_round_def)

lemma finishRound_sel [simp]:
  "rm_ID (finishRound r now) = rm_ID r" "rm_round (finishRound r now) = rm_round r"
  "rm_players (finishRound r now) = rm_players r"
  by (simp_all add: finishRound_def markClosed_def)

text \<open>The writes, from a stored room whose live round has been settled in memory.\<close>

lemma SettleRound_writes_ok:
  assumes u: "uuid_canonical X" and s: "store_ok X (w_db w)" and g: "game_ok (w_db w)" and r: "r \<in> set (db_rooms (w_db w))"
    and cur: "current_row (w_db w) (mr_ID r) = Some row" and st: "dr_Status row = RoundBetting" and oc: "OutcomeOf d1 d2 = Inr oc"
    and room: "room = finishRound ((abs_room (w_db w) r)\<lparr>rm_round := Some (settled_round (abs_round (w_db w) row) d1 d2 oc now)\<rparr>) now"
    and run: "SettleRound_writes X room (settled_round (abs_round (w_db w) row) d1 d2 oc now)
        (map (result_under oc) (round_bets (w_db w) (dr_ID row))) now w = (Inr x, w')"
  obtains db where "same_game ((w_db w)\<lparr>db_rounds := map (\<lambda>q. if q = row then settle_row d1 d2 oc now row else q) (db_rounds (w_db w))\<rparr>) db"
    "shifted (winnings oc (round_bets (w_db w) (dr_ID row))) (w_db w) db"
    "dom_bets db = map (\<lambda>c. if bt_RoundID c = dr_ID row then settled_as c oc else c) (dom_bets (w_db w))"
    "w_db w' = (if rm_Status room = RoomClosed
       then upd_room (mr_ID r) (\<lambda>r. r\<lparr>mr_Status := RoomClosed, mr_ClosedAt := rm_ClosedAt room\<rparr>) db else db)"
    "store_ok X db" "se_Results (fst x) = map (result_under oc) (round_bets (w_db w) (dr_ID row))"
    "se_Die1 (fst x) = d1" "se_Die2 (fst x) = d2" "se_RoomClosed (fst x) = (rm_Status room = RoomClosed)"
proof -
  let ?d = "w_db w" and ?rnd = "settled_round (abs_round (w_db w) row) d1 d2 oc now" and ?bs = "round_bets (w_db w) (dr_ID row)"
  obtain out sm where xp: "x = (out, sm)" by (rule prod.exhaust)
  from run [unfolded xp] obtain w1 w2 w3 bs where sr: "Round_SettleRow X ?rnd w = (Inr (), w1)"
    and pay: "each (pay_result X (rd_ID ?rnd) now) (map (result_under oc) ?bs) w1 = (Inr (), w2)"
    and up: "(if rm_Status room = RoomClosed then UpdateStatus X (rm_ID room) (rm_Status room) (rm_ClosedAt room) else ret ()) w2 = (Inr (), w3)"
    and mb: "memberBalances X (Players room) w3 = (Inr bs, w')"
    and x: "out = \<lparr>se_RoomID = rm_ID room, se_RoundID = rd_ID ?rnd, se_RoundNumber = rd_Number ?rnd,
           se_Die1 = rd_Die1 ?rnd, se_Die2 = rd_Die2 ?rnd, se_Sum = rd_Die1 ?rnd + rd_Die2 ?rnd,
           se_Outcome = rd_Outcome ?rnd, se_Results = map (result_under oc) ?bs, se_Members = Players room,
           se_Balances = bs, se_RoomClosed = (rm_Status room = RoomClosed),
           se_CloseReason = (if \<not> (rm_Status room = RoomClosed) then [] else if rd_Number ?rnd < rm_MaxRounds room then ReasonOwnerClosed
              else ReasonMaxRounds)\<rparr>"
    unfolding SettleRound_writes_def Let_def run_ok prod.inject by blast
  have sch: "schema_ok ?d" using s by (simp add: store_ok_def)
  have row: "row \<in> set (db_rounds ?d)" "dr_RoomID row = mr_ID r" using current_row_mem [OF cur] by auto
  have c: "cid X (dr_ID row)" "cid X (mr_ID r)" using s row r by (auto simp: store_ok_def canonical_rows_def)
  have dice: "trunc16 d1 = d1" "trunc16 d2 = d2" using oc by (auto simp: OutcomeOf_ok validDie_trunc)
  have "w_db w1 = ?d\<lparr>db_rounds := map (\<lambda>q. if q = row
      then settle_row (trunc16 (rd_Die1 ?rnd)) (trunc16 (rd_Die2 ?rnd)) (rd_Outcome ?rnd) now row else q) (db_rounds ?d)\<rparr>"
    by (rule Round_SettleRow_ok [OF sr _ sch row(1) _ st]) (simp_all add: c)
  then have w1: "w_db w1 = ?d\<lparr>db_rounds := map (\<lambda>q. if q = row then settle_row d1 d2 oc now row else q) (db_rounds ?d)\<rparr>"
    by (simp only: settled_round_sel dice)
  have b1: "dom_bets (w_db w1) = dom_bets ?d" by (simp add: w1 dom_bets_def)
  have wfr: "wf_round (abs_round ?d row)" using game_okD(2) [OF g] row by (simp add: rounds_ok_def)
  have open_bets: "\<not> Settled b" if "b \<in> set ?bs" for b
    using wf_betting_unsettled [OF wfr] that st by (simp add: Bets_abs)
  have pre: "\<forall>b \<in> set ?bs. b \<in> set (dom_bets (w_db w1)) \<and> \<not> Settled b \<and> cid X (bt_ID b) \<and> cid X (bt_PlayerID b)"
    using open_bets dom_bets_canonical [OF s] by (auto simp: b1 set_round_bets)
  note e = pay_results_effect [OF u pay pre round_bets_ids [OF sch]]
  have e': "same_game (w_db w1) (w_db w2)" "shifted (winnings oc ?bs) (w_db w1) (w_db w2)"
    "dom_bets (w_db w2) = map (\<lambda>c. if c \<in> set ?bs then settled_as c oc else c) (dom_bets ?d)"
    using e dom_bets_ids [OF sch] by (simp_all add: b1)
  have "shifted (\<lambda>_. 0) ?d (w_db w1)" by (rule shifted_same) (simp_all add: w1)
  from shifted_trans [OF this e'(2)] have sh: "shifted (winnings oc ?bs) ?d (w_db w2)" by simp
  have db: "dom_bets (w_db w2) = map (\<lambda>c. if bt_RoundID c = dr_ID row then settled_as c oc else c) (dom_bets ?d)"
    unfolding e'(3) by (intro map_cong refl) (simp add: set_round_bets)
  have s2: "store_ok X (w_db w2)"
    using keepsD [OF keeps_each [OF keeps_pay_result_store] pay]
      keepsD [OF keeps_steady [OF steady_store_repos(6)] sr s] by blast
  have "w_db w' = w_db w3" by (rule readingD [OF reading_memberBalances mb])
  then have w': "w_db w' = (if rm_Status room = RoomClosed
       then upd_room (mr_ID r) (\<lambda>r. r\<lparr>mr_Status := RoomClosed, mr_ClosedAt := rm_ClosedAt room\<rparr>) (w_db w2) else w_db w2)"
    using up UpdateStatus_ok [OF c(2), of RoomClosed "rm_ClosedAt room" w2 "()" w3]
    by (auto simp: room ret_ok split: if_splits)
  show ?thesis by (rule that [OF e'(1) [unfolded w1] sh db w' s2]) (simp_all add: xp x)
qed

text \<open>What a successful settlement did, in terms of the stored room and its live round.\<close>

lemma SettleRound_tx_ok:
  assumes u: "uuid_canonical X" and run: "SettleRound_tx X roomID w = (Inr x, w')" and s: "store_ok X (w_db w)"
    and g: "game_ok (w_db w)"
  obtains r row d1 d2 oc now room db where "r \<in> set (db_rooms (w_db w))" "x_uuid X roomID = Some (mr_ID r)"
    "current_row (w_db w) (mr_ID r) = Some row" "dr_Status row = RoundBetting" "mr_Status r \<noteq> RoomClosed"
    "OutcomeOf d1 d2 = Inr oc"
    "room = finishRound ((abs_room (w_db w) r)\<lparr>rm_round := Some (settled_round (abs_round (w_db w) row) d1 d2 oc now)\<rparr>) now"
    "same_game ((w_db w)\<lparr>db_rounds := map (\<lambda>q. if q = row then settle_row d1 d2 oc now row else q) (db_rounds (w_db w))\<rparr>) db"
    "shifted (winnings oc (round_bets (w_db w) (dr_ID row))) (w_db w) db"
    "dom_bets db = map (\<lambda>c. if bt_RoundID c = dr_ID row then settled_as c oc else c) (dom_bets (w_db w))"
    "w_db w' = (if rm_Status room = RoomClosed
       then upd_room (mr_ID r) (\<lambda>r. r\<lparr>mr_Status := RoomClosed, mr_ClosedAt := rm_ClosedAt room\<rparr>) db else db)"
    "store_ok X db" "se_Results (fst x) = map (result_under oc) (round_bets (w_db w) (dr_ID row))"
    "se_Die1 (fst x) = d1" "se_Die2 (fst x) = d2" "se_RoomClosed (fst x) = (rm_Status room = RoomClosed)"
proof -
  let ?d = "w_db w"
  from run obtain room0 w1 room1 w2 loaded where l: "Room_GetForUpdate X roomID w = (Inr room0, w1)"
    and a: "attachLiveRound X room0 w1 = (Inr (Some loaded, room1), w2)" and k: "SettleRound_live X room1 loaded w2 = (Inr x, w')"
    by (rule SettleRound_tx_run)
  from Room_load_ok [OF s l [unfolded Room_GetForUpdate_def]] obtain r where
    i: "x_uuid X roomID = Some (mr_ID r)" and r: "r \<in> set (db_rooms ?d)" "room0 = bare_room ?d r" and w1: "w_db w1 = ?d" by metis
  have room1: "room1 = abs_room ?d r" and w2: "w_db w2 = ?d"
    using attachLiveRound_ok [of X w1 r "Some loaded" room1 w2] a r s w1 by simp_all
  from k obtain now w3 roll w4 where n: "Now X w2 = (Inr now, w3)" and ro: "Roll X w3 = (roll, w4)"
    and k: "bnd (lift (fst (SettleRound room1 (Some roll) now))) (\<lambda>results.
       SettleRound_writes X (snd (SettleRound room1 (Some roll) now))
         (case rm_round (snd (SettleRound room1 (Some roll) now)) of None \<Rightarrow> loaded | Some r \<Rightarrow> r) results now) w4 = (Inr x, w')"
    unfolding SettleRound_live_def bnd_ok [of "Now X"] bnd_ok [of "attempt (Roll X)"] attempt_ok Let_def case_prod_beta
    by blast
  obtain res room where sr: "SettleRound room1 (Some roll) now = (res, room)" by (rule prod.exhaust)
  note k = k [unfolded sr fst_conv snd_conv]
  have w4: "w_db w4 = ?d" using n w2 readingD [OF reading_off_db [OF off_db_Roll] ro] by (simp add: Now_ok)
  have wf: "wf_room (abs_room ?d r)" by (rule game_ok_wf [OF g r(1)])
  from wf show ?thesis
  proof (cases rule: SettleRound_cases [of _ "Some roll" now])
    case (fail e)
    with sr k show ?thesis by (auto simp: room1 run_ok)
  next
    case (ok rd d1 d2 oc)
    from ok(1) obtain row where cur: "current_row ?d (mr_ID r) = Some row" and rd: "rd = abs_round ?d row"
      unfolding abs_room_round by blast
    have st: "dr_Status row = RoundBetting" using ok(2) by (simp add: rd)
    have room: "room = finishRound ((abs_room ?d r)\<lparr>rm_round := Some (settled_round (abs_round ?d row) d1 d2 oc now)\<rparr>) now"
      and res: "res = Inr (map (result_under oc) (round_bets ?d (dr_ID row)))"
      using ok(6) sr by (simp_all add: room1 rd Bets_abs)
    have rr: "rm_round room = Some (settled_round (abs_round ?d row) d1 d2 oc now)" by (simp add: room)
    from k have wr: "SettleRound_writes X room (settled_round (abs_round (w_db w4) row) d1 d2 oc now)
        (map (result_under oc) (round_bets (w_db w4) (dr_ID row))) now w4 = (Inr x, w')"
      by (simp add: res run_ok rr w4)
    have "mr_Status r \<noteq> RoomClosed" using ok(3) by simp
    note that' = that [OF r(1) i cur st this ok(5) room]
    show ?thesis
      by (rule SettleRound_writes_ok [OF u _ _ _ _ st ok(5) _ wr, of r, unfolded w4, OF s g r(1) cur room])
         (rule that'; assumption)
  qed
qed

lemma keeps_SettleRound_play:
  assumes u: "uuid_canonical X"
  shows "keeps (play_ok X) (SettleRound_tx X rm)"
proof (rule play_okI [OF keeps_store(6) [OF u]])
  fix w x w' assume run: "SettleRound_tx X rm w = (Inr x, w')" and s: "store_ok X (w_db w)" and g: "game_ok (w_db w)"
  from u run s g show "game_ok (w_db w')"
  proof (rule SettleRound_tx_ok)
    fix r row d1 d2 oc now room db
    assume r: "r \<in> set (db_rooms (w_db w))" and cur: "current_row (w_db w) (mr_ID r) = Some row"
      and st: "dr_Status row = RoundBetting" "mr_Status r \<noteq> RoomClosed" and oc: "OutcomeOf d1 d2 = Inr oc"
      and room: "room = finishRound ((abs_room (w_db w) r)\<lparr>rm_round := Some (settled_round (abs_round (w_db w) row) d1 d2 oc now)\<rparr>) now"
      and sg: "same_game ((w_db w)\<lparr>db_rounds := map (\<lambda>q. if q = row then settle_row d1 d2 oc now row else q) (db_rounds (w_db w))\<rparr>) db"
      and bets: "dom_bets db = map (\<lambda>c. if bt_RoundID c = dr_ID row then settled_as c oc else c) (dom_bets (w_db w))"
      and w': "w_db w' = (if rm_Status room = RoomClosed
         then upd_room (mr_ID r) (\<lambda>r. r\<lparr>mr_Status := RoomClosed, mr_ClosedAt := rm_ClosedAt room\<rparr>) db else db)"
      and s1: "store_ok X db"
    have sch: "schema_ok (w_db w)" "schema_ok db" using s s1 by (simp_all add: store_ok_def)
    have tabs: "db_rooms db = db_rooms (w_db w)" "db_room_players db = db_room_players (w_db w)"
      "db_rounds db = map (\<lambda>q. if q = row then settle_row d1 d2 oc now row else q) (db_rounds (w_db w))"
      using sg by (simp_all add: same_game_def)
    note parts = game_parts_settled [OF sch g r cur st(1) oc tabs bets]
    have live: "rm_round (abs_room (w_db w) r) = Some (abs_round (w_db w) row)"
      using cur st(1) by (simp add: abs_room_round)
    have "wf_room room"
      unfolding room using game_ok_wf [OF g r] live st oc by (intro wf_finish_settled) simp_all
    moreover have "\<not> live_round room" by (simp add: live_round_def room)
    ultimately have wf: "wf_room (room\<lparr>rm_round := None\<rparr>)" by (rule wf_room_drop_round)
    have r1: "r \<in> set (db_rooms db)" using r tabs by simp
    show "game_ok (w_db w')"
    proof (cases "rm_Status room = RoomClosed")
      case True
      then have "room\<lparr>rm_round := None\<rparr> = abs_room db (r\<lparr>mr_Status := RoomClosed, mr_ClosedAt := rm_ClosedAt room\<rparr>)"
        using st(2) by (simp add: abs_room_status parts(5) room finishRound_def markClosed_def split: if_splits)
      with wf have "wf_room (abs_room db (r\<lparr>mr_Status := RoomClosed, mr_ClosedAt := rm_ClosedAt room\<rparr>))" by simp
      then show ?thesis
        unfolding w' if_P [OF True] using parts(1-4) sch(2) r1 by (intro game_ok_status) simp_all
    next
      case False
      then have "room\<lparr>rm_round := None\<rparr> = abs_room db r"
        by (simp add: parts(5) room finishRound_def markClosed_def split: if_splits)
      with wf have wf': "wf_room (abs_room db r)" by simp
      have "rooms_ok_but {} db"
        by (rule rooms_ok_close [OF parts(1)]) (use wf' room_unique [OF sch(2) r1] in metis)
      with parts(2-4) False w' show ?thesis by (simp add: game_ok_def)
    qed
  qed
qed

section \<open>Refunds\<close>

lemma each_shifted:
  assumes "\<And>x w w'. x \<in> set xs \<Longrightarrow> f x w = (Inr (), w') \<Longrightarrow> shifted (h x) (w_db w) (w_db w')"
  shows "each f xs w = (Inr (), w') \<Longrightarrow> shifted (\<lambda>p. \<Sum>x \<leftarrow> xs. h x p) (w_db w) (w_db w')"
  using assms
proof (induction xs arbitrary: w)
  case Nil
  then show ?case by (simp add: ret_ok shifted_refl)
next
  case (Cons x xs)
  from Cons.prems(1) obtain w1 where x: "f x w = (Inr (), w1)" and t: "each f xs w1 = (Inr (), w')"
    by (auto simp: bnd_ok)
  have "shifted (h x) (w_db w) (w_db w1)" by (rule Cons.prems(2) [OF _ x]) simp
  moreover have "shifted (\<lambda>p. \<Sum>x \<leftarrow> xs. h x p) (w_db w1) (w_db w')" using Cons.prems(2) by (intro Cons.IH [OF t]) auto
  ultimately show ?case using shifted_trans by fastforce
qed

text \<open>The stakes of a round that are still open, per player.\<close>

definition open_stakes :: "Round \<Rightarrow> id \<Rightarrow> int" where
  "open_stakes rnd p = (if rd_Status rnd = RoundBetting
     then \<Sum>b \<leftarrow> Bets rnd. if \<not> Settled b \<and> bt_PlayerID b = p then sint (bt_Amount b) else 0 else 0)"

lemma refund_round_shifts:
  assumes u: "uuid_canonical X" and run: "refund_round X now rnd w = (Inr (), w')"
    and c: "\<And>b. b \<in> set (Bets rnd) \<Longrightarrow> cid X (bt_PlayerID b)"
  shows "shifted (open_stakes rnd) (w_db w) (w_db w')"
proof (cases "rd_Status rnd = RoundBetting")
  case False
  then have "open_stakes rnd = (\<lambda>_. 0)" by (simp add: open_stakes_def fun_eq_iff)
  with run False show ?thesis by (simp add: refund_round_def ret_ok shifted_refl)
next
  case True
  let ?f = "\<lambda>bet. if Settled bet then ret () else refund X (bt_PlayerID bet) (bt_Amount bet) (rd_ID rnd) now"
  let ?h = "\<lambda>b p. if \<not> Settled b \<and> bt_PlayerID b = p then sint (bt_Amount b) else 0"
  have "shifted (\<lambda>p. \<Sum>b \<leftarrow> Bets rnd. ?h b p) (w_db w) (w_db w')"
  proof (rule each_shifted [of "Bets rnd" ?f ?h])
    fix b w w' assume b: "b \<in> set (Bets rnd)" and r: "?f b w = (Inr (), w')"
    show "shifted (?h b) (w_db w) (w_db w')"
    proof (cases "Settled b")
      case True
      then show ?thesis using r by (simp add: ret_ok shifted_refl)
    next
      case False
      with r have "refund X (bt_PlayerID b) (bt_Amount b) (rd_ID rnd) now w = (Inr (), w')" by (simp only: if_False)
      from refund_moves [OF u this] have "pg.moved (bt_PlayerID b) (sint (bt_Amount b)) w w'"
        using c [OF b] by (auto simp: cid_def)
      from shifted_moved [OF this] False show ?thesis by (simp add: eq_commute)
    qed
  qed (use run True in \<open>simp add: refund_round_def\<close>)
  moreover have "open_stakes rnd = (\<lambda>p. \<Sum>b \<leftarrow> Bets rnd. ?h b p)" using True by (simp add: open_stakes_def fun_eq_iff)
  ultimately show ?thesis by simp
qed

lemma collect_ok:
  assumes "\<And>x w y w'. x \<in> set xs \<Longrightarrow> w_db w = d \<Longrightarrow> m x w = (Inr y, w') \<Longrightarrow> y = h x \<and> w_db w' = d"
  shows "collect m xs w = (Inr ys, w') \<Longrightarrow> w_db w = d \<Longrightarrow> ys = map h xs"
  using assms
proof (induction xs arbitrary: w ys)
  case (Cons x xs)
  from Cons.prems(1) obtain y w1 zs where x: "m x w = (Inr y, w1)" and t: "collect m xs w1 = (Inr zs, w')" and ys: "ys = y # zs"
    unfolding collect.simps run_ok by blast
  have y: "y = h x \<and> w_db w1 = d" by (rule Cons.prems(3) [OF _ Cons.prems(2) x]) simp
  have "zs = map h xs" using y Cons.prems(3) by (intro Cons.IH [OF t]) auto
  with y ys show ?case by simp
qed (simp add: ret_ok)

lemma Round_ListByRoom_ok:
  assumes s: "store_ok X (w_db w)" and c: "cid X i" and run: "Round_ListByRoom X i w = (Inr rounds, w')"
  shows "rounds = map (abs_round (w_db w)) (sort_key dr_Number (rounds_of (w_db w) i))"
proof -
  let ?d = "w_db w"
  from run c have k: "collect (hydrate X) (sort_key dr_Number (rounds_of ?d i)) (w\<lparr>w_calls := Suc (w_calls w)\<rparr>) = (Inr rounds, w')"
    by (auto simp: Round_ListByRoom_def ListRoundsByRoom_def ok_inv cid_def)
  show ?thesis
  proof (rule collect_ok [OF _ k])
    fix row v y v' assume row: "row \<in> set (sort_key dr_Number (rounds_of ?d i))" and v: "w_db v = ?d" and h: "hydrate X row v = (Inr y, v')"
    have "row \<in> set (db_rounds (w_db v))" using row v by (simp add: set_rounds_of)
    from hydrate_ok [OF _ this h] s v show "y = abs_round ?d row \<and> w_db v' = ?d" by simp
  qed simp
qed

lemma sum_list_single:
  fixes f :: "'a \<Rightarrow> int"
  assumes "distinct xs" and "\<And>x. x \<in> set xs \<Longrightarrow> x \<noteq> a \<Longrightarrow> f x = 0" and "f a = 0 \<or> a \<in> set xs"
  shows "(\<Sum>x \<leftarrow> xs. f x) = f a"
proof -
  have "(\<Sum>x \<leftarrow> xs. f x) = sum f (set xs)" using assms(1) by (simp add: sum_list_distinct_conv_sum_set)
  also have "\<dots> = f a"
  proof (cases "a \<in> set xs")
    case True
    then have "sum f (set xs) = f a + sum f (set xs - {a})" by (simp add: sum.remove)
    then show ?thesis using assms(2) by simp
  next
    case False
    then have "sum f (set xs) = 0" using assms(2) by (intro sum.neutral) blast
    with assms(3) False show ?thesis by simp
  qed
  finally show ?thesis .
qed

text \<open>What is at stake in a stored room: the open stakes of its live round.\<close>

definition room_stakes :: "db \<Rightarrow> RoomRow \<Rightarrow> id \<Rightarrow> int" where
  "room_stakes d r p = (case rm_round (abs_room d r) of None \<Rightarrow> 0 | Some rnd \<Rightarrow> open_stakes rnd p)"

lemma room_stakes_sum:
  assumes sch: "schema_ok d" and g: "game_ok d" and r: "r \<in> set (db_rooms d)" and st: "mr_Status r \<noteq> RoomClosed"
  shows "(\<Sum>q \<leftarrow> sort_key dr_Number (rounds_of d (mr_ID r)). open_stakes (abs_round d q) p) = room_stakes d r p"
proof -
  let ?xs = "sort_key dr_Number (rounds_of d (mr_ID r))"
  have dist: "distinct ?xs"
    using sch by (simp add: rounds_of_def schema_ok_def rounds_schema_def distinct_map)
  have none: "open_stakes (abs_round d q) p = 0" if "dr_Status q \<noteq> RoundBetting" for q
    using that by (simp add: open_stakes_def)
  show ?thesis
  proof (cases "rm_round (abs_room d r)")
    case None
    then have n: "\<not> live_round (abs_room d r)" by (simp add: live_round_def)
    have "map (\<lambda>q. open_stakes (abs_round d q) p) ?xs = map (\<lambda>_. 0) ?xs"
      using no_live_betting [OF sch g r n] st none by (intro map_cong refl) (auto simp: set_rounds_of)
    from arg_cong [OF this, of sum_list] show ?thesis by (simp add: room_stakes_def None del: map_eq_conv)
  next
    case (Some rnd)
    then obtain row where cur: "current_row d (mr_ID r) = Some row" and rnd: "rnd = abs_round d row"
      unfolding abs_room_round by blast
    have row: "row \<in> set (db_rounds d)" "dr_RoomID row = mr_ID r" using current_row_mem [OF cur] by auto
    have "(\<Sum>q \<leftarrow> ?xs. open_stakes (abs_round d q) p) = open_stakes (abs_round d row) p"
    proof (rule sum_list_single [OF dist])
      fix q assume q: "q \<in> set ?xs" "q \<noteq> row"
      then have q': "q \<in> set (db_rounds d)" "dr_RoomID q = mr_ID r" by (simp_all add: set_rounds_of)
      have "dr_Status q \<noteq> RoundBetting"
      proof
        assume b: "dr_Status q = RoundBetting"
        then have "dr_Number q = mr_CurrentRound r" using game_okD(3) [OF g] q' r st unfolding order_ok_def by blast
        moreover have "dr_Number row \<le> mr_CurrentRound r" using game_okD(3) [OF g] row r unfolding order_ok_def by blast
        ultimately have "dr_Number q = dr_Number row" using current_row_max [OF cur q'] by simp
        with q(2) round_number_unique [OF sch row(1) q'(1)] q' row show False by simp
      qed
      then show "open_stakes (abs_round d q) p = 0" by (rule none)
    qed (simp add: set_rounds_of row)
    then show ?thesis by (simp add: room_stakes_def Some rnd)
  qed
qed

lemma AbortRoom_tx_exact:
  assumes u: "uuid_canonical X" and run: "AbortRoom_tx X i reason w = (Inr x, w')" and s: "store_ok X (w_db w)"
    and g: "game_ok (w_db w)"
  obtains r now where "x_uuid X i = Some (mr_ID r)" "r \<in> set (db_rooms (w_db w))" "mr_Status r \<noteq> RoomClosed"
    "shifted (room_stakes (w_db w) r) (w_db w) (w_db w')" "db_bets (w_db w') = db_bets (w_db w)"
    "db_rounds (w_db w') = db_rounds (w_db w)" "db_room_players (w_db w') = db_room_players (w_db w)"
    "db_rooms (w_db w') = map (\<lambda>q. if mr_ID q = mr_ID r then q\<lparr>mr_Status := RoomClosed, mr_ClosedAt := Some now\<rparr> else q) (db_rooms (w_db w))"
  using u run s
proof (rule AbortRoom_tx_ok)
  fix r now rounds w1 w2 w3
  assume i: "x_uuid X i = Some (mr_ID r)" and r: "r \<in> set (db_rooms (w_db w))" and st: "mr_Status r \<noteq> RoomClosed"
    and ls: "Round_ListByRoom X (mr_ID r) w1 = (Inr rounds, w2)" and w1: "w_db w1 = w_db w"
    and e: "each (refund_round X now) rounds (w2\<lparr>w_ticks := Suc (w_ticks w2)\<rparr>) = (Inr (), w3)"
    and b: "besides (w_db w3) = besides (w_db w)"
    and w': "w_db w' = upd_room (mr_ID r) (\<lambda>r. r\<lparr>mr_Status := RoomClosed, mr_ClosedAt := Some now\<rparr>) (w_db w3)"
  have sch: "schema_ok (w_db w)" using s by (simp add: store_ok_def)
  have c: "cid X (mr_ID r)" using s r by (auto simp: store_ok_def canonical_rows_def)
  have rounds: "rounds = map (abs_round (w_db w)) (sort_key dr_Number (rounds_of (w_db w) (mr_ID r)))"
    using Round_ListByRoom_ok [OF _ c ls] s w1 by simp
  have w2: "w_db w2 = w_db w" using readingD [OF reading_repos(17) ls] w1 by simp
  have "shifted (\<lambda>p. \<Sum>rnd \<leftarrow> rounds. open_stakes rnd p) (w_db (w2\<lparr>w_ticks := Suc (w_ticks w2)\<rparr>)) (w_db w3)"
  proof (rule each_shifted [OF _ e])
    fix rnd and v v' :: "'a world" assume "rnd \<in> set rounds" and rr: "refund_round X now rnd v = (Inr (), v')"
    then obtain q where q: "rnd = abs_round (w_db w) q" by (auto simp: rounds)
    show "shifted (open_stakes rnd) (w_db v) (w_db v')"
      using dom_bets_canonical [OF s] by (intro refund_round_shifts [OF u rr]) (simp add: q Bets_abs set_round_bets)
  qed
  moreover have "(\<lambda>p. \<Sum>rnd \<leftarrow> rounds. open_stakes rnd p) = room_stakes (w_db w) r"
    using room_stakes_sum [OF sch g r st] by (simp add: rounds fun_eq_iff comp_def)
  ultimately have sh: "shifted (room_stakes (w_db w) r) (w_db w) (w_db w3)" by (simp add: w2)
  have "shifted (\<lambda>_. 0) (w_db w3) (w_db w')" by (rule shifted_same) (simp_all add: w' upd_room_def)
  from shifted_trans [OF sh this] have sh': "shifted (room_stakes (w_db w) r) (w_db w) (w_db w')" by simp
  note t = besides_tables [OF b]
  show thesis by (rule that [OF i r st sh', of now]) (simp_all add: w' upd_room_def t)
qed

end
