(* ===== verification/Cassino_System.thy ===== *)
theory Cassino_System
  imports Game_Settlement
begin

text \<open>
  The use cases together.  Any sequence of requests, served one after the other and failing
  wherever the database, the entropy source, Redis or a commit fails, together with anything
  between them that leaves the database alone (losses of Redis data, reads of the clock, identifiers
  drawn for the audit trail), keeps the wallets reconciled with the ledger and every
  stored room and round well-formed.
\<close>

section \<open>Requests\<close>

datatype request =
    Register_req string string
  | Login_req string string
  | Deposit_req string int64
  | Withdraw_req string int64
  | Balance_req string
  | CreateRoom_req string
  | JoinRoom_req string string
  | ListRooms_req int int
  | RoomState_req string
  | StartRound_req string string
  | PlaceBet_req string string Choice int64
  | SettleRound_req string
  | CloseRoom_req string string string
  | AbortRoom_req string string
  | Recover_req

definition done_with :: "('r, 'e, 'a) prog \<Rightarrow> ('r, 'e, unit) prog" where
  "done_with m = bnd m (\<lambda>_. ret ())"

fun serve :: "'r ext \<Rightarrow> duration \<Rightarrow> duration \<Rightarrow> request \<Rightarrow> ('r, error, unit) prog" where
  "serve X ttl window (Register_req email password) = done_with (RegisterUC X email password)"
| "serve X ttl window (Login_req email password) = done_with (LoginUC X ttl email password)"
| "serve X ttl window (Deposit_req p a) = done_with (Deposit X p a)"
| "serve X ttl window (Withdraw_req p a) = done_with (Withdraw X p a)"
| "serve X ttl window (Balance_req p) = done_with (GetBalance X p)"
| "serve X ttl window (CreateRoom_req p) = done_with (CreateRoomUC X p)"
| "serve X ttl window (JoinRoom_req r p) = done_with (JoinRoomUC X r p)"
| "serve X ttl window (ListRooms_req l off) = done_with (ListOpenRoomsUC X l off)"
| "serve X ttl window (RoomState_req r) = done_with (RoomStateUC X r)"
| "serve X ttl window (StartRound_req r p) = done_with (StartRoundUC X window r p)"
| "serve X ttl window (PlaceBet_req r p c a) = done_with (PlaceBetUC X r p c a)"
| "serve X ttl window (SettleRound_req r) = done_with (SettleRoundUC X r)"
| "serve X ttl window (CloseRoom_req r p reason) = done_with (CloseRoomUC X r p reason)"
| "serve X ttl window (AbortRoom_req r reason) = done_with (AbortRoomUC X r reason)"
| "serve X ttl window Recover_req = done_with (RecoverRoomsUC X)"

inductive api_step :: "'r ext \<Rightarrow> 'r world \<Rightarrow> 'r world \<Rightarrow> bool" for X :: "'r ext" where
  api_serve: "serve X ttl window req w = (res, w') \<Longrightarrow> api_step X w w'"
| api_aside: "w_db w' = w_db w \<Longrightarrow> w_tx w' = w_tx w \<Longrightarrow> api_step X w w'"

definition api_init :: "'r world \<Rightarrow> bool" where
  "api_init w \<longleftrightarrow> w_tx w = NoTx \<and> w_db w = empty_db"

definition system_ok :: "'r ext \<Rightarrow> db \<Rightarrow> bool" where
  "system_ok X d \<longleftrightarrow> wallets_ok d \<and> play_ok X d"

section \<open>Every request keeps the invariant\<close>

lemma preserves_conj: "preserves I m \<Longrightarrow> preserves J m \<Longrightarrow> preserves (\<lambda>d. I d \<and> J d) m"
  unfolding preserves_def by meson

lemma preserves_cong: "preserves I m \<Longrightarrow> J = I \<Longrightarrow> preserves J m"
  by simp

lemma keeps_moves_play:
  assumes u: "uuid_canonical X"
  shows "keeps (play_ok X) (Deposit_tx X i a)" and "keeps (play_ok X) (Withdraw_tx X i a)"
proof -
  show "keeps (play_ok X) (Deposit_tx X i a)"
    by (rule play_okI [OF keeps_moves_store(4)]) (metis Deposit_tx_moves [OF u] moved_game_ok)
  show "keeps (play_ok X) (Withdraw_tx X i a)"
    by (rule play_okI [OF keeps_moves_store(5)]) (metis Withdraw_tx_moves [OF u] moved_game_ok)
qed

lemma game_ok_new_player:
  assumes "game_ok d"
  shows "game_ok (d\<lparr>db_players := ps\<rparr>)"
proof -
  have "abs_room (d\<lparr>db_players := ps\<rparr>) = abs_room d" "abs_round (d\<lparr>db_players := ps\<rparr>) = abs_round d"
    by (rule abs_frame; simp)+
  moreover have "active_rooms (d\<lparr>db_players := ps\<rparr>) = active_rooms d" by (rule active_rooms_frame) simp_all
  ultimately show ?thesis
    using assms by (simp add: game_ok_def rooms_ok_but_def rounds_ok_def order_ok_def one_room_def)
qed

lemma steady_game_Player_Create: "steady game_ok (Player_Create X p)"
  unfolding Player_Create_def
  by (intro steady_bnd steady_on_error steady_basic steady_exec)
     (auto simp: CreatePlayer_def ok_inv intro: game_ok_new_player)

lemma preserves_steady: "steady I m \<Longrightarrow> txfree m \<Longrightarrow> preserves I m"
  unfolding preserves_def steady_def txfree_def by metis

lemma preserves_Player_Create_play:
  assumes "uuid_canonical X"
  shows "preserves (play_ok X) (Player_Create X p)"
proof -
  have "txfree (Player_Create X p)" unfolding Player_Create_def by (intro txfree_rules)
  moreover have "steady (play_ok X) (Player_Create X p)"
    using steady_store_inserts(4) [OF assms] steady_game_Player_Create
    unfolding steady_def play_ok_def by metis
  ultimately show ?thesis by (intro preserves_steady)
qed

lemma preserves_done [pres_rules]: "preserves I m \<Longrightarrow> preserves I (done_with m)"
  unfolding done_with_def by (intro pres_rules)

lemma RegisterUC_preserves_play: "uuid_canonical X \<Longrightarrow> preserves (play_ok X) (RegisterUC X email password)"
  unfolding RegisterUC_def
  by (intro pres_rules preserves_Player_Create_play preserves_off_db [OF off_db_Hash])

lemma preserves_queries:
  "preserves I (LoginUC X ttl email password)" "preserves I (GetBalance X p)"
  unfolding LoginUC_def Issue_def GetBalance_def Let_def by (intro pres_rules)+

lemma serve_preserves_wallets:
  assumes u: "uuid_canonical X"
  shows "preserves wallets_ok (serve X ttl window req)"
  by (cases req)
     (auto intro!: preserves_done RegisterUC_preserves_wallets preserves_queries Deposit_preserves_wallets
        Withdraw_preserves_wallets preserves_CreateRoomUC preserves_JoinRoomUC preserves_ListOpenRoomsUC preserves_RoomStateUC
        preserves_StartRoundUC preserves_PlaceBetUC preserves_SettleRoundUC preserves_CloseRoomUC preserves_AbortRoomUC
        preserves_RecoverRoomsUC keeps_CreateRoom_tx keeps_JoinRoom_tx keeps_CloseRoom_tx keeps_StartRound_tx
        keeps_PlaceBet_tx keeps_SettleRound_tx keeps_AbortRoom_tx u)

lemma wallet_preserves_play:
  assumes "uuid_canonical X"
  shows "preserves (play_ok X) (Deposit X i a)" "preserves (play_ok X) (Withdraw X i a)"
  unfolding Deposit_def Withdraw_def by (intro pres_rules preserves_keeps keeps_moves_play [OF assms])+

lemma serve_preserves_play:
  assumes u: "uuid_canonical X"
  shows "preserves (play_ok X) (serve X ttl window req)"
  by (cases req)
     (auto intro!: preserves_done RegisterUC_preserves_play preserves_queries wallet_preserves_play
        preserves_CreateRoomUC preserves_JoinRoomUC preserves_ListOpenRoomsUC preserves_RoomStateUC
        preserves_StartRoundUC preserves_PlaceBetUC preserves_SettleRoundUC preserves_CloseRoomUC preserves_AbortRoomUC
        preserves_RecoverRoomsUC keeps_CreateRoom_play keeps_JoinRoom_play keeps_CloseRoom_play keeps_StartRound_play
        keeps_PlaceBet_play keeps_SettleRound_play keeps_AbortRoom_play u)

lemma system_ok_empty: "system_ok X empty_db"
proof -
  have "wallets_ok empty_db"
    unfolding wallets_ok_def by (rule reconcilesI) (simp_all add: empty_db_def balance_of_def ledger_of_def net_def)
  moreover have "store_ok X empty_db" using schema_empty by (simp add: store_ok_def canonical_rows_def empty_db_def)
  moreover have "game_ok empty_db"
    by (simp add: game_ok_def rooms_ok_but_def rounds_ok_def order_ok_def one_room_def active_rooms_def empty_db_def)
  ultimately show ?thesis by (simp add: system_ok_def play_ok_def)
qed

interpretation casino: step_invariant api_init "api_step X"
    "\<lambda>w. uuid_canonical X \<longrightarrow> w_tx w = NoTx \<and> system_ok X (w_db w)" for X :: "'r ext"
proof unfold_locales
  fix w :: "'r world" assume "api_init w"
  then show "uuid_canonical X \<longrightarrow> w_tx w = NoTx \<and> system_ok X (w_db w)" by (simp add: api_init_def system_ok_empty)
next
  fix w w' :: "'r world"
  assume inv: "uuid_canonical X \<longrightarrow> w_tx w = NoTx \<and> system_ok X (w_db w)" and step: "api_step X w w'"
  show "uuid_canonical X \<longrightarrow> w_tx w' = NoTx \<and> system_ok X (w_db w')"
  proof
    assume u: "uuid_canonical X"
    with inv have w: "w_tx w = NoTx" "wallets_ok (w_db w)" "play_ok X (w_db w)" by (simp_all add: system_ok_def)
    from step show "w_tx w' = NoTx \<and> system_ok X (w_db w')"
    proof (cases rule: api_step.cases)
      case (api_serve ttl window req res)
      then show ?thesis
        using preservesD [OF serve_preserves_wallets [OF u] api_serve w(1,2)]
          preservesD [OF serve_preserves_play [OF u] api_serve w(1,3)] by (simp add: system_ok_def)
    next
      case api_aside
      then show ?thesis using w by (simp add: system_ok_def)
    qed
  qed
qed

section \<open>Atomicity of every request\<close>

lemma atomic_done: "atomic X m \<Longrightarrow> atomic X (done_with m)"
  unfolding done_with_def by (intro atomic_bnd_nofail nofail_rules)

lemma atomic_reading: "reading m \<Longrightarrow> atomic X m"
  unfolding atomic_def reading_def by metis

lemma atomic_exec: "atomic X (exec X q)"
  unfolding atomic_def using exec_fail_db by metis

lemma atomic_on_error: "atomic X m \<Longrightarrow> atomic X (on_error f m)"
  unfolding atomic_def on_error_run by (metis sum.inject(1) sum.simps(4))

lemma off_db_toUUID: "off_db (toUUID X e s)"
  unfolding toUUID_def by (cases "x_uuid X s") (auto intro: off_db_rules)

lemma atomic_RegisterUC: "atomic X (RegisterUC X email password)"
  unfolding RegisterUC_def Player_Create_def
  by (intro atomic_if atomic_calls atomic_bnd_off_db off_db_rules off_db_Hash atomic_bnd_nofail [OF _ nofail_rules(1)]
      atomic_on_error atomic_exec off_db_toUUID)

lemma nofail_recover_loop: "nofail (recover_loop X ids out)"
proof (induction ids arbitrary: out)
  case (Cons i ids)
  have "nofail (case r of Inl e \<Rightarrow> if e = GameErr ErrRoomClosed then recover_loop X ids out
         else recover_loop X ids (out\<lparr>ro_Failures := ro_Failures out + 1\<rparr>)
     | Inr _ \<Rightarrow> recover_loop X ids (out\<lparr>ro_RoomsClosed := ro_RoomsClosed out + 1\<rparr>))" for r
    using Cons by (cases r) auto
  then show ?case unfolding recover_loop.simps by (intro nofail_bnd nofail_rules)
qed (simp add: nofail_rules)

lemma atomic_RecoverRoomsUC: "atomic X (RecoverRoomsUC X)"
  unfolding RecoverRoomsUC_def
  by (intro atomic_bnd_nofail atomic_reading reading_repos nofail_recover_loop)

lemma reading_queries:
  "reading (LoginUC X ttl email password)" "reading (GetBalance X p)" "reading (RoomStateUC X r)"
  "reading (ListOpenRoomsUC X l off)"
  unfolding LoginUC_def Issue_def GetBalance_def RoomStateUC_def ListOpenRoomsUC_def Let_def
  by (intro reading_rules)+

lemma serve_atomic: "atomic X (serve X ttl window req)"
  by (cases req)
     (auto intro!: atomic_done atomic_RegisterUC reading_queries [THEN atomic_reading] Deposit_atomic Withdraw_atomic
        atomic_CreateRoomUC atomic_JoinRoomUC atomic_game atomic_RecoverRoomsUC)

section \<open>The live round of a stored room\<close>

lemma live_row_unique:
  assumes sch: "schema_ok d" and g: "game_ok d" and r: "r \<in> set (db_rooms d)" "mr_Status r \<noteq> RoomClosed"
    and row: "row \<in> set (db_rounds d)" "dr_RoomID row = mr_ID r" "dr_Status row = RoundBetting"
  shows "current_row d (mr_ID r) = Some row"
proof (rule current_rowI [OF sch row(1,2)])
  fix q assume "q \<in> set (db_rounds d)" "dr_RoomID q = mr_ID r"
  then have "dr_Number q \<le> mr_CurrentRound r" using game_okD(3) [OF g] r unfolding order_ok_def by blast
  moreover have "dr_Number row = mr_CurrentRound r" using game_okD(3) [OF g] r row unfolding order_ok_def by blast
  ultimately show "dr_Number q \<le> dr_Number row" by simp
qed

section \<open>A sample run\<close>

text \<open>The world after some requests to the sample environment, started on an empty database.\<close>

definition after :: "request list \<Rightarrow> redis_state world" where
  "after reqs = fold (\<lambda>req w. snd (serve sample_ext Hour (15 * Second) req w)) reqs (sample_world empty_db)"

lemma after_reach: "reach api_init (api_step sample_ext) (after reqs)"
proof (induction reqs rule: rev_induct)
  case Nil
  then show ?case by (intro reach_init) (simp add: after_def api_init_def)
next
  case (snoc req reqs)
  obtain res w' where "serve sample_ext Hour (15 * Second) req (after reqs) = (res, w')" by fastforce
  then have "api_step sample_ext (after reqs) (after (reqs @ [req]))"
    by (intro api_serve) (simp add: after_def)
  with snoc show ?case by (rule reach_step)
qed

lemma after_ok: "w_tx (after reqs) = NoTx" "play_ok sample_ext (w_db (after reqs))"
  using casino.reach_inv [OF after_reach] sample_uuid by (simp_all add: system_ok_def)

text \<open>One player opens an account, deposits, opens a table, starts a round and bets on odd.\<close>

definition betting_table :: "request list" where
  "betting_table = [Register_req ''a@b.c'' ''password'', Deposit_req ''i'' 1000, CreateRoom_req ''i'',
     StartRound_req ''iii'' ''i'', PlaceBet_req ''iii'' ''i'' ChoiceOdd 100]"

end
