(* ===== verification/Sample_Run.thy ===== *)
theory Sample_Run
  imports Cassino_System
begin

text \<open>
  The worlds of the sample run, written out: one player with an account and money, an open table, its first round
  and a bet on odd.  Each is checked once against the requests that lead to it, so that the witnesses start from the
  values.
\<close>

definition sample_room :: "int \<Rightarrow> payload" where
  "sample_room n = JsonRoom \<lparr>cr_ID = ''iii'', cr_OwnerID = ''i'', cr_Status = ''open'', cr_CurrentRound = n, cr_MaxRounds = 10,
     cr_PlayerCount = 1, cr_MaxPlayers = 6, cr_CreatedAt = 2000000\<rparr>"

definition sample_round :: RoundRow where
  "sample_round = \<lparr>dr_ID = ''iiii'', dr_RoomID = ''iii'', dr_Number = 1, dr_BettingOpensAt = 3000000, dr_BettingClosesAt = 18000000,
     dr_Die1 = None, dr_Die2 = None, dr_Outcome = None, dr_Status = ''betting'', dr_CreatedAt = 15, dr_SettledAt = None\<rparr>"

definition sample_bet :: BetRow where
  "sample_bet = \<lparr>br_ID = ''iiiii'', br_RoundID = ''iiii'', br_PlayerID = ''i'', br_Choice = ''odd'', br_Amount = 100, br_Won = None,
     br_Payout = None, br_PlacedAt = 4000000, br_SettledAt = None\<rparr>"

definition sample_deposit :: TransactionRow where
  "sample_deposit = \<lparr>lr_ID = ''ii'', lr_PlayerID = ''i'', lr_Type = ''deposit'', lr_Amount = 1000, lr_RoundID = None, lr_CreatedAt = 1000000\<rparr>"

definition sample_stake :: TransactionRow where
  "sample_stake = \<lparr>lr_ID = ''iiiiii'', lr_PlayerID = ''i'', lr_Type = ''bet'', lr_Amount = 100, lr_RoundID = Some ''iiii'',
     lr_CreatedAt = 4000000\<rparr>"

definition sample_table :: "int64 \<Rightarrow> RoundRow list \<Rightarrow> BetRow list \<Rightarrow> TransactionRow list \<Rightarrow> nat \<Rightarrow> nat \<Rightarrow> nat \<Rightarrow> redis_state world" where
  "sample_table balance rounds bets ledger calls ids ticks =
     \<lparr>w_db =
        \<lparr>db_players = [\<lparr>pr_ID = ''i'', pr_Email = ''a@b.c'', pr_PasswordHash = ''#password'', pr_Balance = balance, pr_CreatedAt = 0\<rparr>],
         db_rooms = [\<lparr>mr_ID = ''iii'', mr_OwnerID = ''i'', mr_Status = ''open'', mr_MaxRounds = 10, mr_MaxPlayers = 6,
           mr_CurrentRound = int (length rounds), mr_CreatedAt = 2000000, mr_ClosedAt = None\<rparr>],
         db_room_players = [\<lparr>sr_RoomID = ''iii'', sr_PlayerID = ''i'', sr_JoinedAt = 2000000\<rparr>],
         db_rounds = rounds, db_bets = bets, db_transactions = ledger\<rparr>,
      w_tx = NoTx, w_calls = calls, w_ids = ids, w_ticks = ticks, w_rolls = 0, w_salts = 1,
      w_redis =
        \<lparr>rs_strings = [(''cassino:active_player:i'', Text ''iii''), (''cassino:room:iii'', sample_room (int (length rounds)))],
         rs_hashes = [(''cassino:rooms:open'', [(''iii'', sample_room (int (length rounds)))])]\<rparr>\<rparr>"

definition table_open :: "redis_state world" where
  "table_open = sample_table 1000 [] [] [sample_deposit] 11 3 3"

definition table_started :: "redis_state world" where
  "table_started = sample_table 1000 [sample_round] [] [sample_deposit] 18 4 4"

definition table_betting :: "redis_state world" where
  "table_betting = sample_table 900 [sample_round] [sample_bet] [sample_deposit, sample_stake] 28 6 5"

lemma after_snoc: "after (reqs @ [req]) = snd (serve sample_ext Hour (15 * Second) req (after reqs))"
  by (simp add: after_def)

lemma after_opened: "after (take 3 betting_table) = table_open"
  by code_simp

lemma after_started: "after (take 4 betting_table) = table_started"
proof -
  have "take 4 betting_table = take 3 betting_table @ [StartRound_req ''iii'' ''i'']" by (simp add: betting_table_def)
  then show ?thesis unfolding after_snoc after_opened by (simp only:) code_simp
qed

lemma after_bet: "after betting_table = table_betting"
proof -
  have "betting_table = take 4 betting_table @ [PlaceBet_req ''iii'' ''i'' ChoiceOdd 100]" by (simp add: betting_table_def)
  then have "after betting_table = snd (serve sample_ext Hour (15 * Second) (PlaceBet_req ''iii'' ''i'' ChoiceOdd 100) table_started)"
    using after_snoc after_started by metis
  then show ?thesis by (simp only:) code_simp
qed

lemmas after_table = after_opened after_started after_bet

end
