(* ===== verification/Game_Recovery.thy ===== *)
theory Game_Recovery
  imports Sample_Run
begin

text \<open>
  Aborting a room from the outside, and the startup pass of \<open>recover.go\<close> that aborts every room a
  previous process left active.
\<close>

section \<open>From a use case to its transaction\<close>

lemma off_db_finalizeRoomCache: "off_db (finalizeRoomCache X rm s c ms)"
  unfolding finalizeRoomCache_def
  by (intro off_db_if off_db_bnd off_db_each off_db_attempt off_db_stores off_db_ret)

lemma tx_then_cache:
  assumes "bnd (WithinTx X fn) (\<lambda>(out, s). bnd (k out s) (\<lambda>_. ret out)) w = (Inr out, w')" and "w_tx w = NoTx"
    and "\<And>out s. off_db (k out s)"
  obtains s w2 where "fn (w\<lparr>w_calls := Suc (w_calls w), w_tx := InTx\<rparr>) = (Inr (out, s), w2)" "w_db w' = w_db w2"
    "w_tx w' = NoTx"
proof -
  from assms(1) obtain s w1 u where t: "WithinTx X fn w = (Inr (out, s), w1)" and c: "k out s w1 = (Inr u, w')"
    by (auto simp: run_ok)
  from t assms(2) obtain w2 where f: "fn (w\<lparr>w_calls := Suc (w_calls w), w_tx := InTx\<rparr>) = (Inr (out, s), w2)"
    and w1: "w1 = w2\<lparr>w_calls := Suc (w_calls w2), w_tx := NoTx\<rparr>" by (rule WithinTx_ok)
  from off_dbD [OF assms(3) c] w1 have "w_db w' = w_db w2" "w_tx w' = NoTx" by simp_all
  with f show ?thesis by (rule that)
qed

text \<open>An abort from the outside: the transaction it ran, and the room row it closed.\<close>

lemma AbortRoomUC_ok:
  assumes u: "uuid_canonical X" and ok: "play_ok X (w_db w)" and tx: "w_tx w = NoTx"
    and run: "AbortRoomUC X i reason w = (Inr out, w')"
  obtains r now where "x_uuid X i = Some (mr_ID r)" "r \<in> set (db_rooms (w_db w))" "mr_Status r \<noteq> RoomClosed"
    "shifted (room_stakes (w_db w) r) (w_db w) (w_db w')" "db_bets (w_db w') = db_bets (w_db w)"
    "db_rounds (w_db w') = db_rounds (w_db w)" "db_room_players (w_db w') = db_room_players (w_db w)"
    "db_rooms (w_db w') = map (\<lambda>q. if mr_ID q = mr_ID r then q\<lparr>mr_Status := RoomClosed, mr_ClosedAt := Some now\<rparr> else q) (db_rooms (w_db w))"
    "w_tx w' = NoTx"
proof -
  let ?w = "w\<lparr>w_calls := Suc (w_calls w), w_tx := InTx\<rparr>" and ?re = "if reason = [] then ReasonShutdown else reason"
  from run have "bnd (WithinTx X (AbortRoom_tx X i ?re)) (\<lambda>(out, summary).
      bnd (finalizeRoomCache X (co_RoomID out) summary True (co_Members out)) (\<lambda>_. ret out)) w = (Inr out, w')"
    by (auto simp: AbortRoomUC_def Let_def fail_def split: if_splits)
  from this tx off_db_finalizeRoomCache obtain sm w2 where t: "AbortRoom_tx X i ?re ?w = (Inr (out, sm), w2)"
    and w2: "w_db w' = w_db w2" "w_tx w' = NoTx"
    by (rule tx_then_cache)
  have s: "store_ok X (w_db ?w)" and g: "game_ok (w_db ?w)" using ok by (simp_all add: play_ok_def)
  from u t s g show ?thesis
  proof (rule AbortRoom_tx_exact)
    fix r now
    assume "x_uuid X i = Some (mr_ID r)" "r \<in> set (db_rooms (w_db ?w))" "mr_Status r \<noteq> RoomClosed"
      "shifted (room_stakes (w_db ?w) r) (w_db ?w) (w_db w2)" "db_bets (w_db w2) = db_bets (w_db ?w)"
      "db_rounds (w_db w2) = db_rounds (w_db ?w)" "db_room_players (w_db w2) = db_room_players (w_db ?w)"
      "db_rooms (w_db w2) = map (\<lambda>q. if mr_ID q = mr_ID r then q\<lparr>mr_Status := RoomClosed, mr_ClosedAt := Some now\<rparr> else q) (db_rooms (w_db ?w))"
    then show ?thesis by (intro that [of r now]) (simp_all add: w2)
  qed
qed

section \<open>Recovery\<close>

definition active_ids :: "db \<Rightarrow> id set" where
  "active_ids d = mr_ID ` {r \<in> set (db_rooms d). mr_Status r \<noteq> RoomClosed}"

lemma keeps_AbortRoom_active:
  assumes u: "uuid_canonical X"
  shows "keeps (\<lambda>d. play_ok X d \<and> active_ids d \<subseteq> A) (AbortRoom_tx X i reason)"
proof (rule keepsI)
  fix w x w' assume run: "AbortRoom_tx X i reason w = (Inr x, w')" and ok: "play_ok X (w_db w) \<and> active_ids (w_db w) \<subseteq> A"
  then have s: "store_ok X (w_db w)" and g: "game_ok (w_db w)" by (simp_all add: play_ok_def)
  from u run s g have "active_ids (w_db w') \<subseteq> active_ids (w_db w)"
    by (rule AbortRoom_tx_exact) (auto simp: active_ids_def split: if_splits)
  with keepsD [OF keeps_AbortRoom_play [OF u] run] ok show "play_ok X (w_db w') \<and> active_ids (w_db w') \<subseteq> A" by blast
qed

lemma recover_attempt:
  assumes u: "uuid_canonical X" and ok: "play_ok X (w_db w)" and tx: "w_tx w = NoTx" and c: "cid X i"
    and run: "AbortRoomUC X i reason w = (res, w')"
  shows "play_ok X (w_db w')" and "w_tx w' = NoTx" and "active_ids (w_db w') \<subseteq> active_ids (w_db w)"
    and "is_ok res \<Longrightarrow> i \<notin> active_ids (w_db w')"
proof -
  show "play_ok X (w_db w')" "w_tx w' = NoTx"
    using preservesD [OF preserves_AbortRoomUC [OF keeps_AbortRoom_play [OF u]] run tx ok] by simp_all
  have sub: "preserves (\<lambda>d. play_ok X d \<and> active_ids d \<subseteq> active_ids (w_db w)) (AbortRoomUC X i reason)"
    by (intro preserves_AbortRoomUC keeps_AbortRoom_active [OF u])
  show "active_ids (w_db w') \<subseteq> active_ids (w_db w)"
    using preservesD [OF sub run tx] ok by simp
  assume "is_ok res"
  then obtain out where "AbortRoomUC X i reason w = (Inr out, w')" using run by (auto simp: is_ok_iff)
  with u ok tx show "i \<notin> active_ids (w_db w')"
    by (elim AbortRoomUC_ok) (use c in \<open>auto simp: active_ids_def cid_def split: if_splits\<close>)
qed

lemma recover_loop_effect:
  assumes u: "uuid_canonical X"
  shows "recover_loop X ids out w = (Inr out', w') \<Longrightarrow> play_ok X (w_db w) \<Longrightarrow> w_tx w = NoTx \<Longrightarrow> \<forall>i \<in> set ids. cid X i \<Longrightarrow>
    active_ids (w_db w') \<subseteq> active_ids (w_db w) \<and> ro_RoomsFound out' = ro_RoomsFound out \<and>
    ro_RoomsClosed out' + ro_Failures out' \<le> ro_RoomsClosed out + ro_Failures out + int (length ids) \<and>
    ro_Failures out \<le> ro_Failures out' \<and>
    (ro_RoomsClosed out' = ro_RoomsClosed out + int (length ids) \<longrightarrow> active_ids (w_db w') \<inter> set ids = {})"
proof (induction ids arbitrary: out w)
  case Nil
  then show ?case by (simp add: ret_ok)
next
  case (Cons i ids)
  obtain res w1 where a: "AbortRoomUC X i ReasonRecovered w = (res, w1)" by fastforce
  define out1 where "out1 = (case res of Inl e \<Rightarrow> if e = GameErr ErrRoomClosed then out
      else out\<lparr>ro_Failures := ro_Failures out + 1\<rparr> | Inr _ \<Rightarrow> out\<lparr>ro_RoomsClosed := ro_RoomsClosed out + 1\<rparr>)"
  have t: "recover_loop X ids out1 w1 = (Inr out', w')"
    using Cons.prems(1) a by (auto simp: bnd_ok attempt_ok out1_def split: sum.splits if_splits)
  have c: "cid X i" using Cons.prems(4) by simp
  note h = recover_attempt [OF u Cons.prems(2,3) c a]
  from Cons.IH [OF t h(1,2)] Cons.prems(4) have ih: "active_ids (w_db w') \<subseteq> active_ids (w_db w1)"
    "ro_RoomsFound out' = ro_RoomsFound out1"
    "ro_RoomsClosed out' + ro_Failures out' \<le> ro_RoomsClosed out1 + ro_Failures out1 + int (length ids)"
    "ro_Failures out1 \<le> ro_Failures out'"
    "ro_RoomsClosed out' = ro_RoomsClosed out1 + int (length ids) \<longrightarrow> active_ids (w_db w') \<inter> set ids = {}" by simp_all
  show ?case
  proof (cases res)
    case (Inl e)
    then have "ro_RoomsClosed out1 = ro_RoomsClosed out" "ro_Failures out1 \<le> ro_Failures out + 1"
      "ro_RoomsFound out1 = ro_RoomsFound out" "ro_Failures out \<le> ro_Failures out1" by (simp_all add: out1_def)
    with ih h(3) show ?thesis by auto
  next
    case (Inr x)
    then have o: "ro_RoomsClosed out1 = ro_RoomsClosed out + 1" "ro_Failures out1 = ro_Failures out"
      "ro_RoomsFound out1 = ro_RoomsFound out" by (simp_all add: out1_def)
    have "i \<notin> active_ids (w_db w')" using h(4) ih(1) Inr by auto
    with ih h(3) o show ?thesis by auto
  qed
qed

lemma RecoverRooms_effect:
  assumes u: "uuid_canonical X" and ok: "play_ok X (w_db w)" and tx: "w_tx w = NoTx"
    and run: "RecoverRoomsUC X w = (Inr out, w')"
  shows "0 \<le> ro_Failures out" and "ro_RoomsClosed out + ro_Failures out \<le> ro_RoomsFound out"
    and "ro_RoomsClosed out = ro_RoomsFound out \<Longrightarrow> active_ids (w_db w') = {}"
proof -
  from run obtain ids w1 where l: "ListActiveRoomIDs X w = (Inr ids, w1)"
    and k: "recover_loop X ids \<lparr>ro_RoomsFound = int (length ids), ro_RoomsClosed = 0, ro_Failures = 0\<rparr> w1 = (Inr out, w')"
    unfolding RecoverRoomsUC_def run_ok by blast
  have ids: "set ids = active_ids (w_db w)"
    using l by (auto simp: ListActiveRoomIDs_def ListActiveRoomIDs_sql_def ok_inv active_ids_def RoomClosed_def)
  have w1: "w_db w1 = w_db w" "w_tx w1 = NoTx"
    using l tx by (auto simp: ListActiveRoomIDs_def ListActiveRoomIDs_sql_def ok_inv)
  have "\<forall>i \<in> set ids. cid X i"
    using ok by (auto simp: ids active_ids_def play_ok_def store_ok_def canonical_rows_def)
  from recover_loop_effect [OF u k _ w1(2) this] ok w1 have e:
    "active_ids (w_db w') \<subseteq> active_ids (w_db w)" "ro_RoomsFound out = int (length ids)"
    "ro_RoomsClosed out + ro_Failures out \<le> int (length ids)" "0 \<le> ro_Failures out"
    "ro_RoomsClosed out = int (length ids) \<longrightarrow> active_ids (w_db w') \<inter> set ids = {}" by simp_all
  from e show "0 \<le> ro_Failures out" "ro_RoomsClosed out + ro_Failures out \<le> ro_RoomsFound out" by simp_all
  show "active_ids (w_db w') = {}" if "ro_RoomsClosed out = ro_RoomsFound out" using e ids that by auto
qed



end
