(* ===== verification/Engine_Loops.thy ===== *)
theory Engine_Loops
  imports Game_Engine
begin

text \<open>
  The structure of the round engine: which loops exist, that a room never has two running
  ones, that a loop is live exactly when its alarm is armed, and that a stopped engine drains.
\<close>

section \<open>What an operation of a loop touches\<close>

text \<open>Only the loop itself, and of it neither its room, its quit channel nor its phase.\<close>

definition touches :: "nat \<Rightarrow> 'r Engine \<Rightarrow> 'r Engine \<Rightarrow> bool" where
  "touches l e e' \<longleftrightarrow> en_loops e' = en_loops e \<and> en_stopped e' = en_stopped e \<and> en_callers e' = en_callers e \<and>
     length (en_heap e') = length (en_heap e) \<and> (\<forall>k. k \<noteq> l \<longrightarrow> en_heap e' ! k = en_heap e ! k) \<and>
     (l < length (en_heap e) \<longrightarrow> rl_roomID (en_heap e' ! l) = rl_roomID (en_heap e ! l) \<and>
        rl_quit (en_heap e' ! l) = rl_quit (en_heap e ! l) \<and> rl_phase (en_heap e' ! l) = rl_phase (en_heap e ! l))"

named_theorems touch_rules \<open>closure of touches under the operations of a loop\<close>

lemma heap_set_loop [simp]: "en_heap (set_loop l f e) = (en_heap e)[l := f (en_heap e ! l)]"
  by (simp add: set_loop_def)

lemma heap_notify [simp]: "en_heap (notify n e) = en_heap e" "en_heap (log_error g e) = en_heap e"
  by (simp_all add: notify_def log_error_def)

lemma in_world_heap: "in_world m e = (r, e') \<Longrightarrow> en_heap e' = en_heap e"
  by (auto simp: in_world_def split: prod.splits)

lemma touches_refl [touch_rules]: "touches l e e"
  by (simp add: touches_def)

lemma touches_trans: "touches l e e1 \<Longrightarrow> touches l e1 e2 \<Longrightarrow> touches l e e2"
  by (auto simp: touches_def)

lemma touches_upd [touch_rules]:
  "touches l e e1 \<Longrightarrow> touches l e (set_loop l (\<lambda>x. x\<lparr>rl_live := b\<rparr>) e1)"
  "touches l e e1 \<Longrightarrow> touches l e (set_loop l (\<lambda>x. x\<lparr>rl_timer := t\<rparr>) e1)"
  "touches l e e1 \<Longrightarrow> touches l e (set_loop l (\<lambda>x. x\<lparr>rl_timer := t, rl_live := b\<rparr>) e1)"
  "touches l e e1 \<Longrightarrow> touches l e (disarm l e1)"
  "touches l e e1 \<Longrightarrow> touches l e (notify n e1)" "touches l e e1 \<Longrightarrow> touches l e (log_error g e1)"
  by (auto simp: touches_def notify_def log_error_def set_loop_def disarm_def nth_list_update)

lemma touches_in_world: "touches l e e1 \<Longrightarrow> in_world m e1 = (r, e2) \<Longrightarrow> touches l e e2"
  by (auto simp: in_world_def touches_def split: prod.splits)

lemma touches_if [touch_rules]: "touches l e e1 \<Longrightarrow> touches l e e2 \<Longrightarrow> touches l e (if c then e1 else e2)"
  by simp

text \<open>The cases of the operations, with the call to the use case named.\<close>

lemma abort_cases:
  obtains e1 err where "in_world (AbortRoomUC X (rl_roomID (en_heap e ! l)) reason) e = (Inl err, e1)"
      "abort X l reason e = (if err \<noteq> GameErr ErrRoomClosed then log_error (FailedToAbort (rl_roomID (en_heap e ! l)) reason err) e1 else e1)"
  | e1 out where "in_world (AbortRoomUC X (rl_roomID (en_heap e ! l)) reason) e = (Inr out, e1)"
      "abort X l reason e = notify (NotifyRoomClosed out) (set_loop l (\<lambda>x. x\<lparr>rl_live := False\<rparr>) e1)"
  by (cases "in_world (AbortRoomUC X (rl_roomID (en_heap e ! l)) reason) e"; cases "fst (in_world (AbortRoomUC X (rl_roomID (en_heap e ! l)) reason) e)")
     (auto simp: abort_def Let_def)

lemma settle_cases:
  assumes "settle X l e = (c, e')"
  obtains (failed) e1 err where "in_world (SettleRoundUC X (rl_roomID (en_heap e ! l))) e = (Inl err, e1)"
      "err = GameErr ErrNoActiveRound \<or> err = GameErr ErrRoundAlreadySettled \<or> err = GameErr ErrRoomClosed \<or> err = GameErr ErrRoomNotFound"
      "e' = set_loop l (\<lambda>x. x\<lparr>rl_live := False\<rparr>) e1"
  | (aborted) e1 err where "in_world (SettleRoundUC X (rl_roomID (en_heap e ! l))) e = (Inl err, e1)" "c"
      "e' = abort X l ReasonSettlementFailed (log_error (SettlementFailed (rl_roomID (en_heap e ! l)) err) (set_loop l (\<lambda>x. x\<lparr>rl_live := False\<rparr>) e1))"
  | (settled) e1 out where "in_world (SettleRoundUC X (rl_roomID (en_heap e ! l))) e = (Inr out, e1)" "c = se_RoomClosed out"
      "e' = notify (NotifyRoundSettled out) (set_loop l (\<lambda>x. x\<lparr>rl_live := False\<rparr>) e1)"
  using assms
  by (cases "in_world (SettleRoundUC X (rl_roomID (en_heap e ! l))) e"; cases "fst (in_world (SettleRoundUC X (rl_roomID (en_heap e ! l))) e)")
     (auto simp: settle_def Let_def split: if_splits)

lemma abort_touches [touch_rules]: "touches l e e1 \<Longrightarrow> touches l e (abort X l reason e1)"
  by (rule abort_cases [of X e1 l reason]) (auto intro: touch_rules touches_in_world)

lemma settle_touches: "touches l e e1 \<Longrightarrow> settle X l e1 = (c, e') \<Longrightarrow> touches l e e'"
  by (erule settle_cases) (auto intro!: touch_rules intro: touches_in_world)

lemma arm_touches [touch_rules]:
  assumes "touches l e e1"
  shows "touches l e (arm X l t e1)"
proof -
  obtain now e2 where p: "in_world (Now X) (disarm l e1) = (now, e2)" by fastforce
  have "touches l e e2" by (rule touches_in_world [OF _ p]) (intro touch_rules assms)
  with p show ?thesis by (simp add: arm_def Let_def touch_rules)
qed

lemma handle_touches: "handle X window l cmd e = (reply, ended, e') \<Longrightarrow> touches l e e'"
  by (cases cmd)
     (auto split: prod.splits sum.splits if_splits intro!: touch_rules intro: touches_in_world [OF touches_refl])

section \<open>Live exactly when armed\<close>

definition agrees :: "roomLoop \<Rightarrow> bool" where
  "agrees x \<longleftrightarrow> (rl_live x \<longleftrightarrow> rl_timer x \<noteq> None)"

lemma abort_timer:
  assumes "l < length (en_heap e)"
  shows "rl_timer (en_heap (abort X l reason e) ! l) = rl_timer (en_heap e ! l)"
    "rl_live (en_heap (abort X l reason e) ! l) \<Longrightarrow> rl_live (en_heap e ! l)"
  using assms by (rule_tac [!] abort_cases [of X e l reason]) (auto dest: in_world_heap split: if_splits)

lemma settle_not_live:
  assumes "settle X l e = (c, e')" and l: "l < length (en_heap e)"
  shows "\<not> rl_live (en_heap e' ! l) \<and> rl_timer (en_heap e' ! l) = rl_timer (en_heap e ! l)"
  using assms(1)
proof (cases rule: settle_cases)
  case (aborted e1 err)
  let ?e = "log_error (SettlementFailed (rl_roomID (en_heap e ! l)) err) (set_loop l (\<lambda>x. x\<lparr>rl_live := False\<rparr>) e1)"
  have "l < length (en_heap ?e)" using l in_world_heap [OF aborted(1)] by simp
  from abort_timer [OF this, of X ReasonSettlementFailed] show ?thesis
    using l in_world_heap [OF aborted(1)] aborted(3) by auto
qed (use l in \<open>auto dest: in_world_heap\<close>)

lemma arm_agrees: "l < length (en_heap e) \<Longrightarrow> agrees (en_heap (arm X l t e) ! l)"
  by (simp add: arm_def disarm_def Let_def in_world_def agrees_def split: prod.splits)

lemma handle_agrees:
  assumes "handle X window l cmd e = (reply, ended, e')" and "l < length (en_heap e)" and "agrees (en_heap e ! l)"
  shows "agrees (en_heap e' ! l)"
  using assms
  by (cases cmd) (auto split: prod.splits sum.splits if_splits dest: in_world_heap intro!: arm_agrees, metis in_world_heap)

section \<open>The structural invariant\<close>

definition running :: "roomLoop \<Rightarrow> bool" where
  "running x \<longleftrightarrow> rl_phase x = Selecting \<or> rl_phase x = Leaving"

definition loops_ok :: "'r Engine \<Rightarrow> bool" where
  "loops_ok e \<longleftrightarrow>
     (\<forall>l < length (en_heap e). running (en_heap e ! l) \<longrightarrow> map_of (en_loops e) (rl_roomID (en_heap e ! l)) = Some l) \<and>
     (\<forall>r l. map_of (en_loops e) r = Some l \<longrightarrow> l < length (en_heap e) \<and> rl_roomID (en_heap e ! l) = r \<and> running (en_heap e ! l)) \<and>
     (\<forall>l < length (en_heap e). rl_phase (en_heap e ! l) = Selecting \<longrightarrow> agrees (en_heap e ! l)) \<and>
     (\<forall>l < length (en_heap e). \<not> running (en_heap e ! l) \<longrightarrow> rl_timer (en_heap e ! l) = None) \<and>
     (en_stopped e \<longrightarrow> (\<forall>l < length (en_heap e). rl_phase (en_heap e ! l) = Selecting \<longrightarrow> rl_quit (en_heap e ! l))) \<and>
     (\<forall>c \<in> set (en_callers e). ca_state c = Sending \<longrightarrow> ca_loop c < length (en_heap e))"

lemma loops_okD:
  assumes "loops_ok e"
  shows "l < length (en_heap e) \<Longrightarrow> running (en_heap e ! l) \<Longrightarrow> map_of (en_loops e) (rl_roomID (en_heap e ! l)) = Some l"
    and "map_of (en_loops e) r = Some l \<Longrightarrow> l < length (en_heap e) \<and> rl_roomID (en_heap e ! l) = r \<and> running (en_heap e ! l)"
    and "in_phase e l Selecting \<Longrightarrow> agrees (en_heap e ! l)"
    and "l < length (en_heap e) \<Longrightarrow> \<not> running (en_heap e ! l) \<Longrightarrow> rl_timer (en_heap e ! l) = None"
    and "en_stopped e \<Longrightarrow> in_phase e l Selecting \<Longrightarrow> rl_quit (en_heap e ! l)"
    and "calling e j Sending \<Longrightarrow> ca_loop (en_callers e ! j) < length (en_heap e)"
  using assms by (auto simp: loops_ok_def in_phase_def calling_def)

text \<open>A step of one loop that keeps it running, or makes it leave its \<open>select\<close>.\<close>

lemma loops_ok_touch:
  assumes ok: "loops_ok e" and t: "touches l e e'" and sel: "in_phase e l Selecting"
    and a: "\<not> ended \<Longrightarrow> agrees (en_heap e' ! l)"
  shows "loops_ok (leave_if ended l e')"
proof -
  let ?e = "leave_if ended l e'"
  have l: "l < length (en_heap e)" "rl_phase (en_heap e ! l) = Selecting" using sel by (simp_all add: in_phase_def)
  have t': "en_loops ?e = en_loops e" "en_stopped ?e = en_stopped e" "en_callers ?e = en_callers e"
    "length (en_heap ?e) = length (en_heap e)" using t by (simp_all add: touches_def leave_if_def set_loop_def)
  have other: "en_heap ?e ! k = en_heap e ! k" if "k \<noteq> l" for k using t that by (simp add: touches_def leave_if_def)
  have self: "rl_roomID (en_heap ?e ! l) = rl_roomID (en_heap e ! l)" "rl_quit (en_heap ?e ! l) = rl_quit (en_heap e ! l)"
    "rl_phase (en_heap ?e ! l) = (if ended then Leaving else Selecting)" "running (en_heap ?e ! l)"
    using t l by (simp_all add: touches_def leave_if_def running_def)
  have ag: "agrees (en_heap ?e ! l)" if "\<not> ended" using a [OF that] that by (simp add: leave_if_def)
  have run: "running (en_heap ?e ! k) = running (en_heap e ! k)" "rl_roomID (en_heap ?e ! k) = rl_roomID (en_heap e ! k)" for k
    using other self l by (cases "k = l"; simp add: running_def)+
  show ?thesis
    unfolding loops_ok_def t' run
  proof (intro conjI allI impI ballI)
    fix k assume k: "k < length (en_heap e)"
    show "map_of (en_loops e) (rl_roomID (en_heap e ! k)) = Some k" if "running (en_heap e ! k)"
      using loops_okD(1) [OF ok k that] .
    show "agrees (en_heap ?e ! k)" if "rl_phase (en_heap ?e ! k) = Selecting"
      using that ok k self ag other by (cases "k = l") (auto simp: loops_ok_def split: if_splits)
    show "rl_timer (en_heap ?e ! k) = None" if "\<not> running (en_heap e ! k)"
      using that ok k l other by (cases "k = l") (auto simp: loops_ok_def running_def)
    show "rl_quit (en_heap ?e ! k)" if "en_stopped e" "rl_phase (en_heap ?e ! k) = Selecting"
      using that ok k l self other by (cases "k = l") (auto simp: loops_ok_def split: if_splits)
  next
    fix c assume "c \<in> set (en_callers e)" "ca_state c = Sending"
    then show "ca_loop c < length (en_heap e)" using ok by (auto simp: loops_ok_def)
  qed (use loops_okD(2) [OF ok] in blast)+
qed

section \<open>Every step keeps it\<close>

lemma loops_ok_quit:
  assumes ok: "loops_ok e" and sel: "in_phase e l Selecting"
  shows "loops_ok (run_quit X l e)"
  unfolding run_quit_def by (rule loops_ok_touch [OF ok _ sel]) (simp_all add: touch_rules)

lemma loops_ok_alarm:
  assumes ok: "loops_ok e" and sel: "in_phase e l Selecting"
  shows "loops_ok (run_alarm X l e)"
proof -
  obtain c e' where p: "settle X l (disarm l e) = (c, e')" by fastforce
  have "l < length (en_heap (disarm l e))" using sel by (simp add: in_phase_def disarm_def)
  from settle_not_live [OF p this] have "agrees (en_heap e' ! l)"
    using sel by (simp add: agrees_def disarm_def in_phase_def)
  moreover have "touches l e e'" by (rule settle_touches [OF _ p]) (intro touch_rules)
  ultimately show ?thesis using p loops_ok_touch [OF ok _ sel] by (simp add: run_alarm_def)
qed

lemma loops_ok_command:
  assumes ok: "loops_ok e" and sel: "in_phase e l Selecting" and run: "run_command X window l cmd e = (reply, e')"
  shows "loops_ok e'"
proof -
  obtain ended e1 where h: "handle X window l cmd e = (reply, ended, e1)" and e': "e' = leave_if ended l e1"
    using run by (auto simp: run_command_def split: prod.splits)
  have "agrees (en_heap e1 ! l)" using handle_agrees [OF h _ loops_okD(3) [OF ok sel]] sel by (simp add: in_phase_def)
  then show ?thesis unfolding e' by (intro loops_ok_touch [OF ok handle_touches [OF h] sel])
qed

lemma loops_ok_removed:
  assumes ok: "loops_ok e" and lv: "in_phase e l Leaving"
  shows "loops_ok (run_removed l e)"
proof -
  let ?e = "run_removed l e" and ?r = "rl_roomID (en_heap e ! l)"
  have l: "l < length (en_heap e)" "running (en_heap e ! l)" using lv by (simp_all add: in_phase_def running_def)
  have m: "map_of (en_loops e) ?r = Some l" using loops_okD(1) [OF ok l] .
  have e: "en_loops ?e = AList.delete ?r (en_loops e)" "en_stopped ?e = en_stopped e" "en_callers ?e = en_callers e"
    "length (en_heap ?e) = length (en_heap e)" using m l by (simp_all add: run_removed_def removeLoop_def disarm_def set_loop_def)
  have heap: "en_heap ?e ! k = (if k = l then (en_heap e ! l)\<lparr>rl_timer := None, rl_phase := Removed\<rparr> else en_heap e ! k)" for k
    using l(1) by (simp add: run_removed_def removeLoop_def disarm_def set_loop_def nth_list_update)
  have other: "rl_roomID (en_heap e ! k) \<noteq> ?r" if "k < length (en_heap e)" "running (en_heap e ! k)" "k \<noteq> l" for k
    using loops_okD(1) [OF ok that(1,2)] m that(3) by auto
  show ?thesis
    unfolding loops_ok_def e
  proof (intro conjI allI impI ballI)
    fix k assume k: "k < length (en_heap e)"
    show "map_of (AList.delete ?r (en_loops e)) (rl_roomID (en_heap ?e ! k)) = Some k" if "running (en_heap ?e ! k)"
      using that k loops_okD(1) [OF ok k] other by (auto simp: heap running_def delete_conv split: if_splits)
    show "agrees (en_heap ?e ! k)" if "rl_phase (en_heap ?e ! k) = Selecting"
      using that k ok by (auto simp: heap loops_ok_def split: if_splits)
    show "rl_timer (en_heap ?e ! k) = None" if "\<not> running (en_heap ?e ! k)"
      using that k ok by (auto simp: heap loops_ok_def split: if_splits)
    show "rl_quit (en_heap ?e ! k)" if "en_stopped e" "rl_phase (en_heap ?e ! k) = Selecting"
      using that k ok by (auto simp: heap loops_ok_def split: if_splits)
  next
    fix c assume "c \<in> set (en_callers e)" "ca_state c = Sending"
    then show "ca_loop c < length (en_heap e)" using ok by (auto simp: loops_ok_def)
  next
    fix r k assume "map_of (AList.delete ?r (en_loops e)) r = Some k"
    then have r: "r \<noteq> ?r" "map_of (en_loops e) r = Some k" by (auto simp: delete_conv split: if_splits)
    note loops_okD(2) [OF ok r(2)]
    with r(1) show "k < length (en_heap e)" "rl_roomID (en_heap ?e ! k) = r" "running (en_heap ?e ! k)" by (auto simp: heap)
  qed
qed

lemma loops_ok_finished:
  assumes ok: "loops_ok e" and rm: "in_phase e l Removed"
  shows "loops_ok (run_finished l e)"
proof -
  let ?e = "run_finished l e"
  have l: "l < length (en_heap e)" "\<not> running (en_heap e ! l)" using rm by (simp_all add: in_phase_def running_def)
  have e: "en_loops ?e = en_loops e" "en_stopped ?e = en_stopped e" "en_callers ?e = en_callers e"
    "length (en_heap ?e) = length (en_heap e)" by (simp_all add: run_finished_def set_loop_def)
  have heap: "en_heap ?e ! k = (if k = l then (en_heap e ! l)\<lparr>rl_phase := Finished\<rparr> else en_heap e ! k)" for k
    using l(1) by (simp add: run_finished_def nth_list_update)
  have run: "running (en_heap ?e ! k) = running (en_heap e ! k)" "rl_roomID (en_heap ?e ! k) = rl_roomID (en_heap e ! k)"
    "rl_timer (en_heap ?e ! k) = rl_timer (en_heap e ! k)" for k
    using l(2) by (auto simp: heap running_def)
  show ?thesis
    using ok unfolding loops_ok_def e run by (auto simp: heap split: if_splits)
qed

lemma loops_ok_call:
  assumes ok: "loops_ok e" and s: "s \<noteq> Sending"
  shows "loops_ok (set_call j s e)"
proof -
  have "ca_loop c < length (en_heap e)" if "c \<in> set (en_callers (set_call j s e))" "ca_state c = Sending" for c
  proof -
    have "c \<in> insert ((en_callers e ! j)\<lparr>ca_state := s\<rparr>) (set (en_callers e))"
      using that(1) set_update_subset_insert by (fastforce simp: set_call_def)
    then show ?thesis using s that(2) ok by (auto simp: loops_ok_def)
  qed
  moreover have "en_heap (set_call j s e) = en_heap e" "en_loops (set_call j s e) = en_loops e" "en_stopped (set_call j s e) = en_stopped e"
    by (simp_all add: set_call_def)
  ultimately show ?thesis using ok by (simp add: loops_ok_def)
qed

lemma loops_ok_world: "loops_ok (e\<lparr>en_world := w\<rparr>) = loops_ok e" "loops_ok (notify n e) = loops_ok e"
  by (simp_all add: loops_ok_def notify_def)

lemma in_world_loops: "in_world m e = (r, e') \<Longrightarrow> loops_ok e' = loops_ok e"
  by (auto simp: in_world_def loops_ok_world split: prod.splits)

lemma direct_loops:
  "PlaceBet_direct X cmd e = Some (r, e') \<Longrightarrow> loops_ok e' = loops_ok e"
  "CloseRoom_direct X cmd e = Some (r, e') \<Longrightarrow> loops_ok e' = loops_ok e"
  by (cases cmd; auto split: prod.splits sum.splits if_splits dest: in_world_loops simp: loops_ok_world)+

lemma loops_ok_failed: "loops_ok e \<Longrightarrow> loops_ok (return_failed X j err e)"
  unfolding return_failed_def Let_def
  by (auto split: option.splits dest: direct_loops intro!: loops_ok_call)

lemma loops_ok_goroutine: "goroutine X window e e' \<Longrightarrow> loops_ok e \<Longrightarrow> loops_ok e'"
proof (induction rule: goroutine.induct)
  case (g_command e j reply e')
  then show ?case by (intro loops_ok_call loops_ok_command [of e _ X window _ reply e']) auto
qed (auto intro: loops_ok_quit loops_ok_alarm loops_ok_removed loops_ok_finished loops_ok_call loops_ok_failed)

lemma loops_ok_dispatch:
  assumes "loops_ok e"
  shows "loops_ok (dispatch cmd e)"
proof (cases "\<not> en_stopped e \<and> map_of (en_loops e) (command_room cmd) = None \<and> creates cmd")
  case True
  let ?x = "\<lparr>rl_roomID = command_room cmd, rl_quit = False, rl_timer = None, rl_live = False, rl_phase = Selecting\<rparr>"
  have d: "dispatch cmd e = e\<lparr>en_heap := en_heap e @ [?x], en_loops := AList.update (command_room cmd) (length (en_heap e)) (en_loops e),
     en_callers := en_callers e @ [\<lparr>ca_cmd = cmd, ca_loop = length (en_heap e), ca_state = Sending\<rparr>]\<rparr>"
    using True by (simp add: dispatch_def loopFor_def Let_def)
  have new: "rl_roomID (en_heap e ! l) \<noteq> command_room cmd" if "l < length (en_heap e)" "running (en_heap e ! l)" for l
    using loops_okD(1) [OF assms that] True by auto
  have old: "l < length (en_heap e)" if "map_of (en_loops e) r = Some l" for r l using loops_okD(2) [OF assms that] by simp
  show ?thesis
    unfolding d loops_ok_def
    using assms True new
    by (auto simp: loops_ok_def update_conv' nth_append less_Suc_eq running_def agrees_def split: if_splits dest: old)
next
  case False
  then have "\<exists>l s. (s = Sending \<longrightarrow> l < length (en_heap e)) \<and>
      dispatch cmd e = e\<lparr>en_callers := en_callers e @ [\<lparr>ca_cmd = cmd, ca_loop = l, ca_state = s\<rparr>]\<rparr>"
    using loops_okD(2) [OF assms] by (auto simp: dispatch_def loopFor_def split: option.splits)
  then show ?thesis using assms by (auto simp: loops_ok_def)
qed

lemma stop_sel [simp]:
  "en_loops (stop l e) = en_loops e" "en_stopped (stop l e) = en_stopped e" "en_callers (stop l e) = en_callers e"
  "length (en_heap (stop l e)) = length (en_heap e)"
  "k < length (en_heap e) \<Longrightarrow> en_heap (stop l e) ! k = (en_heap e ! k)\<lparr>rl_quit := rl_quit (en_heap e ! k) \<or> k = l\<rparr>"
  by (simp_all add: stop_def set_loop_def) (cases "k = l"; cases "en_heap e ! k"; simp)

lemma stops_heap:
  "en_loops (fold (stop \<circ> snd) xs e) = en_loops e \<and> en_stopped (fold (stop \<circ> snd) xs e) = en_stopped e \<and>
   en_callers (fold (stop \<circ> snd) xs e) = en_callers e \<and> length (en_heap (fold (stop \<circ> snd) xs e)) = length (en_heap e) \<and>
   (\<forall>k < length (en_heap e). en_heap (fold (stop \<circ> snd) xs e) ! k = (en_heap e ! k)\<lparr>rl_quit := rl_quit (en_heap e ! k) \<or> k \<in> snd ` set xs\<rparr>)"
proof (induction xs arbitrary: e)
  case (Cons x xs)
  show ?case using Cons [of "stop (snd x) e"] by (simp add: disj_assoc)
qed simp

lemma loops_ok_Shutdown:
  assumes ok: "loops_ok e"
  shows "loops_ok (Shutdown e)"
proof (cases "en_stopped e")
  case False
  let ?e = "Shutdown e"
  have e: "en_loops ?e = en_loops e" "en_callers ?e = en_callers e" "length (en_heap ?e) = length (en_heap e)"
    "en_heap ?e ! k = (en_heap e ! k)\<lparr>rl_quit := rl_quit (en_heap e ! k) \<or> k \<in> snd ` set (en_loops e)\<rparr>" if "k < length (en_heap e)" for k
    using stops_heap [of "en_loops e" "e\<lparr>en_stopped := True\<rparr>"] False that by (simp_all add: Shutdown_def)
  have "k \<in> snd ` set (en_loops e)" if "in_phase e k Selecting" for k
    using map_of_SomeD [OF loops_okD(1) [OF ok]] that by (force simp: in_phase_def running_def)
  then show ?thesis
    using ok e stops_heap [of "en_loops e" "e\<lparr>en_stopped := True\<rparr>"] False
    by (auto simp: loops_ok_def in_phase_def running_def agrees_def Shutdown_def)
qed (simp add: Shutdown_def assms)

section \<open>The engine drains\<close>

text \<open>
  Left alone, the goroutines stop: every alarm fires at most once and every call ends.  The
  work that is left is counted by weights for the calls and the loops.
\<close>

fun call_rank :: "call_state \<Rightarrow> nat" where
  "call_rank Sending = 5"
| "call_rank (Replied _) = 2"
| "call_rank (Failed _) = 1"
| "call_rank (Returned _) = 0"

definition loop_rank :: "roomLoop \<Rightarrow> nat" where
  "loop_rank x = (case rl_phase x of Selecting \<Rightarrow> if alarm x then 4 else 3 | Leaving \<Rightarrow> 2 | Removed \<Rightarrow> 1 | Finished \<Rightarrow> 0)"

definition work :: "'r Engine \<Rightarrow> nat" where
  "work e = sum_list (map (call_rank \<circ> ca_state) (en_callers e)) + sum_list (map loop_rank (en_heap e))"

lemma sum_list_swap:
  fixes xs :: "nat list"
  assumes "i < length xs"
  shows "sum_list (xs[i := y]) + xs ! i = sum_list xs + y"
  using assms
proof (induction xs arbitrary: i)
  case (Cons x xs)
  show ?case
  proof (cases i)
    case (Suc k)
    with Cons.IH [of k] Cons.prems show ?thesis by simp
  qed simp
qed simp

lemma work_call:
  assumes "calling e j s" and "call_rank s' < call_rank s"
  shows "work (set_call j s' e) < work e"
proof -
  have "j < length (map (call_rank \<circ> ca_state) (en_callers e))" using assms by (simp add: calling_def)
  from sum_list_swap [OF this, of "call_rank s'"] show ?thesis
    using assms by (simp add: work_def set_call_def map_update calling_def)
qed

text \<open>A step of a loop, by what it does to the rank of that loop.\<close>

lemma work_loop:
  assumes c: "en_callers e' = en_callers e" and h: "length (en_heap e') = length (en_heap e)"
    and o: "\<forall>k. k \<noteq> l \<longrightarrow> en_heap e' ! k = en_heap e ! k" and l: "l < length (en_heap e)"
  shows "work e' + loop_rank (en_heap e ! l) = work e + loop_rank (en_heap e' ! l)"
proof -
  have "en_heap e' = (en_heap e)[l := en_heap e' ! l]"
    using h o l by (intro nth_equalityI) (auto simp: nth_list_update)
  then have "map loop_rank (en_heap e') = (map loop_rank (en_heap e))[l := loop_rank (en_heap e' ! l)]" by (metis map_update)
  with sum_list_swap [of l "map loop_rank (en_heap e)" "loop_rank (en_heap e' ! l)"] l c show ?thesis
    by (simp add: work_def)
qed

lemma work_touches:
  assumes t: "touches l e e1" and l: "l < length (en_heap e)"
  shows "work (leave_if b l e1) + loop_rank (en_heap e ! l) = work e + loop_rank (en_heap (leave_if b l e1) ! l)"
  using t by (intro work_loop [OF _ _ _ l]) (auto simp: touches_def leave_if_def set_loop_def)

lemma touches_self: "touches l e e1 \<Longrightarrow> l < length (en_heap e) \<Longrightarrow> rl_phase (en_heap e1 ! l) = rl_phase (en_heap e ! l) \<and> l < length (en_heap e1)"
  by (simp add: touches_def)

lemma work_quit:
  assumes sel: "in_phase e l Selecting"
  shows "work (run_quit X l e) < work e"
proof -
  let ?e = "if rl_live (en_heap e ! l) then abort X l ReasonShutdown e else e"
  have l: "l < length (en_heap e)" "rl_phase (en_heap e ! l) = Selecting" using sel by (simp_all add: in_phase_def)
  have t: "touches l e ?e" by (intro touch_rules)
  have "loop_rank (en_heap (leave_if True l ?e) ! l) = 2"
    using touches_self [OF t l(1)] by (simp add: leave_if_def loop_rank_def)
  with work_touches [OF t l(1), of True] l show ?thesis unfolding run_quit_def by (auto simp: loop_rank_def split: if_splits)
qed

lemma work_alarm:
  assumes sel: "in_phase e l Selecting" and a: "alarm (en_heap e ! l)"
  shows "work (run_alarm X l e) < work e"
proof -
  have l: "l < length (en_heap e)" "rl_phase (en_heap e ! l) = Selecting" using sel by (simp_all add: in_phase_def)
  obtain c e1 where p: "settle X l (disarm l e) = (c, e1)" by fastforce
  have t: "touches l e e1" by (rule settle_touches [OF _ p]) (intro touch_rules)
  have "rl_timer (en_heap e1 ! l) = None" using settle_not_live [OF p] l by (simp add: disarm_def)
  then have "loop_rank (en_heap (leave_if c l e1) ! l) \<le> 3"
    using touches_self [OF t l(1)] l by (simp add: leave_if_def loop_rank_def alarm_def)
  with work_touches [OF t l(1), of c] l a show ?thesis by (simp add: run_alarm_def p loop_rank_def)
qed

lemma work_command:
  assumes sel: "in_phase e l Selecting" and run: "run_command X window l cmd e = (reply, e')"
  shows "work e' \<le> work e + 1" "en_callers e' = en_callers e"
proof -
  have l: "l < length (en_heap e)" "rl_phase (en_heap e ! l) = Selecting" using sel by (simp_all add: in_phase_def)
  obtain ended e1 where h: "handle X window l cmd e = (reply, ended, e1)" and e': "e' = leave_if ended l e1"
    using run by (auto simp: run_command_def split: prod.splits)
  note t = handle_touches [OF h]
  have "loop_rank (en_heap e' ! l) \<le> 4" by (simp add: loop_rank_def split: loop_phase.splits)
  with work_touches [OF t l(1), of ended] l e' show "work e' \<le> work e + 1" by (simp add: loop_rank_def split: if_splits)
  show "en_callers e' = en_callers e" using t by (simp add: e' leave_if_def touches_def set_loop_def)
qed

lemma direct_work:
  "PlaceBet_direct X cmd e = Some (r, e') \<Longrightarrow> work e' = work e \<and> en_callers e' = en_callers e"
  "CloseRoom_direct X cmd e = Some (r, e') \<Longrightarrow> work e' = work e \<and> en_callers e' = en_callers e"
  by (cases cmd; auto simp: in_world_def notify_def work_def split: prod.splits sum.splits if_splits)+

lemma work_returned:
  assumes "calling e j (Failed err)" and "work e1 = work e \<and> en_callers e1 = en_callers e"
  shows "work (set_call j (Returned r) e1) < work e"
proof -
  have "calling e1 j (Failed err)" using assms by (simp add: calling_def)
  then show ?thesis using work_call [of e1 j "Failed err" "Returned r"] assms(2) by simp
qed

lemma work_failed: "calling e j (Failed err) \<Longrightarrow> work (return_failed X j err e) < work e"
  unfolding return_failed_def Let_def
  by (auto split: option.splits dest: direct_work intro!: work_returned)

lemma goroutine_work: "goroutine X window e e' \<Longrightarrow> loops_ok e \<Longrightarrow> work e' < work e"
proof (induction rule: goroutine.induct)
  case (g_command e j reply e')
  note w = work_command [OF g_command(2,3)]
  have "calling e' j Sending" using g_command(1) w(2) by (simp add: calling_def)
  then have "j < length (map (call_rank \<circ> ca_state) (en_callers e'))" by (simp add: calling_def)
  from sum_list_swap [OF this, of 2] \<open>calling e' j Sending\<close> have "work (set_call j (Replied reply) e') + 3 = work e'"
    by (simp add: work_def set_call_def map_update calling_def)
  with w(1) show ?case by simp
next
  case (g_removed e l)
  have l: "l < length (en_heap e)" "rl_phase (en_heap e ! l) = Leaving" using g_removed by (simp_all add: in_phase_def)
  have "work (run_removed l e) + loop_rank (en_heap e ! l) = work e + loop_rank (en_heap (run_removed l e) ! l)"
    by (rule work_loop [OF _ _ _ l(1)]) (auto simp: run_removed_def removeLoop_def disarm_def set_loop_def)
  then show ?case using l by (simp add: run_removed_def loop_rank_def removeLoop_def disarm_def set_loop_def split: if_splits)
next
  case (g_finished e l)
  have l: "l < length (en_heap e)" "rl_phase (en_heap e ! l) = Removed" using g_finished by (simp_all add: in_phase_def)
  have "work (run_finished l e) + loop_rank (en_heap e ! l) = work e + loop_rank (en_heap (run_finished l e) ! l)"
    by (rule work_loop [OF _ _ _ l(1)]) (auto simp: run_finished_def set_loop_def)
  then show ?case using l by (simp add: run_finished_def loop_rank_def)
qed (auto intro: work_quit work_alarm work_failed work_call)

text \<open>No goroutine is blocked for good: what is left when nothing can move.\<close>

lemma quiescent:
  assumes ok: "loops_ok e" and stuck: "\<forall>e'. \<not> goroutine X window e e'"
  shows "c \<in> set (en_callers e) \<Longrightarrow> \<exists>r. ca_state c = Returned r"
    and "l < length (en_heap e) \<Longrightarrow> rl_phase (en_heap e ! l) = Finished \<or>
      in_phase e l Selecting \<and> \<not> rl_quit (en_heap e ! l) \<and> \<not> alarm (en_heap e ! l)"
proof -
  have ph: "rl_phase (en_heap e ! l) = Finished \<or> in_phase e l Selecting \<and> \<not> rl_quit (en_heap e ! l) \<and> \<not> alarm (en_heap e ! l)"
    if "l < length (en_heap e)" for l
  proof (cases "rl_phase (en_heap e ! l)")
    case Selecting
    then have "in_phase e l Selecting" using that by (simp add: in_phase_def)
    then show ?thesis using stuck g_quit g_alarm by blast
  next
    case Leaving
    then show ?thesis using stuck g_removed that by (metis in_phase_def)
  next
    case Removed
    then show ?thesis using stuck g_finished that by (metis in_phase_def)
  qed simp
  then show "l < length (en_heap e) \<Longrightarrow> rl_phase (en_heap e ! l) = Finished \<or>
      in_phase e l Selecting \<and> \<not> rl_quit (en_heap e ! l) \<and> \<not> alarm (en_heap e ! l)" .
  assume "c \<in> set (en_callers e)"
  then obtain j where j: "j < length (en_callers e)" "en_callers e ! j = c" by (auto simp: in_set_conv_nth)
  show "\<exists>r. ca_state c = Returned r"
  proof (cases "ca_state c")
    case Sending
    then have s: "calling e j Sending" using j by (simp add: calling_def)
    from ph [OF loops_okD(6) [OF ok s]] show ?thesis
    proof
      assume "rl_phase (en_heap e ! ca_loop (en_callers e ! j)) = Finished"
      then have "in_phase e (ca_loop (en_callers e ! j)) Finished" using loops_okD(6) [OF ok s] by (simp add: in_phase_def)
      then show ?thesis using stuck g_no_loop [OF s] by blast
    next
      assume "in_phase e (ca_loop (en_callers e ! j)) Selecting \<and> \<not> rl_quit (en_heap e ! ca_loop (en_callers e ! j)) \<and>
        \<not> alarm (en_heap e ! ca_loop (en_callers e ! j))"
      then show ?thesis using stuck g_command [OF s, of X window] by (metis prod.collapse)
    qed
  next
    case (Replied r)
    then show ?thesis using stuck g_return [of e j r] j by (auto simp: calling_def)
  next
    case (Failed err)
    then show ?thesis using stuck g_failed [of e j err] j by (auto simp: calling_def)
  qed simp
qed

end
