(* ===== verification/Engine_System.thy ===== *)
theory Engine_System
  imports Game_Recovery Engine_Loops
begin

text \<open>
  The round engine among the other users of the database: the goroutines of the engine, new
  calls, callers that give up, a shutdown, and the requests that do not go through the engine.
  Every run of this system is a run of the use cases of \<open>Cassino_System\<close>, one after the other.
\<close>

section \<open>Steps\<close>

text \<open>The requests whose handlers call their use case directly.\<close>

fun outside_engine :: "request \<Rightarrow> bool" where
  "outside_engine (Register_req _ _) = True"
| "outside_engine (Login_req _ _) = True"
| "outside_engine (Deposit_req _ _) = True"
| "outside_engine (Withdraw_req _ _) = True"
| "outside_engine (Balance_req _) = True"
| "outside_engine (CreateRoom_req _) = True"
| "outside_engine (JoinRoom_req _ _) = True"
| "outside_engine (ListRooms_req _ _) = True"
| "outside_engine (RoomState_req _) = True"
| "outside_engine _ = False"

inductive engine_step :: "'r ext \<Rightarrow> duration \<Rightarrow> duration \<Rightarrow> 'r Engine \<Rightarrow> 'r Engine \<Rightarrow> bool"
  for X :: "'r ext" and ttl window :: duration where
  es_go: "goroutine X window e e' \<Longrightarrow> engine_step X ttl window e e'"
| es_call: "engine_step X ttl window e (dispatch cmd e)"
| es_gone: "calling e j Sending \<or> calling e j (Replied r) \<Longrightarrow> engine_step X ttl window e (set_call j (Failed CallerGone) e)"
| es_shutdown: "engine_step X ttl window e (Shutdown e)"
| es_request: "outside_engine req \<Longrightarrow> serve X ttl window req (en_world e) = (res, w) \<Longrightarrow>
    engine_step X ttl window e (e\<lparr>en_world := w\<rparr>)"
| es_aside: "w_db w = w_db (en_world e) \<Longrightarrow> w_tx w = w_tx (en_world e) \<Longrightarrow> engine_step X ttl window e (e\<lparr>en_world := w\<rparr>)"

text \<open>
  The engine is built after the recovery pass, on a world the use cases can reach in which
  no room is active.
\<close>

definition engine_init :: "'r ext \<Rightarrow> 'r Engine \<Rightarrow> bool" where
  "engine_init X e \<longleftrightarrow> (\<exists>opTimeout w. e = NewEngine opTimeout w \<and> reach api_init (api_step X) w \<and> active_ids (w_db w) = {})"

section \<open>The structural invariant\<close>

interpretation loops: step_invariant "engine_init X" "engine_step X ttl window" loops_ok
    for X :: "'r ext" and ttl window :: duration
proof unfold_locales
  fix e :: "'r Engine" assume "engine_init X e"
  then show "loops_ok e" by (auto simp: engine_init_def NewEngine_def loops_ok_def)
next
  fix e e' :: "'r Engine" assume ok: "loops_ok e" and "engine_step X ttl window e e'"
  from this(2) show "loops_ok e'"
    by cases (auto simp: ok loops_ok_world intro: loops_ok_goroutine [OF _ ok] loops_ok_dispatch [OF ok] loops_ok_Shutdown [OF ok]
      loops_ok_call [OF ok])
qed

text \<open>
  A sample run: on the world where one player has an account and money, the player opens a table over
  REST and asks the engine to start its first round, which its new loop does.
\<close>

definition engine_before :: "redis_state Engine" where
  "engine_before = dispatch (cmdStartRound ''iii'' ''i'')
     ((NewEngine 0 (after (take 2 betting_table)))\<lparr>en_world := after (take 3 betting_table)\<rparr>)"

definition engine_started :: "redis_state Engine" where
  "engine_started = (case run_command sample_ext (15 * Second) 0 (cmdStartRound ''iii'' ''i'') engine_before of
     (reply, e) \<Rightarrow> set_call 0 (Replied reply) e)"

lemma engine_before_at: "engine_before = dispatch (cmdStartRound ''iii'' ''i'') (NewEngine 0 table_open)"
  by (simp add: engine_before_def NewEngine_def after_table)

lemma engine_started_at:
  "engine_started =
     \<lparr>en_timeout = 15000000, en_loops = [(''iii'', 0)], en_stopped = False,
      en_heap = [\<lparr>rl_roomID = ''iii'', rl_quit = False, rl_timer = Some 14000000, rl_live = True, rl_phase = Selecting\<rparr>],
      en_callers = [\<lparr>ca_cmd = cmdStartRound ''iii'' ''i'', ca_loop = 0, ca_state = Replied (StartResult (Inr
        \<lparr>so_RoomID = ''iii'', so_RoundID = ''iiii'', so_RoundNumber = 1, so_OpensAt = 3000000, so_ClosesAt = 18000000, so_Members = [''i'']\<rparr>))\<rparr>],
      en_world = table_started\<lparr>w_ticks := 5\<rparr>,
      en_notices = [NotifyRoundStarted
        \<lparr>so_RoomID = ''iii'', so_RoundID = ''iiii'', so_RoundNumber = 1, so_OpensAt = 3000000, so_ClosesAt = 18000000, so_Members = [''i'']\<rparr>],
      en_logs = []\<rparr>"
  unfolding engine_started_def engine_before_at by code_simp

lemma engine_before_reach:
  "reach (engine_init sample_ext) (engine_step sample_ext Hour (15 * Second)) engine_before"
proof -
  let ?e = "NewEngine 0 (after (take 2 betting_table))"
  have "db_rooms (w_db (after (take 2 betting_table))) = []" by code_simp
  then have "active_ids (w_db (after (take 2 betting_table))) = {}" by (simp add: active_ids_def)
  then have i: "engine_init sample_ext ?e"
    unfolding engine_init_def by (intro exI [of _ 0] exI [of _ "after (take 2 betting_table)"]) (simp add: after_reach)
  obtain res w where c: "serve sample_ext Hour (15 * Second) (CreateRoom_req ''i'') (en_world ?e) = (res, w)" by fastforce
  then have "w = after (take 3 betting_table)" by (simp add: NewEngine_def after_def betting_table_def)
  with es_request [OF _ c] have "engine_step sample_ext Hour (15 * Second) ?e (?e\<lparr>en_world := after (take 3 betting_table)\<rparr>)" by simp
  moreover have "reach (engine_init sample_ext) (engine_step sample_ext Hour (15 * Second)) ?e" using i by (rule reach_init)
  ultimately have "reach (engine_init sample_ext) (engine_step sample_ext Hour (15 * Second)) (?e\<lparr>en_world := after (take 3 betting_table)\<rparr>)"
    by (metis reach_step)
  then show ?thesis unfolding engine_before_def by (rule reach_step) (rule es_call)
qed

lemma engine_started_reach:
  "reach (engine_init sample_ext) (engine_step sample_ext Hour (15 * Second)) engine_started"
proof -
  obtain reply e' where c: "run_command sample_ext (15 * Second) 0 (cmdStartRound ''iii'' ''i'') engine_before = (reply, e')" by fastforce
  have b: "map (\<lambda>c. (ca_cmd c, ca_loop c)) (en_callers engine_before) = [(cmdStartRound ''iii'' ''i'', 0)]" "length (en_heap engine_before) = 1"
    "map rl_phase (en_heap engine_before) = [Selecting]" "map ca_state (en_callers engine_before) = [Sending]"
    unfolding engine_before_at by code_simp+
  then have s: "calling engine_before 0 Sending" "in_phase engine_before 0 Selecting"
    "ca_loop (en_callers engine_before ! 0) = 0" "ca_cmd (en_callers engine_before ! 0) = cmdStartRound ''iii'' ''i''"
    by (auto simp: calling_def in_phase_def length_Suc_conv)
  have "goroutine sample_ext (15 * Second) engine_before (set_call 0 (Replied reply) e')"
    by (rule g_command) (use s c in simp_all)
  then have "engine_step sample_ext Hour (15 * Second) engine_before engine_started"
    by (simp add: engine_started_def c es_go)
  with engine_before_reach show ?thesis by (rule reach_step)
qed

text \<open>
  C10: one goroutine per room.  In every reachable state of the engine at most one loop of a room is
  running and the map of loops holds exactly the running ones; a loop waiting in its \<open>select\<close> is
  live exactly when its alarm is armed, and once the engine is stopped each of them has been
  told to quit.
\<close>

theorem one_loop_per_room:
  assumes "reach (engine_init X) (engine_step X ttl window) e"
  shows "(\<forall>l k. l < length (en_heap e) \<and> k < length (en_heap e) \<and> running (en_heap e ! l) \<and> running (en_heap e ! k) \<and>
       rl_roomID (en_heap e ! l) = rl_roomID (en_heap e ! k) \<longrightarrow> l = k) \<and>
    (\<forall>l < length (en_heap e). running (en_heap e ! l) \<longleftrightarrow> map_of (en_loops e) (rl_roomID (en_heap e ! l)) = Some l) \<and>
    (\<forall>l < length (en_heap e). rl_phase (en_heap e ! l) = Selecting \<longrightarrow>
       (rl_live (en_heap e ! l) \<longleftrightarrow> alarm (en_heap e ! l)) \<and> (en_stopped e \<longrightarrow> rl_quit (en_heap e ! l)))"
proof -
  note ok = loops.reach_inv [OF assms]
  have "l = k" if "l < length (en_heap e)" "k < length (en_heap e)" "running (en_heap e ! l)" "running (en_heap e ! k)"
    "rl_roomID (en_heap e ! l) = rl_roomID (en_heap e ! k)" for l k
    using loops_okD(1) [OF ok that(1,3)] loops_okD(1) [OF ok that(2,4)] that(5) by (metis option.inject)
  moreover have "running (en_heap e ! l) \<longleftrightarrow> map_of (en_loops e) (rl_roomID (en_heap e ! l)) = Some l" if "l < length (en_heap e)" for l
    using loops_okD(1) [OF ok that] loops_okD(2) [OF ok, of "rl_roomID (en_heap e ! l)" l] by blast
  moreover have "(rl_live (en_heap e ! l) \<longleftrightarrow> alarm (en_heap e ! l)) \<and> (en_stopped e \<longrightarrow> rl_quit (en_heap e ! l))"
    if "l < length (en_heap e)" "rl_phase (en_heap e ! l) = Selecting" for l
  proof -
    have sel: "in_phase e l Selecting" using that by (simp add: in_phase_def)
    show ?thesis using loops_okD(3) [OF ok sel] loops_okD(5) [OF ok _ sel] by (simp add: agrees_def alarm_def)
  qed
  ultimately show ?thesis by blast
qed

theorem one_loop_per_room_witness:
  "map rl_roomID (en_heap engine_started) = [''iii''] \<and> alarm (en_heap engine_started ! 0) \<and> en_loops engine_started = [(''iii'', 0)]"
proof -
  have b: "map rl_phase (en_heap engine_started) = [Selecting]" "map rl_live (en_heap engine_started) = [True]"
    "map rl_roomID (en_heap engine_started) = [''iii'']" "en_loops engine_started = [(''iii'', 0)]"
    by (simp_all add: engine_started_at)
  then have "0 < length (en_heap engine_started)" "rl_phase (en_heap engine_started ! 0) = Selecting" "rl_live (en_heap engine_started ! 0)"
    by (auto simp: length_Suc_conv)
  with b one_loop_per_room [OF engine_started_reach] show ?thesis by blast
qed

section \<open>Draining\<close>

text \<open>
  C9: shutdown.  The goroutines never run forever: from a reachable state there is no infinite
  sequence of their steps.  When the engine is stopped and none of them can move, every loop
  has finished, the map of loops is empty and every call has returned, so \<open>Shutdown\<close> does
  not wait in vain.
\<close>

theorem engine_drains:
  assumes "reach (engine_init X) (engine_step X ttl window) e"
  shows "\<not> (\<exists>run. run 0 = e \<and> (\<forall>n. goroutine X window (run n) (run (Suc n)))) \<and>
    (en_stopped e \<and> (\<forall>e'. \<not> goroutine X window e e') \<longrightarrow>
      en_loops e = [] \<and> (\<forall>x \<in> set (en_heap e). rl_phase x = Finished) \<and> (\<forall>c \<in> set (en_callers e). \<exists>r. ca_state c = Returned r))"
proof -
  note ok = loops.reach_inv [OF assms]
  have "False" if "run 0 = e" and step: "\<And>n. goroutine X window (run n) (run (Suc n))" for run
  proof -
    have inv: "loops_ok (run n)" for n using that ok by (induction n) (auto intro: loops_ok_goroutine)
    have "work (run n) + n \<le> work (run 0)" for n
    proof (induction n)
      case (Suc n)
      then show ?case using goroutine_work [OF step inv, of n] by simp
    qed simp
    from this [of "Suc (work (run 0))"] show False by simp
  qed
  moreover have "en_loops e = [] \<and> (\<forall>x \<in> set (en_heap e). rl_phase x = Finished) \<and> (\<forall>c \<in> set (en_callers e). \<exists>r. ca_state c = Returned r)"
    if st: "en_stopped e" and q: "\<forall>e'. \<not> goroutine X window e e'"
  proof -
    have fin: "rl_phase (en_heap e ! l) = Finished" if "l < length (en_heap e)" for l
      using quiescent(2) [OF ok q that] loops_okD(5) [OF ok st] by blast
    moreover have "map_of (en_loops e) r = None" for r
    proof (rule ccontr)
      assume "map_of (en_loops e) r \<noteq> None"
      then obtain l where "map_of (en_loops e) r = Some l" by blast
      from loops_okD(2) [OF ok this] fin [of l] show False by (simp add: running_def)
    qed
    then have "en_loops e = []" by (metis map_of_eq_None_iff image_is_empty set_empty ex_in_conv)
    ultimately show ?thesis using quiescent(1) [OF ok q] by (auto simp: in_set_conv_nth)
  qed
  ultimately show ?thesis by blast
qed

theorem engine_drains_witness:
  "\<not> (\<exists>run. run 0 = engine_started \<and> (\<forall>n. goroutine sample_ext (15 * Second) (run n) (run (Suc n))))"
  using engine_drains [OF engine_started_reach] by blast

section \<open>The engine runs the use cases\<close>

text \<open>A run of use cases between two worlds.\<close>

definition api_run :: "'r ext \<Rightarrow> 'r world \<Rightarrow> 'r world \<Rightarrow> bool" where
  "api_run X = (api_step X)\<^sup>*\<^sup>*"

lemma api_run_refl: "api_run X w w"
  by (simp add: api_run_def)

lemma api_run_step: "api_run X w w1 \<Longrightarrow> api_step X w1 w2 \<Longrightarrow> api_run X w w2"
  by (simp add: api_run_def)

lemma api_served:
  assumes "serve X ttl window req = done_with m" and "m w = (r, w')"
  shows "api_step X w w'"
proof -
  have "serve X ttl window req w = (map_sum id (\<lambda>_. ()) r, w')"
    using assms by (cases r) (simp_all add: done_with_def bnd_def ret_def)
  then show ?thesis by (rule api_serve)
qed

lemma api_in_world:
  assumes "in_world m e = (r, e')" and "api_run X w (en_world e)" and "serve X ttl window req = done_with m"
  shows "api_run X w (en_world e')"
proof -
  from assms(1) obtain w1 where "m (en_world e) = (r, w1)" "en_world e' = w1" by (auto simp: in_world_def split: prod.splits)
  with api_served [OF assms(3)] assms(2) show ?thesis by (blast intro: api_run_step)
qed

lemmas api_uses =
  api_in_world [OF _ _ serve.simps(10)] api_in_world [OF _ _ serve.simps(11)] api_in_world [OF _ _ serve.simps(12)]
  api_in_world [OF _ _ serve.simps(13)] api_in_world [OF _ _ serve.simps(14)]

lemma world_sel [simp]:
  "en_world (set_loop l f e) = en_world e" "en_world (notify n e) = en_world e" "en_world (log_error g e) = en_world e"
  "en_world (disarm l e) = en_world e" "en_world (leave_if b l e) = en_world e" "en_world (set_call j s e) = en_world e"
  "en_world (removeLoop l e) = en_world e"
  by (simp_all add: set_loop_def notify_def log_error_def disarm_def leave_if_def set_call_def removeLoop_def)

lemma api_Now: "in_world (Now X) e = (r, e') \<Longrightarrow> api_run X w (en_world e) \<Longrightarrow> api_run X w (en_world e')"
  by (erule api_run_step) (auto intro!: api_aside simp: in_world_def Now_def split: prod.splits)

lemma api_abort: "api_run X w (en_world e) \<Longrightarrow> api_run X w (en_world (abort X l reason e))"
  by (rule abort_cases [of X e l reason]) (auto dest: api_uses(5))

lemma api_settle: "settle X l e = (c, e') \<Longrightarrow> api_run X w (en_world e) \<Longrightarrow> api_run X w (en_world e')"
  by (erule settle_cases) (auto dest: api_uses(3) intro!: api_abort)

lemma api_arm: "api_run X w (en_world e) \<Longrightarrow> api_run X w (en_world (arm X l t e))"
  by (auto simp: arm_def Let_def dest: api_Now split: prod.splits)

lemma api_handle: "handle X window l cmd e = (reply, ended, e') \<Longrightarrow> api_run X w (en_world e) \<Longrightarrow> api_run X w (en_world e')"
  by (cases cmd) (auto split: prod.splits sum.splits if_splits dest: api_uses(1,2,4) intro!: api_arm)

lemma api_direct:
  "PlaceBet_direct X cmd e = Some (r, e') \<Longrightarrow> api_run X w (en_world e) \<Longrightarrow> api_run X w (en_world e')"
  "CloseRoom_direct X cmd e = Some (r, e') \<Longrightarrow> api_run X w (en_world e) \<Longrightarrow> api_run X w (en_world e')"
  by (cases cmd; auto split: prod.splits sum.splits if_splits dest: api_uses)+

lemma api_failed: "api_run X w (en_world e) \<Longrightarrow> api_run X w (en_world (return_failed X j err e))"
  unfolding return_failed_def Let_def by (auto split: option.splits dest: api_direct)

lemma api_goroutine: "goroutine X window e e' \<Longrightarrow> api_run X w (en_world e) \<Longrightarrow> api_run X w (en_world e')"
proof (induction rule: goroutine.induct)
  case (g_alarm e l)
  then show ?case by (auto simp: run_alarm_def dest: api_settle split: prod.splits)
next
  case (g_command e j reply e')
  then show ?case by (auto simp: run_command_def dest: api_handle split: prod.splits)
qed (auto simp: run_quit_def run_removed_def run_finished_def intro!: api_abort api_failed)

lemma world_dispatch: "en_world (dispatch cmd e) = en_world e"
  by (auto simp: dispatch_def loopFor_def Let_def split: option.splits)

lemma world_stops: "en_world (fold (stop \<circ> snd) xs e) = en_world e"
  by (induction xs arbitrary: e) (simp_all add: stop_def)

lemma world_Shutdown: "en_world (Shutdown e) = en_world e"
  by (simp add: Shutdown_def world_stops)

lemma api_engine_step: "engine_step X ttl window e e' \<Longrightarrow> api_run X w (en_world e) \<Longrightarrow> api_run X w (en_world e')"
  by (cases rule: engine_step.cases, assumption)
     (auto simp: world_dispatch world_Shutdown intro: api_goroutine api_run_step api_serve api_aside)

lemma reach_api_run: "reach api_init (api_step X) w \<Longrightarrow> api_run X w w' \<Longrightarrow> reach api_init (api_step X) w'"
  unfolding api_run_def by (rotate_tac, induction rule: rtranclp_induct) (auto intro: reach_step)

lemma engine_reach_api:
  "reach (engine_init X) (engine_step X ttl window) e \<Longrightarrow> reach api_init (api_step X) (en_world e)"
proof (induction rule: reach.induct)
  case (reach_init e)
  then show ?case by (auto simp: engine_init_def NewEngine_def)
next
  case (reach_step e e')
  from api_engine_step [OF reach_step(2) api_run_refl] show ?case by (rule reach_api_run [OF reach_step(3)])
qed



end
