(* ===== verification/Settle_Errors.thy ===== *)
theory Settle_Errors
  imports Game_Recovery
begin

text \<open>
  What the errors of a settlement and of an abort tell.  The round engine drops a settlement
  that answers one of four errors; this theory shows that those errors only arise when the room has no
  round left to settle, and that an abort refused with a closed room left none behind either.
\<close>

section \<open>Errors a program does not return\<close>

named_theorems avoid_rules \<open>programs that do not fail with given errors\<close>

definition avoids :: "error set \<Rightarrow> ('r, error, 'a) prog \<Rightarrow> bool" where
  "avoids S m \<longleftrightarrow> (\<forall>w e w'. m w = (Inl e, w') \<longrightarrow> e \<notin> S)"

lemma avoidsD: "avoids S m \<Longrightarrow> m w = (Inl e, w') \<Longrightarrow> e \<notin> S"
  unfolding avoids_def by blast

lemma avoids_bnd [avoid_rules]: "avoids S m \<Longrightarrow> (\<And>x. avoids S (k x)) \<Longrightarrow> avoids S (bnd m k)"
  unfolding avoids_def bnd_run by blast

lemma avoids_on_error [avoid_rules]: "(\<And>e. f e \<notin> S) \<Longrightarrow> avoids S (on_error f m)"
  unfolding avoids_def on_error_run by (auto split: sum.splits)

lemma avoids_basic [avoid_rules]:
  "avoids S (ret x)" "e \<notin> S \<Longrightarrow> avoids S (fail e)" "avoids S (Now X)" "avoids S (NewID X)" "e \<notin> S \<Longrightarrow> avoids S (toUUID X e s)"
  by (auto simp: avoids_def ret_def fail_def Now_def NewID_def toUUID_def split: option.splits)

lemma avoids_lift [avoid_rules]: "(\<And>e. r = Inl e \<Longrightarrow> e \<notin> S) \<Longrightarrow> avoids S (lift r)"
  by (auto simp: avoids_def lift_def)

lemma avoids_toNullUUID [avoid_rules]: "e \<notin> S \<Longrightarrow> avoids S (toNullUUID X e s)"
  unfolding toNullUUID_def by (auto split: option.splits intro!: avoid_rules)

text \<open>The answers to a settlement after which the engine neither retries nor aborts.\<close>

definition quiet :: "error set" where
  "quiet = {GameErr ErrNoActiveRound, GameErr ErrRoundAlreadySettled, GameErr ErrRoomClosed, GameErr ErrRoomNotFound}"

lemma quiet_simps [simp]:
  "PlayerErr e \<notin> quiet" "InfraErr t \<notin> quiet"
  "GameErr g \<in> quiet \<longleftrightarrow> g = ErrNoActiveRound \<or> g = ErrRoundAlreadySettled \<or> g = ErrRoomClosed \<or> g = ErrRoomNotFound"
  by (auto simp: quiet_def)

lemma quiet_game: "e \<in> quiet \<Longrightarrow> \<exists>g. e = GameErr g"
  by (auto simp: quiet_def)

lemma avoids_player [avoid_rules]:
  "avoids quiet (Player_GetForUpdate X i)" "avoids quiet (Player_GetByID X i)" "avoids quiet (UpdateBalance X i b)"
  "avoids quiet (Transaction_Insert X t)" "avoids quiet (lift (Credit p a))"
  "avoids quiet (lift (NewTransaction tid pid ty a rid now))"
  unfolding Player_GetForUpdate_def Player_GetByID_def UpdateBalance_def Transaction_Insert_def
  by (intro avoid_rules; auto simp: toDomainPlayer_def RehydratePlayer_def Credit_def NewTransaction_def split: if_splits)+

lemma avoids_settle_credit [avoid_rules]: "avoids quiet (settle_credit X p a rid now)"
  unfolding settle_credit_def by (intro avoid_rules)

lemma avoids_memberBalances [avoid_rules]: "avoids quiet (memberBalances X members)"
proof -
  have "avoids quiet (memberBalances_from X members bs)" for bs
    by (induction members arbitrary: bs) (auto intro!: avoid_rules)
  then show ?thesis by (simp add: memberBalances_def)
qed

lemma nofail_avoids: "nofail m \<Longrightarrow> avoids S m"
  unfolding nofail_def avoids_def by blast

section \<open>Transactions that fail\<close>

lemma WithinTx_game_error:
  assumes "WithinTx X fn w = (Inl (GameErr g), w')" and "w_tx w = NoTx"
  obtains w2 where "fn (w\<lparr>w_calls := Suc (w_calls w), w_tx := InTx\<rparr>) = (Inl (GameErr g), w2)"
  using assms by (auto simp: WithinTx_def Let_def split: if_splits prod.splits sum.splits commit_fate.splits)

text \<open>Loading a room: which errors tell that it is not there.\<close>

lemma Room_load_quiet:
  assumes "Room_load X i u w = (Inl e, w')" and "e \<in> quiet" and "x_uuid X i = Some rid"
  shows "\<not> has_room (w_db w) rid"
  using assms
  by (auto simp: Room_load_def bnd_run on_error_run toUUID_def ret_def fail_def lift_def RehydrateRoom_def quiet_def exec_def Let_def
      GetRoomForUpdate_def GetRoomByID_def reads_def one_row_def isNoRows_def has_room_def find_None_iff list_ex_iff
      split: if_splits option.splits pg_error.splits sum.splits)

lemma avoids_hydrate [avoid_rules]: "avoids quiet (hydrate X row)"
  unfolding hydrate_def Bet_ListByRound_def
  by (intro avoid_rules) (auto simp: RehydrateRound_def split: if_splits)

lemma avoids_Round_GetCurrent:
  assumes "x_uuid X i \<noteq> None"
  shows "avoids quiet (Round_GetCurrent X i)"
  unfolding Round_GetCurrent_def
proof (rule avoids_bnd)
  show "avoids quiet (toUUID X (GameErr ErrRoomNotFound) i)" using assms by (auto simp: toUUID_def intro!: avoid_rules)
qed (intro avoid_rules, simp)

lemma avoids_attachLiveRound:
  assumes "x_uuid X (rm_ID room) \<noteq> None"
  shows "avoids quiet (attachLiveRound X room)"
  unfolding attachLiveRound_def avoids_def
proof (intro allI impI)
  fix w e w'
  assume "bnd (attempt (Round_GetCurrent X (rm_ID room))) (\<lambda>r. case r of Inl e \<Rightarrow> if isRoundMissing e then ret (None, room) else fail e
     | Inr rnd \<Rightarrow> ret (Some rnd, AttachRound room (Some rnd))) w = (Inl e, w')"
  then have "Round_GetCurrent X (rm_ID room) w = (Inl e, w')"
    by (auto simp: bnd_def attempt_def ret_def fail_def split: prod.splits sum.splits if_splits)
  with avoids_Round_GetCurrent [OF assms] show "e \<notin> quiet" by (rule avoidsD)
qed

section \<open>A settlement that fails quietly found nothing to settle\<close>

definition betting_ids :: "db \<Rightarrow> id set" where
  "betting_ids d = {mr_ID r | r. r \<in> set (db_rooms d) \<and> mr_Status r \<noteq> RoomClosed \<and>
     (\<exists>row \<in> set (db_rounds d). dr_RoomID row = mr_ID r \<and> dr_Status row = RoundBetting)}"

lemma no_rows_quiet:
  assumes "on_error (\<lambda>e. if isNoRows e then GameErr g else InfraErr t) (exec X q) w = (Inl e, w')" and "q (w_db w) \<noteq> Inl ErrNoRows"
  shows "e \<notin> quiet"
  using assms
  by (auto simp: on_error_run exec_def Let_def isNoRows_def split: if_splits sum.splits pg_error.splits prod.splits)

lemma SettleBet_quiet:
  assumes run: "SettleBet X (bt_ID b) won po w = (Inl e, w')" and b: "b \<in> set (dom_bets (w_db w))" "\<not> Settled b" "cid X (bt_ID b)"
  shows "e \<notin> quiet"
proof -
  from b obtain q where q: "q \<in> set (db_bets (w_db w))" "br_ID q = bt_ID b" "br_Won q = None"
    by (auto simp: dom_bets_def toDomainBet_def Settled_def)
  have "SettleBet_sql won po t (bt_ID b) (w_db w) \<noteq> Inl ErrNoRows" for t
    using q by (auto simp: SettleBet_sql_def writes_def guarded_def find_None_iff split: option.splits)
  with run b(3) show ?thesis
    by (auto simp: SettleBet_def bnd_run toUUID_def cid_def ret_def Now_def dest!: no_rows_quiet)
qed

lemma pay_result_quiet:
  assumes run: "pay_result X rid now (result_under oc b) w = (Inl e, w')"
    and b: "b \<in> set (dom_bets (w_db w))" "\<not> Settled b" "cid X (bt_ID b)"
  shows "e \<notin> quiet"
proof -
  from run consider "SettleBet X (bt_ID b) (Matches (bt_Choice b) oc) (credited (bt_Choice b) (bt_Amount b) oc) w = (Inl e, w')"
    | w1 where "settle_credit X (bt_PlayerID b) (credited (bt_Choice b) (bt_Amount b) oc) rid now w1 = (Inl e, w')"
    by (auto simp: pay_result_def bnd_run ret_def split: if_splits)
  then show ?thesis
  proof cases
    case 1
    then show ?thesis using SettleBet_quiet b by blast
  next
    case 2
    then show ?thesis by (rule avoidsD [OF avoids_settle_credit])
  qed
qed

lemma pay_results_quiet:
  assumes u: "uuid_canonical X"
  shows "each (pay_result X rid now) (map (result_under oc) bs) w = (Inl e, w') \<Longrightarrow>
    \<forall>b \<in> set bs. b \<in> set (dom_bets (w_db w)) \<and> \<not> Settled b \<and> cid X (bt_ID b) \<and> cid X (bt_PlayerID b) \<Longrightarrow>
    distinct bs \<Longrightarrow> distinct (map bt_ID (dom_bets (w_db w))) \<Longrightarrow> e \<notin> quiet"
proof (induction bs arbitrary: w)
  case (Cons b bs)
  have b: "b \<in> set (dom_bets (w_db w))" "\<not> Settled b" "cid X (bt_ID b)" "cid X (bt_PlayerID b)"
    using Cons.prems(2) by simp_all
  from Cons.prems(1) consider "pay_result X rid now (result_under oc b) w = (Inl e, w')"
    | w1 where "pay_result X rid now (result_under oc b) w = (Inr (), w1)" "each (pay_result X rid now) (map (result_under oc) bs) w1 = (Inl e, w')"
    by (auto simp: bnd_run)
  then show ?case
  proof cases
    case 1
    then show ?thesis using pay_result_quiet b by blast
  next
    case 2
    note e = pay_result_effect [OF u 2(1) b Cons.prems(4)]
    have "map bt_ID (dom_bets (w_db w1)) = map bt_ID (dom_bets (w_db w))" by (simp add: e(3))
    then have ids: "distinct (map bt_ID (dom_bets (w_db w1)))" using Cons.prems(4) by (simp only:)
    have "\<forall>c \<in> set bs. c \<in> set (dom_bets (w_db w1)) \<and> \<not> Settled c \<and> cid X (bt_ID c) \<and> cid X (bt_PlayerID c)"
      using Cons.prems(2,3) by (auto simp: e(3) image_iff)
    from Cons.IH [OF 2(2) this _ ids] Cons.prems(3) show ?thesis by simp
  qed
qed (simp add: ret_def)

lemma Round_SettleRow_quiet:
  assumes run: "Round_SettleRow X rnd w = (Inl e, w')" and c: "cid X (rd_ID rnd)" "rd_SettledAt rnd = Some t"
    and row: "row \<in> set (db_rounds (w_db w))" "dr_ID row = rd_ID rnd" "dr_Status row = RoundBetting"
  shows "e \<notin> quiet"
proof -
  have "SettleRound_sql d1 d2 oc t (rd_ID rnd) (w_db w) \<noteq> Inl ErrNoRows" for d1 d2 oc
    using row by (auto simp: SettleRound_sql_def writes_def guarded_def find_None_iff RoundBetting_def split: option.splits)
  with run c show ?thesis by (auto simp: Round_SettleRow_def bnd_run toUUID_def cid_def ret_def dest!: no_rows_quiet)
qed

lemma UpdateStatus_quiet:
  assumes "UpdateStatus X i st c w = (Inl e, w')" and "cid X i" and "r \<in> set (db_rooms (w_db w))" and "mr_ID r = i"
  shows "e \<notin> quiet"
proof -
  have "UpdateRoomStatus st c i (w_db w) \<noteq> Inl ErrNoRows"
    using assms(3,4) by (auto simp: UpdateRoomStatus_def writes_def guarded_def find_None_iff split: option.splits)
  with assms(1,2) show ?thesis by (auto simp: UpdateStatus_def bnd_run toUUID_def cid_def ret_def dest!: no_rows_quiet)
qed

lemma bnd_failed:
  assumes "bnd m k w = (Inl e, w')"
  obtains "m w = (Inl e, w')" | x w1 where "m w = (Inr x, w1)" "k x w1 = (Inl e, w')"
  using assms unfolding bnd_run by blast

lemma SettleRound_writes_quiet:
  assumes u: "uuid_canonical X" and s: "store_ok X (w_db w)" and g: "game_ok (w_db w)" and r: "r \<in> set (db_rooms (w_db w))"
    and cur: "current_row (w_db w) (mr_ID r) = Some row" and st: "dr_Status row = RoundBetting"
    and room: "rm_ID room = mr_ID r"
    and run: "SettleRound_writes X room (settled_round (abs_round (w_db w) row) d1 d2 oc now)
        (map (result_under oc) (round_bets (w_db w) (dr_ID row))) now w = (Inl e, w')"
  shows "e \<notin> quiet"
proof -
  let ?d = "w_db w" and ?rnd = "settled_round (abs_round (w_db w) row) d1 d2 oc now" and ?bs = "round_bets (w_db w) (dr_ID row)"
  have sch: "schema_ok ?d" using s by (simp add: store_ok_def)
  have row: "row \<in> set (db_rounds ?d)" "dr_RoomID row = mr_ID r" using current_row_mem [OF cur] by auto
  have c: "cid X (dr_ID row)" "cid X (mr_ID r)" using s row r by (auto simp: store_ok_def canonical_rows_def)
  have wf: "wf_round (abs_round ?d row)" using game_okD(2) [OF g] row unfolding rounds_ok_def by blast
  have bets: "\<forall>b \<in> set ?bs. b \<in> set (dom_bets ?d) \<and> \<not> Settled b \<and> cid X (bt_ID b) \<and> cid X (bt_PlayerID b)"
    using dom_bets_canonical [OF s] wf_betting_unsettled [OF wf] st by (simp add: Bets_abs) (simp add: set_round_bets)
  note dist = round_bets_ids [OF sch] dom_bets_ids [OF sch]
  from run show ?thesis
    unfolding SettleRound_writes_def
  proof (cases rule: bnd_failed)
    case 1
    then show ?thesis by (rule Round_SettleRow_quiet [OF _ _ _ row(1)]) (simp_all add: c st)
  next
    case (2 z w1)
    note up = Round_SettleRow_ok [OF 2(1) _ sch row(1) _ st]
    have w1: "\<exists>rs. w_db w1 = ?d\<lparr>db_rounds := rs\<rparr>" by (rule exI, rule up) (simp_all add: c)
    then have d1: "dom_bets (w_db w1) = dom_bets ?d" "db_rooms (w_db w1) = db_rooms ?d" by (auto simp: dom_bets_def)
    from 2(2) show ?thesis
    proof (cases rule: bnd_failed)
      case 1
      then show ?thesis using pay_results_quiet [OF u, of _ now oc ?bs w1 e w'] bets dist by (simp add: d1)
    next
      case (2 z2 w2)
      have "same_game (w_db w1) (w_db w2)"
        using pay_results_effect [OF u, of _ now oc ?bs w1 w2] 2(1) bets dist by (simp add: d1)
      then have r2: "r \<in> set (db_rooms (w_db w2))" using r d1 by (simp add: same_game_def)
      from 2(2) show ?thesis
      proof (cases rule: bnd_failed)
        case 1
        then show ?thesis using UpdateStatus_quiet [OF _ c(2) r2 refl] by (auto simp: room ret_def split: if_splits)
      next
        case (2 z3 w3)
        then show ?thesis by (auto simp: Let_def bnd_run ret_def dest: avoidsD [OF avoids_memberBalances])
      qed
    qed
  qed
qed

text \<open>The aggregate refuses quietly only when its room is closed or has no live round.\<close>

lemma Room_SettleRound_quiet:
  assumes wf: "wf_room room" and run: "SettleRound room (Some roll) now = (Inl e, room')" and e: "e \<in> quiet"
    and roll: "\<And>x. roll = Inl x \<Longrightarrow> x \<notin> quiet"
  shows "rm_Status room = RoomClosed \<or> \<not> live_round room"
proof (rule ccontr)
  assume "\<not> (rm_Status room = RoomClosed \<or> \<not> live_round room)"
  then obtain rd where o: "rm_Status room \<noteq> RoomClosed" and rd: "rm_round room = Some rd" "rd_Status rd \<noteq> RoundSettled"
    by (auto simp: live_round_def split: option.splits)
  have wfr: "wf_round rd" "rd_Status rd = RoundBetting" using wf rd wf_round_status [of rd] by (auto simp: wf_room_def)
  show False
  proof (cases roll)
    case (Inl x)
    then have "e = x" using run o rd by (simp add: SettleRound_def Round_Settle_def)
    then show ?thesis using roll Inl e by simp
  next
    case (Inr d)
    obtain d1 d2 where d: "d = (d1, d2)" by (rule prod.exhaust)
    show ?thesis
    proof (cases "OutcomeOf d1 d2")
      case (Inl x)
      then have "e = GameErr ErrInvalidDie" using run o rd Inr d
        by (auto simp: SettleRound_def Round_Settle_def OutcomeOf_def split: if_splits)
      then show ?thesis using e by simp
    next
      case (Inr oc)
      then show ?thesis using run o rd(1) d \<open>roll = Inr d\<close> Round_Settle_ok [OF wfr Inr] by (simp add: SettleRound_def)
    qed
  qed
qed

lemma Roll_quiet: "Roll X w = (Inl e, w') \<Longrightarrow> e \<notin> quiet"
  by (auto simp: Roll_def bnd_run rollOne_def ret_def split: option.splits)

lemma not_betting:
  assumes s: "store_ok X d" and g: "game_ok d" and r: "r \<in> set (db_rooms d)"
    and c: "mr_Status r = RoomClosed \<or> \<not> live_round (abs_room d r)"
  shows "mr_ID r \<notin> betting_ids d"
proof
  have sch: "schema_ok d" using s by (simp add: store_ok_def)
  assume "mr_ID r \<in> betting_ids d"
  then obtain q row where q: "q \<in> set (db_rooms d)" "mr_ID q = mr_ID r" "mr_Status q \<noteq> RoomClosed"
    and row: "row \<in> set (db_rounds d)" "dr_RoomID row = mr_ID q" "dr_Status row = RoundBetting" by (auto simp: betting_ids_def)
  have "q = r" using room_unique [OF sch r q(1)] q(2) by simp
  moreover have "current_row d (mr_ID q) = Some row" by (rule live_row_unique [OF sch g q(1,3) row])
  ultimately have "rm_round (abs_room d r) = Some (abs_round d row)" using row(3) by (simp add: abs_room_round)
  then have "live_round (abs_room d r)" using row(3) by (simp add: live_round_def)
  with c q \<open>q = r\<close> show False by simp
qed

lemma SettleRound_live_quiet:
  assumes u: "uuid_canonical X" and run: "SettleRound_live X room loaded w = (Inl e, w')" and e: "e \<in> quiet"
    and s: "store_ok X (w_db w)" and g: "game_ok (w_db w)" and r: "r \<in> set (db_rooms (w_db w))" and room: "room = abs_room (w_db w) r"
  shows "mr_ID r \<notin> betting_ids (w_db w)"
proof -
  let ?d = "w_db w"
  obtain now w1 roll w2 where n: "Now X w = (Inr now, w1)" and ro: "Roll X w1 = (roll, w2)"
    by (cases "Roll X (w\<lparr>w_ticks := Suc (w_ticks w)\<rparr>)") (auto simp: Now_def)
  obtain res room' where sr: "SettleRound room (Some roll) now = (res, room')" by (rule prod.exhaust)
  have w2: "w_db w2 = ?d" using n readingD [OF reading_off_db [OF off_db_Roll] ro] by (simp add: Now_ok)
  from run n ro sr have k: "bnd (lift res) (\<lambda>results. SettleRound_writes X room'
      (case rm_round room' of None \<Rightarrow> loaded | Some r \<Rightarrow> r) results now) w2 = (Inl e, w')"
    by (simp add: SettleRound_live_def bnd_def attempt_def Let_def)
  have wf: "wf_room (abs_room ?d r)" by (rule game_ok_wf [OF g r])
  show ?thesis
  proof (cases rule: SettleRound_cases [OF wf, of "Some roll" now])
    case (1 x)
    then have "x = e" using k sr room by (auto simp: bnd_def lift_def)
    then have "mr_Status r = RoomClosed \<or> \<not> live_round (abs_room ?d r)"
      using Room_SettleRound_quiet [OF wf] 1 e ro Roll_quiet by fastforce
    then show ?thesis by (rule not_betting [OF s g r])
  next
    case (2 rd d1 d2 oc)
    from 2(1) obtain row where cur: "current_row ?d (mr_ID r) = Some row" and rd: "rd = abs_round ?d row"
      unfolding abs_room_round by blast
    have st: "dr_Status row = RoundBetting" using 2(2) by (simp add: rd)
    have room': "room' = finishRound ((abs_room ?d r)\<lparr>rm_round := Some (settled_round (abs_round ?d row) d1 d2 oc now)\<rparr>) now"
      and res: "res = Inr (map (result_under oc) (round_bets ?d (dr_ID row)))"
      using 2(6) sr by (simp_all add: room rd Bets_abs)
    have "SettleRound_writes X room' (settled_round (abs_round (w_db w2) row) d1 d2 oc now)
        (map (result_under oc) (round_bets (w_db w2) (dr_ID row))) now w2 = (Inl e, w')"
      using k by (simp add: res room' w2 bnd_def lift_def)
    from SettleRound_writes_quiet [OF u _ _ _ _ st _ this, of r] s g r cur e room' show ?thesis by (simp add: w2)
  qed
qed

lemma SettleRound_tx_quiet:
  assumes u: "uuid_canonical X" and run: "SettleRound_tx X roomID w = (Inl e, w')" and e: "e \<in> quiet"
    and s: "store_ok X (w_db w)" and g: "game_ok (w_db w)" and i: "x_uuid X roomID = Some i"
  shows "i \<notin> betting_ids (w_db w)"
proof -
  let ?d = "w_db w"
  from run show ?thesis
    unfolding SettleRound_tx_def
  proof (cases rule: bnd_failed)
    case 1
    from Room_load_quiet [OF 1 [unfolded Room_GetForUpdate_def] e i] show ?thesis
      by (auto simp: betting_ids_def has_room_def list_ex_iff)
  next
    case (2 room0 w1)
    from Room_load_ok [OF s 2(1) [unfolded Room_GetForUpdate_def]] i obtain r where
      r: "mr_ID r = i" "r \<in> set (db_rooms ?d)" "room0 = bare_room ?d r" and w1: "w_db w1 = ?d" by (metis option.inject)
    have c: "cid X i" using s r by (auto simp: store_ok_def canonical_rows_def)
    from 2(2) show ?thesis
    proof (cases rule: bnd_failed)
      case 1
      then show ?thesis using avoidsD [OF avoids_attachLiveRound 1] e c r by (simp add: cid_def bare_room_def)
    next
      case (2 lr w2)
      obtain live room1 where lr: "lr = (live, room1)" by (rule prod.exhaust)
      have a: "live = map_option (abs_round ?d) (current_row ?d i)" "room1 = abs_room ?d r" "w_db w2 = ?d"
        using attachLiveRound_ok [of X w1 r live room1 w2] 2(1) r s w1 lr by simp_all
      have wf: "wf_room (abs_room ?d r)" by (rule game_ok_wf [OF g r(2)])
      show ?thesis
      proof (cases live)
        case None
        then have "\<not> live_round (abs_room ?d r)" using a abs_room_round [of ?d r] r by (auto simp: live_round_def split: option.splits)
        then show ?thesis using not_betting [OF s g r(2)] r(1) by simp
      next
        case (Some loaded)
        then have "SettleRound_live X room1 loaded w2 = (Inl e, w')" using 2(2) lr by simp
        from SettleRound_live_quiet [OF u this e, of r] a s g r show ?thesis by simp
      qed
    qed
  qed
qed

text \<open>The same for an abort: it reports a closed room only when the room has no live round to abort.\<close>

lemma avoids_mono: "avoids S m \<Longrightarrow> T \<subseteq> S \<Longrightarrow> avoids T m"
  unfolding avoids_def by blast

lemma avoids_each: "(\<And>x. avoids S (f x)) \<Longrightarrow> avoids S (each f xs)"
  by (induction xs) (auto intro: avoid_rules)

lemma avoids_collect: "(\<And>x. avoids S (f x)) \<Longrightarrow> avoids S (collect f xs)"
  by (induction xs) (auto intro: avoid_rules)

lemma avoids_refund: "avoids quiet (refund X p a rid now)"
  unfolding refund_def by (intro avoid_rules)

lemma avoids_refund_round: "avoids quiet (refund_round X now rnd)"
  unfolding refund_round_def by (auto intro!: avoids_each avoids_refund avoid_rules)

lemma quiet_closed: "{GameErr ErrRoomClosed} \<subseteq> quiet"
  by simp

lemma avoids_closed:
  "avoids {GameErr ErrRoomClosed} (Round_ListByRoom X i)" "avoids {GameErr ErrRoomClosed} (UpdateStatus X i st c)"
  "avoids {GameErr ErrRoomClosed} (each (refund_round X now) rounds)" "avoids {GameErr ErrRoomClosed} (memberBalances X members)"
proof -
  show "avoids {GameErr ErrRoomClosed} (Round_ListByRoom X i)" unfolding Round_ListByRoom_def
    by (intro avoid_rules avoids_collect avoids_mono [OF avoids_hydrate quiet_closed]) simp_all
  show "avoids {GameErr ErrRoomClosed} (UpdateStatus X i st c)" unfolding UpdateStatus_def by (intro avoid_rules) auto
  show "avoids {GameErr ErrRoomClosed} (each (refund_round X now) rounds)"
    by (intro avoids_each avoids_mono [OF avoids_refund_round quiet_closed])
  show "avoids {GameErr ErrRoomClosed} (memberBalances X members)" by (rule avoids_mono [OF avoids_memberBalances quiet_closed])
qed

lemma AbortRoom_tx_closed:
  assumes run: "AbortRoom_tx X roomID reason w = (Inl (GameErr ErrRoomClosed), w')"
    and s: "store_ok X (w_db w)" and g: "game_ok (w_db w)" and i: "x_uuid X roomID = Some i"
  shows "i \<notin> betting_ids (w_db w)"
proof -
  let ?d = "w_db w"
  from run show ?thesis
    unfolding AbortRoom_tx_def
  proof (cases rule: bnd_failed)
    case 1
    have "GameErr ErrRoomClosed \<in> quiet" by simp
    from Room_load_quiet [OF 1 [unfolded Room_GetForUpdate_def] this i] show ?thesis
      by (auto simp: betting_ids_def has_room_def list_ex_iff)
  next
    case (2 room w1)
    from Room_load_ok [OF s 2(1) [unfolded Room_GetForUpdate_def]] i obtain r where
      r: "mr_ID r = i" "r \<in> set (db_rooms ?d)" "room = bare_room ?d r" by (metis option.inject)
    have "rm_Status room = RoomClosed"
    proof (rule ccontr)
      assume o: "rm_Status room \<noteq> RoomClosed"
      have "avoids {GameErr ErrRoomClosed} (bnd (Round_ListByRoom X (rm_ID room)) (\<lambda>rounds.
         bnd (Now X) (\<lambda>now. bnd (each (refund_round X now) rounds) (\<lambda>_.
         let room = ForceClose room now in
         bnd (UpdateStatus X (rm_ID room) (rm_Status room) (rm_ClosedAt room)) (\<lambda>_.
         bnd (memberBalances X (Players room)) (\<lambda>balances.
         ret (\<lparr>co_RoomID = rm_ID room, co_Status = rm_Status room, co_Closed = True, co_Reason = reason,
               co_Members = Players room, co_Balances = balances\<rparr>, summaryOf room)))))))"
        unfolding Let_def by (intro avoid_rules avoids_closed)
      from avoidsD [OF this] 2(2) o show False by auto
    qed
    then have "mr_Status r = RoomClosed" by (simp add: r bare_room_def)
    then show ?thesis using not_betting [OF s g r(2)] r(1) by simp
  qed
qed

end
