(* ===== verification/Engine_Alarms.thy ===== *)
theory Engine_Alarms
  imports Engine_System Settle_Errors
begin

text \<open>
  No round is left without an alarm: as long as commits are acknowledged, every unsettled round of
  an active room has a loop with an armed timer, unless the engine has logged that it could
  not abort that room.
\<close>

section \<open>What the requests do to the rooms with a live round\<close>

lemma betting_iff:
  "i \<in> betting_ids d \<longleftrightarrow> (\<exists>r \<in> set (db_rooms d). mr_ID r = i \<and> mr_Status r \<noteq> RoomClosed) \<and>
     (\<exists>row \<in> set (db_rounds d). dr_RoomID row = i \<and> dr_Status row = RoundBetting)"
  unfolding betting_ids_def by blast

lemma betting_frame: "db_rooms d' = db_rooms d \<Longrightarrow> db_rounds d' = db_rounds d \<Longrightarrow> betting_ids d' = betting_ids d"
  by (simp add: betting_ids_def)

lemma betting_besides: "besides d' = besides d \<Longrightarrow> betting_ids d' = betting_ids d"
  using besides_tables by (intro betting_frame) blast+

lemma betting_moved: "pg.moved p x w w' \<Longrightarrow> betting_ids (w_db w') = betting_ids (w_db w)"
  by (rule betting_besides) (simp add: pg.moved_def)

text \<open>Rooms whose status only moves to closed.\<close>

lemma betting_status:
  assumes "\<And>q. q \<in> set (db_rooms d) \<Longrightarrow> mr_ID q = i \<Longrightarrow> st \<noteq> RoomClosed \<Longrightarrow> mr_Status q \<noteq> RoomClosed"
  shows "betting_ids (upd_room i (\<lambda>r. r\<lparr>mr_Status := st, mr_ClosedAt := c\<rparr>) d) \<subseteq> (if st = RoomClosed then betting_ids d - {i} else betting_ids d)"
proof
  let ?f = "\<lambda>r. if mr_ID r = i then r\<lparr>mr_Status := st, mr_ClosedAt := c\<rparr> else r"
  fix j assume "j \<in> betting_ids (upd_room i (\<lambda>r. r\<lparr>mr_Status := st, mr_ClosedAt := c\<rparr>) d)"
  then obtain q row where q: "q \<in> set (db_rooms d)" "mr_ID (?f q) = j" "mr_Status (?f q) \<noteq> RoomClosed"
    and row: "row \<in> set (db_rounds d)" "dr_RoomID row = j" "dr_Status row = RoundBetting"
    by (auto simp: betting_iff upd_room_def)
  have "mr_ID q = j" using q(2) by (simp split: if_splits)
  moreover have "j = i \<Longrightarrow> st \<noteq> RoomClosed" "mr_Status q \<noteq> RoomClosed"
    using q assms [OF q(1)] calculation by (auto split: if_splits)
  ultimately show "j \<in> (if st = RoomClosed then betting_ids d - {i} else betting_ids d)"
    using q(1) row by (auto simp: betting_iff)
qed

lemma PlaceBet_betting:
  assumes "uuid_canonical X" and "PlaceBet_tx X rm p ch a w = (Inr x, w')" and "play_ok X (w_db w)"
  shows "betting_ids (w_db w') = betting_ids (w_db w)"
proof -
  have s: "store_ok X (w_db w)" using assms(3) by (simp add: play_ok_def)
  from assms(1,2) s show ?thesis
  proof (rule PlaceBet_tx_ok)
    fix bid row now and w1 :: "'a world"
    assume w1: "w_db w1 = (w_db w)\<lparr>db_bets := db_bets (w_db w) @ [\<lparr>br_ID = bid, br_RoundID = dr_ID (row :: RoundRow),
       br_PlayerID = p, br_Choice = ch, br_Amount = a, br_Won = None, br_Payout = None,
       br_PlacedAt = now, br_SettledAt = None\<rparr>]\<rparr>" and m: "pg.moved p (- sint a) w1 w'"
    from betting_moved [OF m] w1 show ?thesis by (simp add: betting_ids_def)
  qed
qed

lemma CloseRoom_betting:
  assumes "CloseRoom_tx X rm who reason w = (Inr x, w')" and "play_ok X (w_db w)"
  shows "\<exists>i. x_uuid X rm = Some i \<and> betting_ids (w_db w') \<subseteq> (if co_Closed (fst x) then betting_ids (w_db w) - {i} else betting_ids (w_db w))"
proof -
  have s: "store_ok X (w_db w)" and sch: "schema_ok (w_db w)" using assms(2) by (simp_all add: play_ok_def store_ok_def)
  from assms(1) s show ?thesis
  proof (rule CloseRoom_tx_ok)
    fix r now room
    assume r: "x_uuid X rm = Some (mr_ID r)" "r \<in> set (db_rooms (w_db w))" and c: "Close (abs_room (w_db w) r) who now = Inr room"
      and w': "w_db w' = upd_room (mr_ID r) (\<lambda>r. r\<lparr>mr_Status := rm_Status room, mr_ClosedAt := rm_ClosedAt room\<rparr>) (w_db w)"
      and o: "co_Closed (fst x) = (rm_Status room = RoomClosed)"
    have "mr_Status r \<noteq> RoomClosed" using c by (auto simp: Close_def split: if_splits)
    then have "mr_Status q \<noteq> RoomClosed" if "q \<in> set (db_rooms (w_db w))" "mr_ID q = mr_ID r" for q
      using room_unique [OF sch r(2) that] by simp
    then have "betting_ids (w_db w') \<subseteq> (if rm_Status room = RoomClosed then betting_ids (w_db w) - {mr_ID r} else betting_ids (w_db w))"
      unfolding w' by (intro betting_status) blast
    with r(1) o show ?thesis by auto
  qed
qed

lemma AbortRoom_betting:
  assumes "uuid_canonical X" and "AbortRoom_tx X rm reason w = (Inr x, w')" and "play_ok X (w_db w)"
  shows "\<exists>i. x_uuid X rm = Some i \<and> betting_ids (w_db w') \<subseteq> betting_ids (w_db w) - {i}"
proof -
  have s: "store_ok X (w_db w)" and g: "game_ok (w_db w)" using assms(3) by (simp_all add: play_ok_def)
  from assms(1,2) s g show ?thesis
    by (rule AbortRoom_tx_exact) (auto simp: betting_ids_def split: if_splits)
qed

lemma SettleRound_betting:
  assumes u: "uuid_canonical X" and run: "SettleRound_tx X rm w = (Inr x, w')" and ok: "play_ok X (w_db w)"
  shows "\<exists>i. x_uuid X rm = Some i \<and> betting_ids (w_db w') \<subseteq> betting_ids (w_db w) - {i}"
proof -
  have s: "store_ok X (w_db w)" and g: "game_ok (w_db w)" using ok by (simp_all add: play_ok_def)
  have sch: "schema_ok (w_db w)" using s by (simp add: store_ok_def)
  from u run s g show ?thesis
  proof (rule SettleRound_tx_ok)
    fix r row d1 d2 oc now room db
    assume r: "r \<in> set (db_rooms (w_db w))" "x_uuid X rm = Some (mr_ID r)" and o: "mr_Status r \<noteq> RoomClosed"
      and cur: "current_row (w_db w) (mr_ID r) = Some row"
      and sg: "same_game ((w_db w)\<lparr>db_rounds := map (\<lambda>q. if q = row then settle_row d1 d2 oc now row else q) (db_rounds (w_db w))\<rparr>) db"
      and db: "w_db w' = (if rm_Status room = RoomClosed
         then upd_room (mr_ID r) (\<lambda>r. r\<lparr>mr_Status := RoomClosed, mr_ClosedAt := rm_ClosedAt room\<rparr>) db else db)"
    have st: "dr_Status (settle_row d1 d2 oc now row) \<noteq> RoundBetting" by (simp add: settle_row_def RoundBetting_def)
    have "q = row" if "q \<in> set (db_rounds (w_db w))" "dr_RoomID q = mr_ID r" "dr_Status q = RoundBetting" for q
      using live_row_unique [OF sch g r(1) o that] cur by simp
    then have "betting_ids db \<subseteq> betting_ids (w_db w) - {mr_ID r}"
      using sg st by (fastforce simp: betting_ids_def same_game_def)
    moreover have "betting_ids (upd_room (mr_ID r) (\<lambda>r. r\<lparr>mr_Status := RoomClosed, mr_ClosedAt := rm_ClosedAt room\<rparr>) db) \<subseteq> betting_ids db"
      using betting_status [of db "mr_ID r" RoomClosed] by auto
    ultimately have "betting_ids (w_db w') \<subseteq> betting_ids (w_db w) - {mr_ID r}" by (auto simp: db)
    with r(2) show ?thesis by blast
  qed
qed

lemma StartRound_betting:
  assumes u: "uuid_canonical X" and run: "StartRound_tx X window rm who w = (Inr x, w')" and ok: "play_ok X (w_db w)"
  shows "\<exists>i. x_uuid X rm = Some i \<and> betting_ids (w_db w') \<subseteq> insert i (betting_ids (w_db w))"
proof -
  have s: "store_ok X (w_db w)" and g: "game_ok (w_db w)" using ok by (simp_all add: play_ok_def)
  from u run s g show ?thesis
  proof (rule StartRound_tx_ok)
    fix r i now t
    let ?row = "\<lparr>dr_ID = i, dr_RoomID = mr_ID r, dr_Number = mr_CurrentRound r + 1, dr_BettingOpensAt = now, dr_BettingClosesAt = now + window,
       dr_Die1 = None, dr_Die2 = None, dr_Outcome = None, dr_Status = RoundBetting, dr_CreatedAt = t, dr_SettledAt = None\<rparr>"
    assume r: "x_uuid X rm = Some (mr_ID r)"
      and w': "w_db w' = upd_room (mr_ID r) (\<lambda>q. q\<lparr>mr_CurrentRound := mr_CurrentRound r + 1\<rparr>) ((w_db w)\<lparr>db_rounds := db_rounds (w_db w) @ [?row]\<rparr>)"
    have "j \<in> insert (mr_ID r) (betting_ids (w_db w))" if "j \<in> betting_ids (w_db w')" for j
      using that by (cases "j = mr_ID r") (auto simp: betting_iff w' upd_room_def split: if_splits)
    with r show ?thesis by blast
  qed
qed

lemma JoinRoom_betting:
  assumes u: "uuid_canonical X" and run: "JoinRoom_tx X rm p w = (Inr x, w')" and ok: "play_ok X (w_db w)"
  shows "betting_ids (w_db w') = betting_ids (w_db w)"
proof -
  have s: "store_ok X (w_db w)" and g: "game_ok (w_db w)" using ok by (simp_all add: play_ok_def)
  from u run s g show ?thesis by (rule JoinRoom_tx_ok) (auto intro!: betting_frame)
qed

lemma CreateRoom_betting:
  assumes run: "CreateRoom_tx X owner room w = (Inr x, w')" and new: "NewRoom rid owner now = Inr room" and ok: "play_ok X (w_db w)"
  shows "betting_ids (w_db w') = betting_ids (w_db w)"
proof -
  have s: "store_ok X (w_db w)" and sch: "schema_ok (w_db w)" using ok by (simp_all add: play_ok_def store_ok_def)
  from run new s show ?thesis
  proof (rule CreateRoom_tx_ok)
    fix i p row
    assume n: "\<not> has_room (w_db w) i" and row: "row = \<lparr>mr_ID = i, mr_OwnerID = p, mr_Status = RoomOpen, mr_MaxRounds = 10, mr_MaxPlayers = 6,
       mr_CurrentRound = 0, mr_CreatedAt = now, mr_ClosedAt = None\<rparr>"
      and w': "w_db w' = (w_db w)\<lparr>db_rooms := db_rooms (w_db w) @ [row], db_room_players := db_room_players (w_db w) @
       [\<lparr>sr_RoomID = i, sr_PlayerID = p, sr_JoinedAt = now\<rparr>]\<rparr>"
    have "dr_RoomID q \<noteq> i" if "q \<in> set (db_rounds (w_db w))" for q
      using no_references(2) [OF sch n] that by (auto simp: rounds_of_def filter_empty_conv)
    then show ?thesis by (auto simp: betting_ids_def w' row)
  qed
qed

section \<open>Requests keep the set of rooms with a live round\<close>

lemma keeps_betting:
  assumes "keeps (play_ok X) fn" and "\<And>w x w'. fn w = (Inr x, w') \<Longrightarrow> play_ok X (w_db w) \<Longrightarrow> betting_ids (w_db w') \<subseteq> betting_ids (w_db w)"
  shows "keeps (\<lambda>d. play_ok X d \<and> betting_ids d \<subseteq> A) fn"
proof (rule keepsI)
  fix w x w' assume run: "fn w = (Inr x, w')" and ok: "play_ok X (w_db w) \<and> betting_ids (w_db w) \<subseteq> A"
  with keepsD [OF assms(1) run] assms(2) [OF run] show "play_ok X (w_db w') \<and> betting_ids (w_db w') \<subseteq> A" by blast
qed

lemma Register_betting:
  assumes "uuid_canonical X"
  shows "preserves (\<lambda>d. play_ok X d \<and> betting_ids d \<subseteq> A) (RegisterUC X email password)"
proof -
  have "preserves (\<lambda>d. betting_ids d \<subseteq> A) (Player_Create X p)" for p
  proof (rule preserves_steady)
    show "txfree (Player_Create X p)" unfolding Player_Create_def by (intro txfree_rules)
    show "steady (\<lambda>d. betting_ids d \<subseteq> A) (Player_Create X p)"
      unfolding Player_Create_def
      by (intro steady_bnd steady_on_error steady_basic steady_exec) (auto simp: CreatePlayer_def ok_inv betting_ids_def)
  qed
  then have "preserves (\<lambda>d. betting_ids d \<subseteq> A) (RegisterUC X email password)"
    unfolding RegisterUC_def by (intro pres_rules preserves_off_db [OF off_db_Hash])
  with RegisterUC_preserves_play [OF assms] show ?thesis by (rule preserves_conj)
qed

lemma moves_betting:
  assumes u: "uuid_canonical X"
  shows "keeps (\<lambda>d. play_ok X d \<and> betting_ids d \<subseteq> A) (Deposit_tx X i a)" "keeps (\<lambda>d. play_ok X d \<and> betting_ids d \<subseteq> A) (Withdraw_tx X i a)"
  by (rule keeps_betting [OF keeps_moves_play(1) [OF u]], metis Deposit_tx_moves [OF u] betting_moved order_refl)
     (rule keeps_betting [OF keeps_moves_play(2) [OF u]], metis Withdraw_tx_moves [OF u] betting_moved order_refl)

lemma wallet_betting:
  assumes "uuid_canonical X"
  shows "preserves (\<lambda>d. play_ok X d \<and> betting_ids d \<subseteq> A) (Deposit X i a)" "preserves (\<lambda>d. play_ok X d \<and> betting_ids d \<subseteq> A) (Withdraw X i a)"
  unfolding Deposit_def Withdraw_def by (intro pres_rules preserves_keeps moves_betting [OF assms])+

lemma outside_betting:
  assumes u: "uuid_canonical X" and out: "outside_engine req"
  shows "preserves (\<lambda>d. play_ok X d \<and> betting_ids d \<subseteq> A) (serve X ttl window req)"
proof -
  have j: "keeps (\<lambda>d. play_ok X d \<and> betting_ids d \<subseteq> A) (JoinRoom_tx X rm p)" for rm p
    by (rule keeps_betting [OF keeps_JoinRoom_play [OF u]]) (metis JoinRoom_betting [OF u] order_refl)
  have c: "keeps (\<lambda>d. play_ok X d \<and> betting_ids d \<subseteq> A) (CreateRoom_tx X owner room)" if "NewRoom i owner now = Inr room" for owner room i now
    by (rule keeps_betting [OF keeps_CreateRoom_play [OF u that]]) (metis CreateRoom_betting [OF _ that] order_refl)
  show ?thesis
    using out
    by (cases req) (auto intro!: j c preserves_done Register_betting preserves_queries wallet_betting preserves_CreateRoomUC
        preserves_JoinRoomUC preserves_ListOpenRoomsUC preserves_RoomStateUC u)
qed

lemma engine_betting:
  assumes u: "uuid_canonical X"
  shows "preserves (\<lambda>d. play_ok X d \<and> betting_ids d \<subseteq> A) (PlaceBetUC X rm p ch a)"
    "preserves (\<lambda>d. play_ok X d \<and> betting_ids d \<subseteq> A) (CloseRoomUC X rm who reason)"
    "preserves (\<lambda>d. play_ok X d \<and> betting_ids d \<subseteq> A) (SettleRoundUC X rm)"
    "preserves (\<lambda>d. play_ok X d \<and> betting_ids d \<subseteq> A) (AbortRoomUC X rm reason)"
proof -
  show "preserves (\<lambda>d. play_ok X d \<and> betting_ids d \<subseteq> A) (PlaceBetUC X rm p ch a)"
    by (intro preserves_PlaceBetUC keeps_betting [OF keeps_PlaceBet_play [OF u]]) (metis PlaceBet_betting [OF u] order_refl)
  show "preserves (\<lambda>d. play_ok X d \<and> betting_ids d \<subseteq> A) (CloseRoomUC X rm who reason)"
    by (intro preserves_CloseRoomUC keeps_betting [OF keeps_CloseRoom_play [OF u]]) (auto dest!: CloseRoom_betting split: if_splits)
  show "preserves (\<lambda>d. play_ok X d \<and> betting_ids d \<subseteq> A) (SettleRoundUC X rm)"
    by (intro preserves_SettleRoundUC keeps_betting [OF keeps_SettleRound_play [OF u]]) (metis SettleRound_betting [OF u] Diff_subset order_trans)
  show "preserves (\<lambda>d. play_ok X d \<and> betting_ids d \<subseteq> A) (AbortRoomUC X rm reason)"
    by (intro preserves_AbortRoomUC keeps_betting [OF keeps_AbortRoom_play [OF u]]) (metis AbortRoom_betting [OF u] Diff_subset order_trans)
qed

section \<open>The use cases the loops run\<close>

text \<open>A world between two transactions, and the documented refusal of blank text by \<open>uuid.Parse\<close>.\<close>

definition idle_world :: "'r ext \<Rightarrow> 'r world \<Rightarrow> bool" where
  "idle_world X w \<longleftrightarrow> w_tx w = NoTx \<and> play_ok X (w_db w)"

definition uuid_not_blank :: "'r ext \<Rightarrow> bool" where
  "uuid_not_blank X \<longleftrightarrow> (\<forall>s. blank s \<longrightarrow> x_uuid X s = None)"

lemma idle_parts: "idle_world X w \<Longrightarrow> w_tx w = NoTx \<and> play_ok X (w_db w) \<and> store_ok X (w_db w) \<and> game_ok (w_db w)"
  by (simp add: idle_world_def play_ok_def)

lemma betting_run:
  assumes "\<And>A. preserves (\<lambda>d. play_ok X d \<and> betting_ids d \<subseteq> A) m" and "m w = (r, w')" and "idle_world X w"
  shows "idle_world X w' \<and> betting_ids (w_db w') \<subseteq> betting_ids (w_db w)"
  using preservesD [OF assms(1) [of "betting_ids (w_db w)"] assms(2)] assms(3) by (simp add: idle_world_def)

lemma tx_then_failed:
  assumes "bnd (WithinTx X fn) (\<lambda>(out, s). bnd (k out s) (\<lambda>_. ret out)) w = (Inl (GameErr g), w')" and "w_tx w = NoTx"
    and "\<And>out s. nofail (k out s)"
  obtains w2 where "fn (w\<lparr>w_calls := Suc (w_calls w), w_tx := InTx\<rparr>) = (Inl (GameErr g), w2)"
proof -
  from assms(1) have "WithinTx X fn w = (Inl (GameErr g), w')"
  proof (cases rule: bnd_failed)
    case (2 x w1)
    then show ?thesis using assms(3) [of "fst x" "snd x"] by (auto simp: bnd_run ret_def nofail_def split: prod.splits)
  qed
  from WithinTx_game_error [OF this assms(2)] show ?thesis using that by blast
qed

lemma Settle_done:
  assumes u: "uuid_canonical X" and i: "idle_world X w" and run: "SettleRoundUC X s w = (Inr out, w')"
  shows "\<exists>j. x_uuid X s = Some j \<and> j \<notin> betting_ids (w_db w')"
proof -
  from run have "bnd (WithinTx X (SettleRound_tx X s)) (\<lambda>(out, summary).
      bnd (finalizeRoomCache X (se_RoomID out) summary (se_RoomClosed out) (se_Members out)) (\<lambda>_. ret out)) w = (Inr out, w')"
    by (auto simp: SettleRoundUC_def fail_def split: if_splits)
  from this idle_parts [OF i, THEN conjunct1] off_db_finalizeRoomCache obtain sm w2 where
    t: "SettleRound_tx X s (w\<lparr>w_calls := Suc (w_calls w), w_tx := InTx\<rparr>) = (Inr (out, sm), w2)" and w2: "w_db w' = w_db w2"
    by (rule tx_then_cache)
  from SettleRound_betting [OF u t] idle_parts [OF i] w2 show ?thesis by auto
qed

lemma Settle_quiet:
  assumes u: "uuid_canonical X" and nb: "uuid_not_blank X" and i: "idle_world X w" and run: "SettleRoundUC X s w = (Inl e, w')"
    and e: "e \<in> quiet" and j: "x_uuid X s = Some j"
  shows "j \<notin> betting_ids (w_db w')"
proof -
  obtain g where g: "e = GameErr g" using quiet_game [OF e] by blast
  have "\<not> blank s" using nb j by (auto simp: uuid_not_blank_def)
  then have "bnd (WithinTx X (SettleRound_tx X s)) (\<lambda>(out, summary).
      bnd (finalizeRoomCache X (se_RoomID out) summary (se_RoomClosed out) (se_Members out)) (\<lambda>_. ret out)) w = (Inl (GameErr g), w')"
    using run by (simp add: SettleRoundUC_def g)
  from this idle_parts [OF i, THEN conjunct1] nofail_finalizeRoomCache obtain w2 where
    "SettleRound_tx X s (w\<lparr>w_calls := Suc (w_calls w), w_tx := InTx\<rparr>) = (Inl (GameErr g), w2)" by (rule tx_then_failed)
  from SettleRound_tx_quiet [OF u this _ _ _ j] e idle_parts [OF i] have "j \<notin> betting_ids (w_db w)" by (simp add: g)
  with betting_run [OF engine_betting(3) [OF u] run i] show ?thesis by blast
qed

lemma Abort_done:
  assumes u: "uuid_canonical X" and i: "idle_world X w" and run: "AbortRoomUC X s reason w = (Inr out, w')"
  shows "\<exists>j. x_uuid X s = Some j \<and> j \<notin> betting_ids (w_db w')"
proof -
  have p: "play_ok X (w_db w)" "w_tx w = NoTx" using idle_parts [OF i] by simp_all
  from u p run show ?thesis by (rule AbortRoomUC_ok) (auto simp: betting_iff split: if_splits)
qed

lemma Abort_closed:
  assumes u: "uuid_canonical X" and nb: "uuid_not_blank X" and i: "idle_world X w"
    and run: "AbortRoomUC X s reason w = (Inl (GameErr ErrRoomClosed), w')" and j: "x_uuid X s = Some j"
  shows "j \<notin> betting_ids (w_db w')"
proof -
  let ?re = "if reason = [] then ReasonShutdown else reason"
  have "\<not> blank s" using nb j by (auto simp: uuid_not_blank_def)
  then have "bnd (WithinTx X (AbortRoom_tx X s ?re)) (\<lambda>(out, summary).
      bnd (finalizeRoomCache X (co_RoomID out) summary True (co_Members out)) (\<lambda>_. ret out)) w = (Inl (GameErr ErrRoomClosed), w')"
    using run by (simp add: AbortRoomUC_def Let_def)
  from this idle_parts [OF i, THEN conjunct1] nofail_finalizeRoomCache obtain w2 where
    "AbortRoom_tx X s ?re (w\<lparr>w_calls := Suc (w_calls w), w_tx := InTx\<rparr>) = (Inl (GameErr ErrRoomClosed), w2)" by (rule tx_then_failed)
  from AbortRoom_tx_closed [OF this _ _ j] idle_parts [OF i] have "j \<notin> betting_ids (w_db w)" by simp
  with betting_run [OF engine_betting(4) [OF u] run i] show ?thesis by blast
qed

lemma Close_done:
  assumes i: "idle_world X w" and run: "CloseRoomUC X s who reason w = (Inr out, w')" and c: "co_Closed out"
  shows "\<exists>j. x_uuid X s = Some j \<and> j \<notin> betting_ids (w_db w')"
proof -
  let ?re = "if reason = [] then ReasonOwnerClosed else reason"
  from run have "bnd (WithinTx X (CloseRoom_tx X s who ?re)) (\<lambda>(out, summary).
      bnd (finalizeRoomCache X (co_RoomID out) summary (co_Closed out) (co_Members out)) (\<lambda>_. ret out)) w = (Inr out, w')"
    by (auto simp: CloseRoomUC_def Let_def fail_def split: if_splits)
  from this idle_parts [OF i, THEN conjunct1] off_db_finalizeRoomCache obtain sm w2 where
    t: "CloseRoom_tx X s who ?re (w\<lparr>w_calls := Suc (w_calls w), w_tx := InTx\<rparr>) = (Inr (out, sm), w2)" and w2: "w_db w' = w_db w2"
    by (rule tx_then_cache)
  from CloseRoom_betting [OF t] idle_parts [OF i] w2 c show ?thesis by auto
qed

lemma Start_done:
  assumes u: "uuid_canonical X" and i: "idle_world X w" and run: "StartRoundUC X window s who w = (Inr out, w')"
  shows "\<exists>j. x_uuid X s = Some j \<and> betting_ids (w_db w') \<subseteq> insert j (betting_ids (w_db w))"
proof -
  from run have "bnd (WithinTx X (StartRound_tx X (start_window window) s who)) (\<lambda>(out, summary).
      bnd (attempt (SaveRoom X summary roomCacheTTL)) (\<lambda>_. ret out)) w = (Inr out, w')"
    by (auto simp: StartRoundUC_def fail_def split: if_splits)
  then obtain sm w1 where t: "WithinTx X (StartRound_tx X (start_window window) s who) w = (Inr (out, sm), w1)"
    and c: "w_db w' = w_db w1"
    by (auto simp: run_ok dest: off_dbD [OF off_db_attempt [OF off_db_stores(4)]])
  from t idle_parts [OF i, THEN conjunct1] obtain w2 where
    b: "StartRound_tx X (start_window window) s who (w\<lparr>w_calls := Suc (w_calls w), w_tx := InTx\<rparr>) = (Inr (out, sm), w2)"
    and w1: "w1 = w2\<lparr>w_calls := Suc (w_calls w2), w_tx := NoTx\<rparr>" by (rule WithinTx_ok)
  from StartRound_betting [OF u b] idle_parts [OF i] c w1 show ?thesis by simp
qed

section \<open>Every live round has an alarm\<close>

text \<open>A room is looked after when a waiting loop has its alarm armed, or a failed abort was logged.\<close>

definition looked_after :: "'r ext \<Rightarrow> 'r Engine \<Rightarrow> id \<Rightarrow> bool" where
  "looked_after X e i \<longleftrightarrow>
     (\<exists>l. in_phase e l Selecting \<and> alarm (en_heap e ! l) \<and> x_uuid X (rl_roomID (en_heap e ! l)) = Some i) \<or>
     (\<exists>s reason err. FailedToAbort s reason err \<in> set (en_logs e) \<and> x_uuid X s = Some i)"

definition timed :: "'r ext \<Rightarrow> 'r Engine \<Rightarrow> bool" where
  "timed X e \<longleftrightarrow> (\<forall>i \<in> betting_ids (w_db (en_world e)). looked_after X e i)"

definition sent_ok :: "'r Engine \<Rightarrow> bool" where
  "sent_ok e \<longleftrightarrow> (\<forall>c \<in> set (en_callers e). ca_state c = Sending \<longrightarrow> rl_roomID (en_heap e ! ca_loop c) = command_room (ca_cmd c))"

text \<open>Steps that leave the waiting loops as they are.\<close>

lemma looked_after_mono:
  assumes "looked_after X e i" and "set (en_logs e) \<subseteq> set (en_logs e')"
    and "\<And>k. in_phase e k Selecting \<Longrightarrow> alarm (en_heap e ! k) \<Longrightarrow> x_uuid X (rl_roomID (en_heap e ! k)) = Some i \<Longrightarrow>
      in_phase e' k Selecting \<and> alarm (en_heap e' ! k) \<and> rl_roomID (en_heap e' ! k) = rl_roomID (en_heap e ! k)"
  shows "looked_after X e' i"
  using assms unfolding looked_after_def by (metis subsetD)

lemma timed_same:
  assumes "timed X e" and "en_heap e' = en_heap e" and "set (en_logs e) \<subseteq> set (en_logs e')"
    and "betting_ids (w_db (en_world e')) \<subseteq> betting_ids (w_db (en_world e))"
  shows "timed X e'"
  unfolding timed_def
proof
  fix i assume "i \<in> betting_ids (w_db (en_world e'))"
  then have "looked_after X e i" using assms(1,4) by (auto simp: timed_def)
  then show "looked_after X e' i" by (rule looked_after_mono) (simp_all add: assms(2,3) in_phase_def)
qed

lemma timed_idle:
  assumes t: "timed X e" and idle: "\<not> (in_phase e l Selecting \<and> alarm (en_heap e ! l))"
    and h: "length (en_heap e') = length (en_heap e)" "\<And>k. k \<noteq> l \<Longrightarrow> en_heap e' ! k = en_heap e ! k"
    and w: "en_world e' = en_world e" "en_logs e' = en_logs e"
  shows "timed X e'"
  unfolding timed_def w
proof
  fix i assume "i \<in> betting_ids (w_db (en_world e))"
  then have "looked_after X e i" using t by (auto simp: timed_def)
  then show "looked_after X e' i"
  proof (rule looked_after_mono)
    fix k assume k: "in_phase e k Selecting" "alarm (en_heap e ! k)"
    then have "k \<noteq> l" using idle by auto
    with k h show "in_phase e' k Selecting \<and> alarm (en_heap e' ! k) \<and> rl_roomID (en_heap e' ! k) = rl_roomID (en_heap e ! k)"
      by (auto simp: in_phase_def)
  qed (simp add: w)
qed

text \<open>A step of one loop: what matters is its own room.\<close>

lemma timed_loop:
  assumes t: "timed X e" and tch: "touches l e e1" and logs: "set (en_logs e) \<subseteq> set (en_logs e1)"
    and sub: "\<And>i. i \<in> betting_ids (w_db (en_world e1)) \<Longrightarrow> x_uuid X (rl_roomID (en_heap e ! l)) = Some i \<or> i \<in> betting_ids (w_db (en_world e))"
    and own: "\<And>i. x_uuid X (rl_roomID (en_heap e ! l)) = Some i \<Longrightarrow> i \<in> betting_ids (w_db (en_world e1)) \<Longrightarrow> looked_after X (leave_if b l e1) i"
  shows "timed X (leave_if b l e1)"
  unfolding timed_def
proof
  fix i assume "i \<in> betting_ids (w_db (en_world (leave_if b l e1)))"
  then have i: "i \<in> betting_ids (w_db (en_world e1))" by simp
  show "looked_after X (leave_if b l e1) i"
  proof (cases "x_uuid X (rl_roomID (en_heap e ! l)) = Some i")
    case True
    then show ?thesis using own i by blast
  next
    case False
    then have "looked_after X e i" using sub [OF i] t by (auto simp: timed_def)
    then show ?thesis
    proof (rule looked_after_mono)
      show "set (en_logs e) \<subseteq> set (en_logs (leave_if b l e1))" using logs by (simp add: leave_if_def set_loop_def)
      fix k assume "in_phase e k Selecting" "alarm (en_heap e ! k)" "x_uuid X (rl_roomID (en_heap e ! k)) = Some i"
      moreover have "k \<noteq> l" using False calculation(3) by auto
      ultimately show "in_phase (leave_if b l e1) k Selecting \<and> alarm (en_heap (leave_if b l e1) ! k) \<and>
          rl_roomID (en_heap (leave_if b l e1) ! k) = rl_roomID (en_heap e ! k)"
        using tch by (auto simp: touches_def in_phase_def leave_if_def set_loop_def)
    qed
  qed
qed

text \<open>Aborting and settling leave the room without a live round, or log the failure.\<close>

definition disposed :: "'r ext \<Rightarrow> string \<Rightarrow> 'r Engine \<Rightarrow> 'r Engine \<Rightarrow> bool" where
  "disposed X s e e' \<longleftrightarrow> set (en_logs e) \<subseteq> set (en_logs e') \<and> idle_world X (en_world e') \<and>
     betting_ids (w_db (en_world e')) \<subseteq> betting_ids (w_db (en_world e)) \<and>
     (\<forall>j. x_uuid X s = Some j \<longrightarrow> j \<in> betting_ids (w_db (en_world e')) \<longrightarrow> (\<exists>reason err. FailedToAbort s reason err \<in> set (en_logs e')))"

lemma logs_sel [simp]:
  "en_logs (set_loop l f e) = en_logs e" "en_logs (notify n e) = en_logs e" "en_logs (log_error g e) = en_logs e @ [g]"
  "en_logs (disarm l e) = en_logs e" "en_logs (leave_if b l e) = en_logs e" "en_logs (set_call j st e) = en_logs e"
  by (simp_all add: set_loop_def notify_def log_error_def disarm_def leave_if_def set_call_def)

lemma in_world_run: "in_world m e = (r, e') \<Longrightarrow> m (en_world e) = (r, en_world e') \<and> en_logs e' = en_logs e \<and> en_heap e' = en_heap e"
  by (auto simp: in_world_def split: prod.splits)

lemma abort_disposed:
  assumes u: "uuid_canonical X" and nb: "uuid_not_blank X" and i: "idle_world X (en_world e)"
  shows "disposed X (rl_roomID (en_heap e ! l)) e (abort X l reason e)"
proof (rule abort_cases [of X e l reason])
  fix e1 err
  assume r: "in_world (AbortRoomUC X (rl_roomID (en_heap e ! l)) reason) e = (Inl err, e1)"
    and a: "abort X l reason e = (if err \<noteq> GameErr ErrRoomClosed then log_error (FailedToAbort (rl_roomID (en_heap e ! l)) reason err) e1 else e1)"
  note w = in_world_run [OF r]
  note b = betting_run [OF engine_betting(4) [OF u] w [THEN conjunct1] i]
  show ?thesis
  proof (cases "err = GameErr ErrRoomClosed")
    case True
    then show ?thesis using a w b Abort_closed [OF u nb i] by (auto simp: disposed_def)
  next
    case False
    then show ?thesis using a w b by (auto simp: disposed_def)
  qed
next
  fix e1 out
  assume r: "in_world (AbortRoomUC X (rl_roomID (en_heap e ! l)) reason) e = (Inr out, e1)"
    and a: "abort X l reason e = notify (NotifyRoomClosed out) (set_loop l (\<lambda>x. x\<lparr>rl_live := False\<rparr>) e1)"
  note w = in_world_run [OF r]
  from betting_run [OF engine_betting(4) [OF u] w [THEN conjunct1] i] Abort_done [OF u i w [THEN conjunct1]] w a
  show ?thesis by (auto simp: disposed_def)
qed

lemma settle_disposed:
  assumes u: "uuid_canonical X" and nb: "uuid_not_blank X" and i: "idle_world X (en_world e)" and l: "l < length (en_heap e)"
    and run: "settle X l e = (c, e')"
  shows "disposed X (rl_roomID (en_heap e ! l)) e e'"
  using run
proof (cases rule: settle_cases)
  case (failed e1 err)
  note w = in_world_run [OF failed(1)]
  have "err \<in> quiet" using failed(2) by (auto simp: quiet_def)
  then show ?thesis
    using betting_run [OF engine_betting(3) [OF u] w [THEN conjunct1] i] Settle_quiet [OF u nb i w [THEN conjunct1]] w failed(3)
    by (auto simp: disposed_def)
next
  case (aborted e1 err)
  let ?e = "log_error (SettlementFailed (rl_roomID (en_heap e ! l)) err) (set_loop l (\<lambda>x. x\<lparr>rl_live := False\<rparr>) e1)"
  note w = in_world_run [OF aborted(1)]
  note b = betting_run [OF engine_betting(3) [OF u] w [THEN conjunct1] i]
  have s: "rl_roomID (en_heap ?e ! l) = rl_roomID (en_heap e ! l)" using w l by simp
  have "disposed X (rl_roomID (en_heap ?e ! l)) ?e e'" unfolding aborted(3) by (rule abort_disposed [OF u nb]) (simp add: b)
  then show ?thesis using b w unfolding s by (auto simp: disposed_def)
next
  case (settled e1 out)
  note w = in_world_run [OF settled(1)]
  from betting_run [OF engine_betting(3) [OF u] w [THEN conjunct1] i] Settle_done [OF u i w [THEN conjunct1]] w settled(3)
  show ?thesis by (auto simp: disposed_def)
qed

lemma timed_disposed:
  assumes t: "timed X e" and tch: "touches l e e1" and d: "disposed X (rl_roomID (en_heap e ! l)) e e1"
  shows "timed X (leave_if b l e1)"
proof (rule timed_loop [OF t tch])
  fix i assume "x_uuid X (rl_roomID (en_heap e ! l)) = Some i" "i \<in> betting_ids (w_db (en_world e1))"
  moreover from this d obtain reason err where "FailedToAbort (rl_roomID (en_heap e ! l)) reason err \<in> set (en_logs e1)"
    unfolding disposed_def by blast
  ultimately show "looked_after X (leave_if b l e1) i" unfolding looked_after_def logs_sel by blast
qed (use d in \<open>auto simp: disposed_def\<close>)

lemma timed_quit:
  assumes u: "uuid_canonical X" and nb: "uuid_not_blank X" and i: "idle_world X (en_world e)" and ok: "loops_ok e"
    and t: "timed X e" and sel: "in_phase e l Selecting"
  shows "timed X (run_quit X l e)"
proof (cases "rl_live (en_heap e ! l)")
  case True
  have "timed X (leave_if True l (abort X l ReasonShutdown e))"
    by (rule timed_disposed [OF t _ abort_disposed [OF u nb i]]) (intro touch_rules)
  with True show ?thesis by (simp add: run_quit_def)
next
  case False
  then have "\<not> alarm (en_heap e ! l)" using loops_okD(3) [OF ok sel] by (simp add: agrees_def alarm_def)
  then have "timed X (leave_if True l e)" by (intro timed_idle [OF t, of l]) (simp_all add: leave_if_def)
  with False show ?thesis by (simp add: run_quit_def)
qed

lemma timed_alarm:
  assumes u: "uuid_canonical X" and nb: "uuid_not_blank X" and i: "idle_world X (en_world e)" and t: "timed X e" and sel: "in_phase e l Selecting"
  shows "timed X (run_alarm X l e)"
proof -
  obtain c e1 where p: "settle X l (disarm l e) = (c, e1)" by fastforce
  have l: "l < length (en_heap (disarm l e))" using sel by (simp add: in_phase_def disarm_def)
  have tch: "touches l e e1" by (rule settle_touches [OF _ p]) (intro touch_rules)
  have "disposed X (rl_roomID (en_heap (disarm l e) ! l)) (disarm l e) e1" by (rule settle_disposed [OF u nb _ l p]) (simp add: i)
  moreover have "rl_roomID (en_heap (disarm l e) ! l) = rl_roomID (en_heap e ! l)" using l by (simp add: disarm_def)
  ultimately have "disposed X (rl_roomID (en_heap e ! l)) e e1" by (simp add: disposed_def)
  from timed_disposed [OF t tch this] p show ?thesis by (simp add: run_alarm_def)
qed

lemma arm_effect:
  assumes "l < length (en_heap e)"
  shows "alarm (en_heap (arm X l t e) ! l)" "w_db (en_world (arm X l t e)) = w_db (en_world e)" "en_logs (arm X l t e) = en_logs e"
  using assms by (auto simp: arm_def Let_def in_world_def Now_def disarm_def alarm_def set_loop_def split: prod.splits)

lemma timed_command:
  assumes u: "uuid_canonical X" and ack: "\<forall>n. x_commit X n \<noteq> AckLost" and i: "idle_world X (en_world e)" and t: "timed X e"
    and sel: "in_phase e l Selecting" and room: "rl_roomID (en_heap e ! l) = command_room cmd"
    and run: "run_command X window l cmd e = (reply, e')"
  shows "timed X e'"
proof -
  obtain ended e1 where h: "handle X window l cmd e = (reply, ended, e1)" and e': "e' = leave_if ended l e1"
    using run by (auto simp: run_command_def split: prod.splits)
  have l: "l < length (en_heap e)" using sel by (simp add: in_phase_def)
  note tch = handle_touches [OF h]
  show ?thesis
  proof (cases cmd)
    case (cmdStartRound s who)
    obtain r e2 where r: "in_world (StartRoundUC X window s who) e = (r, e2)" by fastforce
    note w = in_world_run [OF r]
    show ?thesis
    proof (cases r)
      case (Inl err)
      have "w_db (en_world e2) = w_db (en_world e)"
        using atomic_game(2) [of X window s who] w Inl ack idle_parts [OF i] unfolding atomic_def by blast
      with h r Inl cmdStartRound w e' show ?thesis by (intro timed_same [OF t]) (auto simp: leave_if_def)
    next
      case (Inr out)
      from Start_done [OF u i] w Inr obtain j where j: "x_uuid X s = Some j"
        "betting_ids (w_db (en_world e2)) \<subseteq> insert j (betting_ids (w_db (en_world e)))" by blast
      have e1: "e1 = notify (NotifyRoundStarted out) (arm X l (so_ClosesAt out) e2)" "\<not> ended" using h r Inr cmdStartRound by simp_all
      have l2: "l < length (en_heap e2)" using l w by simp
      note a = arm_effect [OF l2, of X "so_ClosesAt out"]
      show ?thesis
        unfolding e'
      proof (rule timed_loop [OF t tch])
        fix k assume "x_uuid X (rl_roomID (en_heap e ! l)) = Some k"
        have "in_phase e1 l Selecting" "rl_roomID (en_heap e1 ! l) = rl_roomID (en_heap e ! l)"
          using tch sel by (auto simp: touches_def in_phase_def)
        then show "looked_after X (leave_if ended l e1) k"
          using e1 a \<open>x_uuid X (rl_roomID (en_heap e ! l)) = Some k\<close> unfolding looked_after_def by (auto simp: leave_if_def)
      qed (use e1 a j w room cmdStartRound in auto)
    qed
  next
    case (cmdPlaceBet s p ch am)
    obtain r e2 where r: "in_world (PlaceBetUC X s p ch am) e = (r, e2)" by fastforce
    note w = in_world_run [OF r]
    from betting_run [OF engine_betting(1) [OF u] w [THEN conjunct1] i] h r cmdPlaceBet w e' show ?thesis
      by (intro timed_same [OF t]) (auto simp: leave_if_def)
  next
    case (cmdCloseRoom s who reason)
    obtain r e2 where r: "in_world (CloseRoomUC X s who reason) e = (r, e2)" by fastforce
    note w = in_world_run [OF r]
    note b = betting_run [OF engine_betting(2) [OF u] w [THEN conjunct1] i]
    show ?thesis
    proof (cases ended)
      case False
      then have "en_heap e1 = en_heap e" "en_logs e1 = en_logs e" "en_world e1 = en_world e2"
        using h r cmdCloseRoom w by (auto split: sum.splits if_splits)
      with b False e' show ?thesis by (intro timed_same [OF t]) (auto simp: leave_if_def)
    next
      case True
      then obtain out where out: "r = Inr out" "co_Closed out" "e1 = notify (NotifyRoomClosed out) e2"
        using h r cmdCloseRoom by (auto split: sum.splits)
      from Close_done [OF i] w out have "\<exists>j. x_uuid X s = Some j \<and> j \<notin> betting_ids (w_db (en_world e2))" by blast
      with b w out room cmdCloseRoom have "disposed X (rl_roomID (en_heap e ! l)) e e1" by (auto simp: disposed_def)
      then show ?thesis unfolding e' by (rule timed_disposed [OF t tch])
    qed
  qed
qed

lemma direct_world:
  assumes u: "uuid_canonical X" and i: "idle_world X (en_world e)"
    and d: "PlaceBet_direct X cmd e = Some (r, e') \<or> CloseRoom_direct X cmd e = Some (r, e')"
  shows "en_heap e' = en_heap e \<and> en_logs e' = en_logs e \<and> betting_ids (w_db (en_world e')) \<subseteq> betting_ids (w_db (en_world e))"
proof (cases cmd)
  case (cmdPlaceBet s p ch a)
  obtain q e1 where q: "in_world (PlaceBetUC X s p ch a) e = (q, e1)" by fastforce
  note w = in_world_run [OF q]
  from betting_run [OF engine_betting(1) [OF u] w [THEN conjunct1] i] w q d cmdPlaceBet show ?thesis by auto
next
  case (cmdCloseRoom s who reason)
  obtain q e1 where q: "in_world (CloseRoomUC X s who reason) e = (q, e1)" by fastforce
  note w = in_world_run [OF q]
  from betting_run [OF engine_betting(2) [OF u] w [THEN conjunct1] i] w q d cmdCloseRoom show ?thesis
    by (auto split: sum.splits if_splits)
qed (use d in auto)

lemma timed_call: "timed X (set_call j st e) = timed X e"
  by (simp add: timed_def looked_after_def in_phase_def set_call_def)

lemma timed_failed:
  assumes u: "uuid_canonical X" and i: "idle_world X (en_world e)" and t: "timed X e"
  shows "timed X (return_failed X j err e)"
proof -
  have d: "timed X e'" if "PlaceBet_direct X cmd e = Some (r, e') \<or> CloseRoom_direct X cmd e = Some (r, e')" for cmd r e'
    using direct_world [OF u i that] by (intro timed_same [OF t]) simp_all
  show ?thesis unfolding return_failed_def Let_def by (auto simp: timed_call t split: option.splits intro: d)
qed

lemma timed_goroutine:
  assumes u: "uuid_canonical X" and nb: "uuid_not_blank X" and ack: "\<forall>n. x_commit X n \<noteq> AckLost"
    and i: "idle_world X (en_world e)" and ok: "loops_ok e" and sent: "sent_ok e" and t: "timed X e"
    and step: "goroutine X window e e'"
  shows "timed X e'"
  using step
proof cases
  case (g_command j reply e1)
  have "rl_roomID (en_heap e ! ca_loop (en_callers e ! j)) = command_room (ca_cmd (en_callers e ! j))"
    using sent g_command(2) by (simp add: sent_ok_def calling_def)
  from timed_command [OF u ack i t g_command(3) this g_command(4)] g_command(1) show ?thesis by (simp add: timed_call)
next
  case (g_removed l)
  then show ?thesis
    by (intro timed_idle [OF t, of l]) (auto simp: in_phase_def run_removed_def removeLoop_def disarm_def set_loop_def)
next
  case (g_finished l)
  then show ?thesis by (intro timed_idle [OF t, of l]) (auto simp: in_phase_def run_finished_def set_loop_def)
qed (auto simp: timed_call t intro: timed_quit [OF u nb i ok t] timed_alarm [OF u nb i t] timed_failed [OF u i t])

section \<open>The invariant along runs\<close>

text \<open>Rooms of loops never change and only a call adds a command.\<close>

lemma sent_mono:
  assumes "sent_ok e" and "loops_ok e"
    and "\<And>k. k < length (en_heap e) \<Longrightarrow> rl_roomID (en_heap e' ! k) = rl_roomID (en_heap e ! k)"
    and "\<And>c. c \<in> set (en_callers e') \<Longrightarrow> ca_state c = Sending \<Longrightarrow> c \<in> set (en_callers e)"
  shows "sent_ok e'"
  using assms unfolding sent_ok_def loops_ok_def by metis

lemma callers_set_call: "st \<noteq> Sending \<Longrightarrow> c \<in> set (en_callers (set_call j st e)) \<Longrightarrow> ca_state c = Sending \<Longrightarrow> c \<in> set (en_callers e)"
  using set_update_subset_insert [of "en_callers e" j] by (fastforce simp: set_call_def)

lemma direct_frame:
  "PlaceBet_direct X cmd e = Some (r, e') \<Longrightarrow> en_heap e' = en_heap e \<and> en_callers e' = en_callers e"
  "CloseRoom_direct X cmd e = Some (r, e') \<Longrightarrow> en_heap e' = en_heap e \<and> en_callers e' = en_callers e"
  by (cases cmd; auto simp: in_world_def notify_def split: prod.splits sum.splits if_splits)+

lemma callers_sel:
  "en_callers (set_loop l f e) = en_callers e" "en_callers (leave_if b l e) = en_callers e" "en_callers (disarm l e) = en_callers e"
  "en_callers (removeLoop l e) = en_callers e"
  by (simp_all add: set_loop_def leave_if_def disarm_def removeLoop_def)

lemma sent_touches:
  assumes "touches l e e1" and "sent_ok e" and "loops_ok e"
  shows "sent_ok (leave_if b l e1)"
  using assms(2,3)
proof (rule sent_mono)
  fix k assume "k < length (en_heap e)"
  then show "rl_roomID (en_heap (leave_if b l e1) ! k) = rl_roomID (en_heap e ! k)"
    using assms(1) by (cases "k = l") (auto simp: touches_def leave_if_def)
qed (use assms(1) in \<open>simp add: touches_def callers_sel\<close>)

lemma sent_call: "sent_ok e \<Longrightarrow> st \<noteq> Sending \<Longrightarrow> sent_ok (set_call j st e)"
  using callers_set_call [of st _ j e] by (auto simp: sent_ok_def set_call_def)

lemma sent_goroutine:
  assumes ok: "loops_ok e" and sent: "sent_ok e" and step: "goroutine X window e e'"
  shows "sent_ok e'"
  using step
proof cases
  case (g_quit l)
  show ?thesis unfolding g_quit run_quit_def by (rule sent_touches [OF _ sent ok]) (intro touch_rules)
next
  case (g_alarm l)
  obtain c e1 where p: "settle X l (disarm l e) = (c, e1)" by fastforce
  have "touches l e e1" by (rule settle_touches [OF _ p]) (intro touch_rules)
  with p show ?thesis unfolding g_alarm run_alarm_def by (simp add: sent_touches [OF _ sent ok])
next
  case (g_command j reply e1)
  obtain ended e2 where h: "handle X window (ca_loop (en_callers e ! j)) (ca_cmd (en_callers e ! j)) e = (reply, ended, e2)"
    and e1: "e1 = leave_if ended (ca_loop (en_callers e ! j)) e2" using g_command(4) by (auto simp: run_command_def split: prod.splits)
  from sent_touches [OF handle_touches [OF h] sent ok] show ?thesis unfolding g_command(1) e1 by (rule sent_call) simp
next
  case (g_removed l)
  then have l: "l < length (en_heap e)" by (simp add: in_phase_def)
  show ?thesis unfolding g_removed(1)
    by (rule sent_mono [OF sent ok])
       (use l in \<open>auto simp: run_removed_def removeLoop_def disarm_def set_loop_def nth_list_update split: if_splits\<close>)
next
  case (g_finished l)
  then have l: "l < length (en_heap e)" by (simp add: in_phase_def)
  show ?thesis unfolding g_finished(1)
    by (rule sent_mono [OF sent ok]) (use l in \<open>auto simp: run_finished_def set_loop_def nth_list_update\<close>)
next
  case (g_failed j err)
  have "sent_ok e1" if "PlaceBet_direct X cmd e = Some (r, e1) \<or> CloseRoom_direct X cmd e = Some (r, e1)" for cmd r e1
    using that sent direct_frame [of X cmd e r e1] by (auto simp: sent_ok_def)
  then show ?thesis
    unfolding g_failed return_failed_def Let_def by (auto simp: sent split: option.splits intro!: sent_call)
qed (auto intro: sent_call [OF sent])

lemma sent_dispatch:
  assumes ok: "loops_ok e" and sent: "sent_ok e"
  shows "sent_ok (dispatch cmd e)"
proof -
  have old: "ca_loop c < length (en_heap e)" if "c \<in> set (en_callers e)" "ca_state c = Sending" for c
    using ok that by (auto simp: loops_ok_def)
  show ?thesis
    using sent old loops_okD(2) [OF ok, of "command_room cmd"]
    by (auto simp: dispatch_def loopFor_def Let_def sent_ok_def nth_append split: option.splits)
qed

lemma Shutdown_frame:
  assumes "loops_ok e"
  shows "en_callers (Shutdown e) = en_callers e" "en_logs (Shutdown e) = en_logs e" "length (en_heap (Shutdown e)) = length (en_heap e)"
    "\<And>k. k < length (en_heap e) \<Longrightarrow> \<exists>q. en_heap (Shutdown e) ! k = (en_heap e ! k)\<lparr>rl_quit := q\<rparr>"
proof -
  have logs: "en_logs (fold (stop \<circ> snd) xs e) = en_logs e" for xs and e :: "'a Engine"
    by (induction xs arbitrary: e) (simp_all add: stop_def)
  note h = stops_heap [of "en_loops e" "e\<lparr>en_stopped := True\<rparr>"]
  show "en_callers (Shutdown e) = en_callers e" "en_logs (Shutdown e) = en_logs e" "length (en_heap (Shutdown e)) = length (en_heap e)"
    using h by (simp_all add: Shutdown_def logs)
  fix k assume k: "k < length (en_heap e)"
  show "\<exists>q. en_heap (Shutdown e) ! k = (en_heap e ! k)\<lparr>rl_quit := q\<rparr>"
  proof (cases "en_stopped e")
    case True
    then show ?thesis by (intro exI [of _ "rl_quit (en_heap e ! k)"]) (simp add: Shutdown_def)
  next
    case False
    with h k show ?thesis by (auto simp: Shutdown_def)
  qed
qed

definition alarms_ok :: "'r ext \<Rightarrow> 'r Engine \<Rightarrow> bool" where
  "alarms_ok X e \<longleftrightarrow> idle_world X (en_world e) \<and> loops_ok e \<and> sent_ok e \<and> timed X e"

lemma alarms_ok_step:
  assumes u: "uuid_canonical X" and nb: "uuid_not_blank X" and ack: "\<forall>n. x_commit X n \<noteq> AckLost"
    and inv: "alarms_ok X e" and idle: "idle_world X (en_world e')" and step: "engine_step X ttl window e e'"
  shows "alarms_ok X e'"
proof -
  have e: "idle_world X (en_world e)" "loops_ok e" "sent_ok e" "timed X e" using inv by (simp_all add: alarms_ok_def)
  have "loops_ok e'" by (rule loops.step_inv [OF e(2) step])
  moreover have "sent_ok e' \<and> timed X e'"
    using step
  proof cases
    case es_go
    then show ?thesis using sent_goroutine [OF e(2,3)] timed_goroutine [OF u nb ack e] by blast
  next
    case (es_call cmd)
    have "timed X (dispatch cmd e)"
      unfolding timed_def world_dispatch
    proof
      fix i assume "i \<in> betting_ids (w_db (en_world e))"
      then have "looked_after X e i" using e(4) by (simp add: timed_def)
      then show "looked_after X (dispatch cmd e) i"
        by (rule looked_after_mono)
           (auto simp: dispatch_def loopFor_def Let_def in_phase_def nth_append split: option.splits)
    qed
    with sent_dispatch [OF e(2,3)] es_call show ?thesis by simp
  next
    case es_shutdown
    note f = Shutdown_frame [OF e(2)]
    have kept: "rl_phase (en_heap (Shutdown e) ! k) = rl_phase (en_heap e ! k) \<and> rl_roomID (en_heap (Shutdown e) ! k) = rl_roomID (en_heap e ! k) \<and>
      alarm (en_heap (Shutdown e) ! k) = alarm (en_heap e ! k)" if "k < length (en_heap e)" for k
      using f(4) [OF that] by (auto simp: alarm_def)
    have "sent_ok (Shutdown e)" by (rule sent_mono [OF e(3,2)]) (simp_all add: f kept)
    moreover have "looked_after X (Shutdown e) i" if "looked_after X e i" for i
      using that by (rule looked_after_mono) (simp_all add: f kept in_phase_def)
    then have "timed X (Shutdown e)" using e(4) by (simp add: timed_def world_Shutdown)
    ultimately show ?thesis by (simp add: es_shutdown)
  next
    case (es_request req res w)
    from betting_run [OF outside_betting [OF u es_request(2)] es_request(3) e(1)] show ?thesis
      using e es_request(1) by (auto simp: sent_ok_def intro!: timed_same [OF e(4)])
  next
    case (es_aside w)
    then show ?thesis using e by (auto simp: sent_ok_def intro!: timed_same [OF e(4)])
  qed (auto simp: timed_call e intro: sent_call [OF e(3)])
  ultimately show ?thesis using idle by (simp add: alarms_ok_def)
qed

interpretation alarms: step_invariant "engine_init X" "engine_step X ttl window"
    "\<lambda>e. reach (engine_init X) (engine_step X ttl window) e \<and>
       (uuid_canonical X \<and> uuid_not_blank X \<and> (\<forall>n. x_commit X n \<noteq> AckLost) \<longrightarrow> alarms_ok X e)"
    for X :: "'r ext" and ttl window :: duration
proof unfold_locales
  fix e :: "'r Engine" assume i: "engine_init X e"
  then obtain opTimeout w where e: "e = NewEngine opTimeout w" "reach api_init (api_step X) w" "active_ids (w_db w) = {}"
    by (auto simp: engine_init_def)
  have "betting_ids (w_db w) = {}" using e(3) by (auto simp: betting_iff active_ids_def)
  then have "timed X e" "sent_ok e" by (simp_all add: e(1) NewEngine_def timed_def sent_ok_def)
  with casino.reach_inv [OF e(2)] loops.init_inv [OF i]
  have "uuid_canonical X \<longrightarrow> alarms_ok X e" by (simp add: alarms_ok_def idle_world_def e(1) NewEngine_def system_ok_def)
  with i show "reach (engine_init X) (engine_step X ttl window) e \<and>
      (uuid_canonical X \<and> uuid_not_blank X \<and> (\<forall>n. x_commit X n \<noteq> AckLost) \<longrightarrow> alarms_ok X e)" by (auto intro: reach_init)
next
  fix e e' :: "'r Engine"
  assume inv: "reach (engine_init X) (engine_step X ttl window) e \<and>
      (uuid_canonical X \<and> uuid_not_blank X \<and> (\<forall>n. x_commit X n \<noteq> AckLost) \<longrightarrow> alarms_ok X e)"
    and step: "engine_step X ttl window e e'"
  have r: "reach (engine_init X) (engine_step X ttl window) e'" using inv step by (blast intro: reach_step)
  have "uuid_canonical X \<longrightarrow> idle_world X (en_world e')"
    using casino.reach_inv [OF engine_reach_api [OF r]] by (simp add: idle_world_def system_ok_def)
  with r inv show "reach (engine_init X) (engine_step X ttl window) e' \<and>
      (uuid_canonical X \<and> uuid_not_blank X \<and> (\<forall>n. x_commit X n \<noteq> AckLost) \<longrightarrow> alarms_ok X e')"
    using alarms_ok_step [OF _ _ _ _ _ step] by blast
qed



end
