(* ===== verification/Api_Server.thy ===== *)
theory Api_Server
  imports Ws_Gateway Rest_Api Engine_Alarms
begin

text \<open>
  Both channels on top of the use cases: the dependencies that the bootstrap hands to the socket
  handler, the step relation of a server that answers requests of either channel, and what follows.
  Every request is a run of the use cases, so the invariants of the game hold behind the interfaces too;
  the audit trail only grows; and what needs a token cannot be reached without one.

  The round engine between the handlers and the round use cases is covered by its own refinement theorem; here its
  calls are the use cases it runs.
\<close>

section \<open>The dependencies of the socket handler\<close>

type_synonym 'r server = "'r world \<times> AuditLog list"

definition on_world :: "('r, error, 'a) prog \<Rightarrow> ('r server, 'a) call" where
  "on_world m s = (case s of (w, logs) \<Rightarrow> (case m w of (r, w') \<Rightarrow> (r, w', logs)))"

definition append_log :: "'r ext \<Rightarrow> Entry \<Rightarrow> ('r server, unit) call" where
  "append_log X e s =
     (case s of (w, logs) \<Rightarrow>
        (case Append X e logs w of
           (Inl err, w') \<Rightarrow> (Inl err, w', logs)
         | (Inr logs', w') \<Rightarrow> (Inr (), w', logs')))"

definition tick :: "'r ext \<Rightarrow> 'r server \<Rightarrow> time \<times> 'r server" where
  "tick X s = (case s of (w, logs) \<Rightarrow> (x_clock X (w_ticks w), w\<lparr>w_ticks := Suc (w_ticks w)\<rparr>, logs))"

definition draw_id :: "'r ext \<Rightarrow> 'r server \<Rightarrow> string \<times> 'r server" where
  "draw_id X s = (case s of (w, logs) \<Rightarrow> (x_newid X (w_ids w), w\<lparr>w_ids := Suc (w_ids w)\<rparr>, logs))"

definition casino_opts :: "'r ext \<Rightarrow> duration \<Rightarrow> (string \<Rightarrow> string option) \<Rightarrow> 'r server HandlerOptions" where
  "casino_opts X window fl =
     \<lparr>ho_Verify = (\<lambda>token. on_world (Verify X token)),
      ho_Join = (\<lambda>roomID playerID. on_world (JoinRoomUC X roomID playerID)),
      ho_State = (\<lambda>roomID. on_world (RoomStateUC X roomID)),
      ho_StartRound = (\<lambda>roomID playerID. on_world (StartRoundUC X window roomID playerID)),
      ho_PlaceBet = (\<lambda>roomID playerID choice amount. on_world (PlaceBetUC X roomID playerID choice amount)),
      ho_audited = True,
      ho_Append = append_log X,
      ho_Now = tick X,
      ho_NewID = draw_id X,
      ho_float = fl\<rparr>"

section \<open>Runs of the use cases\<close>

definition api_runs :: "'r ext \<Rightarrow> ('r, 'e, 'a) prog \<Rightarrow> bool" where
  "api_runs X m \<longleftrightarrow> (\<forall>w r w'. m w = (r, w') \<longrightarrow> api_step X w w')"

lemma api_runs_serve: "serve X ttl window req = done_with m \<Longrightarrow> api_runs X m"
  unfolding api_runs_def
proof (intro allI impI)
  fix w r w' assume s: "serve X ttl window req = done_with m" and run: "m w = (r, w')"
  have "\<exists>res. serve X ttl window req w = (res, w')"
    unfolding s done_with_def using run by (cases r) (simp_all add: bnd_def ret_def)
  then show "api_step X w w'" by (auto intro: api_serve)
qed

lemma api_runs_use_cases:
  "api_runs X (RegisterUC X email password)" "api_runs X (LoginUC X ttl email password)" "api_runs X (Deposit X p a)"
  "api_runs X (Withdraw X p a)" "api_runs X (GetBalance X p)" "api_runs X (CreateRoomUC X p)" "api_runs X (JoinRoomUC X r p)"
  "api_runs X (ListOpenRoomsUC X l off)" "api_runs X (RoomStateUC X r)" "api_runs X (StartRoundUC X window r p)"
  "api_runs X (PlaceBetUC X r p c a)" "api_runs X (CloseRoomUC X r p reason)"
  by (rule api_runs_serve [OF serve.simps(1)], rule api_runs_serve [OF serve.simps(2)], rule api_runs_serve [OF serve.simps(3)], rule api_runs_serve [OF serve.simps(4)],
    rule api_runs_serve [OF serve.simps(5)], rule api_runs_serve [OF serve.simps(6)], rule api_runs_serve [OF serve.simps(7)],
    rule api_runs_serve [OF serve.simps(8)], rule api_runs_serve [OF serve.simps(9)], rule api_runs_serve [OF serve.simps(10)],
    rule api_runs_serve [OF serve.simps(11)], rule api_runs_serve [OF serve.simps(13)])

lemma Verify_frame: "Verify X token w = (r, w') \<Longrightarrow> w_db w' = w_db w \<and> w_tx w' = w_tx w"
  by (auto simp: Verify_def bnd_def Now_def fail_def ret_def split: sum.splits jwt_error.splits if_splits)

lemma api_runs_Verify: "api_runs X (Verify X token)"
  unfolding api_runs_def by (auto intro: api_aside dest: Verify_frame)

text \<open>The server after some requests: a run of the use cases, and an audit trail that only grew.\<close>

definition server_run :: "'r ext \<Rightarrow> 'r server \<Rightarrow> 'r server \<Rightarrow> bool" where
  "server_run X s s' \<longleftrightarrow> (api_step X)\<^sup>*\<^sup>* (fst s) (fst s') \<and> (\<exists>rows. snd s' = snd s @ rows)"

lemma server_run_refl [intro]: "server_run X s s"
  by (simp add: server_run_def)

lemma server_run_trans: "server_run X s s1 \<Longrightarrow> server_run X s1 s2 \<Longrightarrow> server_run X s s2"
  by (auto simp: server_run_def)

lemma on_world_run: "api_runs X m \<Longrightarrow> on_world m s = (r, s') \<Longrightarrow> server_run X s s'"
  by (auto simp: on_world_def api_runs_def server_run_def split: prod.splits)

lemma aside_run: "w_db w' = w_db w \<Longrightarrow> w_tx w' = w_tx w \<Longrightarrow> (api_step X)\<^sup>*\<^sup>* w w'"
  by (blast intro: api_aside)

lemma append_log_run:
  assumes "append_log X e s = (r, s')"
  shows "server_run X s s'"
proof -
  obtain w logs where s: "s = (w, logs)" by (cases s)
  obtain q w' where a: "Append X e logs w = (q, w')" by fastforce
  have "(api_step X)\<^sup>*\<^sup>* w w'" by (rule aside_run) (use Append_run(1,2) [OF a] in simp_all)
  with assms s a Append_run(3) [OF a] show ?thesis
    by (cases q) (auto simp: append_log_def server_run_def)
qed

lemma tick_run: "tick X s = (t, s') \<Longrightarrow> server_run X s s'" and draw_id_run: "draw_id X s = (i, s') \<Longrightarrow> server_run X s s'"
  by (auto simp: tick_def draw_id_def server_run_def split: prod.splits intro!: aside_run)

lemma writeAudit_run: "server_run X s (writeAudit (casino_opts X window fl) actor event payload err s)"
proof -
  obtain i s1 where i: "draw_id X s = (i, s1)" by (cases "draw_id X s")
  obtain t s2 where t: "tick X s1 = (t, s2)" by (cases "tick X s1")
  have s2: "server_run X s s2" using draw_id_run [OF i] tick_run [OF t] by (rule server_run_trans)
  have "server_run X s2 (snd (append_log X e s2))" for e
    using append_log_run by (metis prod.collapse)
  with s2 show ?thesis
    by (auto simp: writeAudit_def casino_opts_def i t Let_def split: sum.split intro: server_run_trans)
qed

section \<open>The socket channel\<close>

lemma casino_sel:
  "ho_Verify (casino_opts X window fl) t = on_world (Verify X t)"
  "ho_Join (casino_opts X window fl) r p = on_world (JoinRoomUC X r p)"
  "ho_State (casino_opts X window fl) r = on_world (RoomStateUC X r)"
  "ho_StartRound (casino_opts X window fl) r p = on_world (StartRoundUC X window r p)"
  "ho_PlaceBet (casino_opts X window fl) r p c a = on_world (PlaceBetUC X r p c a)"
  by (simp_all add: casino_opts_def)

lemmas call_runs = on_world_run [OF api_runs_use_cases(7)] on_world_run [OF api_runs_use_cases(9)]
  on_world_run [OF api_runs_use_cases(10)] on_world_run [OF api_runs_use_cases(11)] on_world_run [OF api_runs_Verify]

lemma session_join_run: "session_join (casino_opts X window fl) c p d s = (err, out, s') \<Longrightarrow> server_run X s s'"
  by (auto simp: session_join_def casino_sel Let_def split: sum.splits prod.splits if_splits
      dest!: call_runs intro: server_run_trans)

lemma session_startRound_run: "session_startRound (casino_opts X window fl) p r s = (err, out, s') \<Longrightarrow> server_run X s s'"
  by (auto simp: session_startRound_def casino_sel split: sum.splits prod.splits if_splits dest!: call_runs)

lemma session_placeBet_run: "session_placeBet (casino_opts X window fl) c p r d s = (err, out, s') \<Longrightarrow> server_run X s s'"
  by (auto simp: session_placeBet_def casino_sel split: sum.splits prod.splits if_splits dest!: call_runs)

lemma route_run: "route (casino_opts X window fl) c p r msg s = (err, out, s') \<Longrightarrow> server_run X s s'"
  by (auto simp: route_def split: if_splits dest: session_join_run session_startRound_run session_placeBet_run)

lemma session_handle_run:
  assumes "session_handle (casino_opts X window fl) c p r raw s = (out, s')"
  shows "server_run X s s'"
proof (cases "decode_inbound raw")
  case None
  then have "s' = writeAudit (casino_opts X window fl) (Some p) ''ws.message'' None (Some errMalformedMessage) s"
    using assms by (simp add: session_handle_def)
  then show ?thesis by (simp only: writeAudit_run)
next
  case (Some msg)
  obtain err acts s1 where r: "route (casino_opts X window fl) c p r msg s = (err, acts, s1)" by (cases "route (casino_opts X window fl) c p r msg s")
  then have "s' = writeAudit (casino_opts X window fl) (Some p) (ib_Type msg) (ib_Data msg) err s1"
    using assms Some by (simp add: session_handle_def)
  then show ?thesis using server_run_trans [OF route_run [OF r] writeAudit_run] by simp
qed

lemma awaitAuthMessage_run: "awaitAuthMessage (casino_opts X window fl) frame s = (r, s') \<Longrightarrow> server_run X s s'"
  by (auto simp: awaitAuthMessage_def casino_sel split: option.splits if_splits sum.splits prod.splits dest!: call_runs)

text \<open>
  A handshake that is accepted: the token of the request, or of the first frame when the request
  carried none, was verified, and the socket belongs to the player the token names.
\<close>

lemma awaitAuthMessage_ok:
  assumes "awaitAuthMessage opts frame s = (Inr claims, s')"
  shows "\<exists>token s1. TrimSpace token \<noteq> [] \<and> ho_Verify opts token s = (Inr claims, s1)"
  using assms by (auto simp: awaitAuthMessage_def split: option.splits if_splits sum.splits prod.splits)

lemma serve_ws_cases:
  assumes "serve_ws opts r upgrades frame s = (res, s')"
  obtains (refused) e s1 where "ho_Verify opts (handshakeToken r) s = (Inl e, s1)" "res = Refused"
      "s' = writeAudit opts None ''ws.connect'' None (Some ws_error.errUnauthenticated) s1"
  | (not_upgraded) s1 where "res = NotUpgraded" "s' = s1" "s1 = s \<or> (\<exists>q. ho_Verify opts (handshakeToken r) s = (q, s1))"
  | (token) claims s1 where "handshakeToken r \<noteq> []" "ho_Verify opts (handshakeToken r) s = (Inr claims, s1)"
      "res = Accepted (cl_PlayerID claims)" "s' = writeAudit opts (Some (cl_PlayerID claims)) ''ws.connect'' None None s1"
  | (message) claims s1 s2 where "s1 = s \<or> (\<exists>q. ho_Verify opts (handshakeToken r) s = (q, s1))"
      "awaitAuthMessage opts frame s1 = (Inr claims, s2)"
      "res = Accepted (cl_PlayerID claims)" "s' = writeAudit opts (Some (cl_PlayerID claims)) ''ws.connect'' None None s2"
  | (dropped) e s1 s2 where "s1 = s \<or> (\<exists>q. ho_Verify opts (handshakeToken r) s = (q, s1))"
      "awaitAuthMessage opts frame s1 = (Inl e, s2)" "res = Dropped unauthorized_frame"
      "s' = writeAudit opts None ''ws.connect'' None (Some e) s2"
proof -
  let ?t = "handshakeToken r"
  obtain q s1 where v: "ho_Verify opts ?t s = (q, s1)" by (cases "ho_Verify opts ?t s")
  consider (none) "?t = []" | (bad) e where "?t \<noteq> []" "q = Inl e" | (good) claims where "?t \<noteq> []" "q = Inr claims"
    by (cases q) auto
  then show thesis
  proof cases
    case none
    obtain a s2 where a: "awaitAuthMessage opts frame s = (a, s2)" by (cases "awaitAuthMessage opts frame s")
    show thesis
      using assms none a by (cases upgrades; cases a) (auto simp: serve_ws_def intro: not_upgraded message dropped)
  next
    case (bad e)
    then show thesis using assms v by (auto simp: serve_ws_def intro: refused)
  next
    case (good claims)
    obtain a s2 where a: "awaitAuthMessage opts frame s1 = (a, s2)" by (cases "awaitAuthMessage opts frame s1")
    show thesis
    proof (cases "upgrades \<and> cl_PlayerID claims = []")
      case True
      then show thesis using assms v good a by (cases a) (auto simp: serve_ws_def intro: message dropped)
    next
      case False
      then show thesis using assms v good by (auto simp: serve_ws_def split: if_splits intro: not_upgraded token)
    qed
  qed
qed

lemma serve_ws_run:
  assumes "serve_ws (casino_opts X window fl) r upgrades frame s = (res, s')"
  shows "server_run X s s'"
proof -
  let ?o = "casino_opts X window fl"
  have v: "server_run X s s1" if "s1 = s \<or> (\<exists>q. ho_Verify ?o (handshakeToken r) s = (q, s1))" for s1
    using that unfolding casino_sel by (metis call_runs(5) server_run_refl)
  note t = server_run_trans and w = writeAudit_run [of X _ window fl]
  from assms show ?thesis
  proof (cases rule: serve_ws_cases)
    case (refused e s1) then show ?thesis using t [OF v [of s1] w] by auto
  next
    case (not_upgraded s1) then show ?thesis using v [of s1] by auto
  next
    case (token claims s1) then show ?thesis using t [OF v [of s1] w] by auto
  next
    case (message claims s1 s2) then show ?thesis using t [OF t [OF v [of s1] awaitAuthMessage_run] w] by blast
  next
    case (dropped e s1 s2) then show ?thesis using t [OF t [OF v [of s1] awaitAuthMessage_run] w] by blast
  qed
qed

section \<open>The REST channel\<close>

definition answers :: "'r ext \<Rightarrow> 'r answer \<Rightarrow> bool" where
  "answers X f \<longleftrightarrow> (\<forall>w resp rec w'. f w = (resp, rec, w') \<longrightarrow> (api_step X)\<^sup>*\<^sup>* w w')"

lemma answers_writeError: "answers X (writeError err rec)"
  by (auto simp: answers_def writeError_def writeJSON_def split: prod.splits)

lemma answers_respond: "api_runs X m \<Longrightarrow> answers X (respond m status body rec)"
  by (auto simp: answers_def respond_def api_runs_def writeError_def writeJSON_def split: prod.splits sum.splits)

lemma answers_handlers:
  "answers X (RegisterHandler X r rec)" "answers X (LoginHandler X ttl r rec)" "answers X (DepositHandler X ctx r rec)"
  "answers X (WithdrawHandler X ctx r rec)" "answers X (BalanceHandler X ctx r rec)" "answers X (CreateRoomHandler X ctx r rec)"
  "answers X (ListRoomsHandler X r rec)" "answers X (CloseRoomHandler X ctx r rec)"
  by (cases "decode_credentials (rq_Body r)"; cases ctx; cases "decode_amount (rq_Body r)";
      simp add: RegisterHandler_def [abs_def] LoginHandler_def [abs_def] DepositHandler_def [abs_def] WithdrawHandler_def [abs_def]
        BalanceHandler_def [abs_def] CreateRoomHandler_def [abs_def] ListRoomsHandler_def [abs_def] CloseRoomHandler_def [abs_def]
        answers_writeError answers_respond api_runs_use_cases)+

lemma answers_Authenticator:
  assumes "\<And>ctx rec. answers X (next ctx r rec)"
  shows "answers X (Authenticator X next r rec)"
  unfolding answers_def
proof (intro allI impI)
  fix w resp rec' w' assume run: "Authenticator X next r rec w = (resp, rec', w')"
  let ?token = "TrimSpace (drop (length rest_bearerPrefix) (rq_Authorization r))"
  obtain q w1 where v: "Verify X ?token w = (q, w1)" by (cases "Verify X ?token w")
  have "(api_step X)\<^sup>*\<^sup>* w w1" using Verify_frame [OF v] by (intro aside_run) auto
  moreover from this have "(api_step X)\<^sup>*\<^sup>* w w'" if "next ctx r rec w1 = (resp, rec', w')" for ctx rec
    using assms that unfolding answers_def by (meson rtranclp_trans)
  ultimately show "(api_step X)\<^sup>*\<^sup>* w w'"
    using run v
    by (auto simp: Authenticator_def Let_def writeError_def writeJSON_def split: if_splits sum.splits prod.splits)
qed

lemma answers_NewRouter: "NewRouter X ttl r = Some handler \<Longrightarrow> answers X (handler rec)"
  by (auto simp: NewRouter_def intro!: answers_handlers answers_Authenticator split: if_splits)

lemma audit_request_run: "server_run X s (audit_request X r start payload resp rec s)"
proof -
  obtain w logs where s: "s = (w, logs)" by (cases s)
  let ?w1 = "w\<lparr>w_ids := Suc (w_ids w)\<rparr>"
  have n: "NewID X w = (Inr (x_newid X (w_ids w)), ?w1)" by (simp add: NewID_def)
  have one: "server_run X s (?w1, logs)" unfolding s server_run_def by (auto intro!: aside_run)
  have "server_run X (?w1, logs) (case Append X e logs ?w1 of (Inl _, w) \<Rightarrow> (w, logs) | (Inr logs', w) \<Rightarrow> (w, logs'))" for e
    using append_log_run [of X e "(?w1, logs)"] by (auto simp: append_log_def split: prod.splits sum.splits)
  with one show ?thesis
    unfolding s by (auto simp: audit_request_def n Let_def split: sum.split intro: server_run_trans)
qed

lemma AuditMiddleware_run:
  assumes "\<And>r rec. answers X (next r rec)" and "AuditMiddleware X fl next r s = (resp, s')"
  shows "server_run X s s'"
proof -
  obtain w logs where s: "s = (w, logs)" by (cases s)
  let ?r = "r\<lparr>rq_Body := first_bytes maxAuditBodyBytes (rq_Body r)\<rparr>" and ?w1 = "w\<lparr>w_ticks := Suc (w_ticks w)\<rparr>"
    and ?rec = "\<lparr>ar_actorID = None, ar_errMsg = None\<rparr>"
  obtain resp' rec w2 where n: "next ?r ?rec ?w1 = (resp', rec, w2)" by (cases "next ?r ?rec ?w1")
  have s': "s' = audit_request X r (x_clock X (w_ticks w)) (redactPayload fl (first_bytes maxAuditBodyBytes (rq_Body r))) resp' rec (w2, logs)"
    using assms(2) n by (auto simp: AuditMiddleware_def s Now_def Let_def)
  have "(api_step X)\<^sup>*\<^sup>* w ?w1" by (rule aside_run) simp_all
  moreover have "(api_step X)\<^sup>*\<^sup>* ?w1 w2" using assms(1) n unfolding answers_def by blast
  ultimately have "server_run X s (w2, logs)" by (simp add: s server_run_def)
  then show ?thesis unfolding s' using audit_request_run by (rule server_run_trans)
qed

lemma serve_http_run:
  assumes "serve_http X ttl fl r s = Some (resp, s')"
  shows "server_run X s s'"
proof (rule AuditMiddleware_run)
  let ?n = "\<lambda>r rec w. case NewRouter X ttl r of Some handler \<Rightarrow> handler rec w
    | None \<Rightarrow> writeError (RestApp (InfraErr ''unreachable'')) rec w"
  show "AuditMiddleware X fl ?n r s = (resp, s')" using assms by (simp add: serve_http_def split: if_splits)
  show "answers X (?n r rec)" for r rec
    by (cases "NewRouter X ttl r") (simp_all add: answers_NewRouter answers_writeError)
qed

section \<open>The server\<close>

text \<open>
  Requests of both channels, and anything else that leaves the database and the audit trail alone or is
  a step of the use cases, such as what the round engine does on its alarms.
\<close>

inductive server_step :: "'r ext \<Rightarrow> duration \<Rightarrow> duration \<Rightarrow> (string \<Rightarrow> string option) \<Rightarrow> 'r server \<Rightarrow> 'r server \<Rightarrow> bool"
  for X :: "'r ext" and ttl window :: duration and fl :: "string \<Rightarrow> string option" where
  sv_http: "serve_http X ttl fl r s = Some (resp, s') \<Longrightarrow> server_step X ttl window fl s s'"
| sv_connect: "serve_ws (casino_opts X window fl) hs upgrades frame s = (res, s') \<Longrightarrow> server_step X ttl window fl s s'"
| sv_message: "session_handle (casino_opts X window fl) c playerID roomID raw s = (out, s') \<Longrightarrow> server_step X ttl window fl s s'"
| sv_engine: "api_step X w w' \<Longrightarrow> server_step X ttl window fl (w, logs) (w', logs)"

definition server_init :: "'r server \<Rightarrow> bool" where
  "server_init s \<longleftrightarrow> api_init (fst s) \<and> snd s = []"

lemma server_step_run: "server_step X ttl window fl s s' \<Longrightarrow> server_run X s s'"
  by (cases rule: server_step.cases)
     (auto simp: server_run_def dest: serve_http_run serve_ws_run session_handle_run)

lemma server_reach_api: "reach server_init (server_step X ttl window fl) s \<Longrightarrow> reach api_init (api_step X) (fst s)"
proof (induction rule: reach.induct)
  case (reach_init s)
  then show ?case by (auto simp: server_init_def intro: reach.reach_init)
next
  case (reach_step s s')
  then show ?case using server_step_run [OF reach_step(2)] by (auto simp: server_run_def intro: reach_run)
qed

end
