(* ===== verification/Api_Properties.thy ===== *)
theory Api_Properties
  imports Api_Server
begin

text \<open>
  The properties of the server behind its two interfaces: the books and the games stay in order, every
  request leaves its audit row, tokens guard what they must, listings are bounded.
\<close>

section \<open>The books, over every interface\<close>

text \<open>A sample run: one player registers over REST.\<close>

definition sample_register :: http_request where
  "sample_register = \<lparr>rq_Method = ''POST'', rq_Pattern = ''/auth/register'', rq_Param = [], rq_Query = [], rq_Authorization = [],
     rq_Body = ''{\"email\":\"a@b.co\",\"password\":\"12345678\"}''\<rparr>"

definition sample_empty :: "redis_state server" where
  "sample_empty = (sample_world empty_db, [])"

definition sample_after :: "redis_state server" where
  "sample_after = snd (the (serve_http sample_ext Hour Some sample_register sample_empty))"

lemma sample_after_facts:
  "map_option fst (serve_http sample_ext Hour Some sample_register sample_empty) =
     Some \<lparr>rx_Status = 201, rx_Body = registerResponse ''i'' ''a@b.co'' 0 (1 * Second)\<rparr>"
  "map pr_Email (db_players (w_db (fst sample_after))) = [''a@b.co'']"
  "map (\<lambda>r. (al_Action r, al_Error r)) (snd sample_after) = [(''auth.register'', None)]"
  by code_simp+

lemma sample_served: "serve_http sample_ext Hour Some sample_register sample_empty =
    Some (\<lparr>rx_Status = 201, rx_Body = registerResponse ''i'' ''a@b.co'' 0 (1 * Second)\<rparr>, sample_after)"
  using sample_after_facts(1) unfolding sample_after_def
  by (cases "serve_http sample_ext Hour Some sample_register sample_empty") auto

lemma sample_empty_init: "server_init sample_empty"
  by (simp add: server_init_def sample_empty_def api_init_def)

lemma sample_after_reach: "reach server_init (server_step sample_ext Hour (15 * Second) Some) sample_after"
  using reach.reach_init [of server_init, OF sample_empty_init] sv_http [OF sample_served] by (rule reach.reach_step)





section \<open>Every HTTP request leaves its row\<close>

lemma NewRouter_patterns:
  "NewRouter X ttl r \<noteq> None \<Longrightarrow> rq_Pattern r \<in> set [''/auth/register'', ''/auth/login'', ''/wallet/deposit'', ''/wallet/withdraw'',
     ''/wallet/balance'', ''/rooms'', ''/rooms/{id}'']"
  by (auto simp: NewRouter_def split: if_splits)

lemma route_pattern_ok:
  "NewRouter X ttl r \<noteq> None \<Longrightarrow> TrimSpace (rq_Pattern r) \<noteq> [] \<and> \<not> btrim_empty (rq_Pattern r) \<and>
     TrimSpace (audit_action r) \<noteq> [] \<and> \<not> btrim_empty (audit_action r)"
  by (auto simp: NewRouter_def audit_action_def auditActions_def route_key_def TrimSpace_Nil_iff btrim_empty_def is_space_def
      split: if_splits)

text \<open>The row of a request: its columns, and the actor the handler named.\<close>

definition request_row :: "'r ext \<Rightarrow> (string \<Rightarrow> string option) \<Rightarrow> http_request \<Rightarrow> response \<Rightarrow> AuditLog \<Rightarrow> bool" where
  "request_row X fl r resp row \<longleftrightarrow>
     al_Channel row = ''rest'' \<and> al_EndpointOrEvent row = rq_Pattern r \<and> al_HttpMethod row = Some (rq_Method r) \<and>
     al_Action row = audit_action r \<and> al_Payload row = redactPayload fl (first_bytes maxAuditBodyBytes (rq_Body r)) \<and>
     (al_Error row = None \<longleftrightarrow> rx_Status resp < 400)"

definition storable :: "AuditLog \<Rightarrow> AuditLog list \<Rightarrow> db \<Rightarrow> bool" where
  "storable row logs d \<longleftrightarrow> text_ok row \<and> (\<forall>q \<in> set logs. al_ID q \<noteq> al_ID row) \<and>
     (case al_ActorID row of None \<Rightarrow> True | Some i \<Rightarrow> has_player d i)"

lemma audit_request_row:
  assumes run: "audit_request X r start (redactPayload fl (first_bytes maxAuditBodyBytes (rq_Body r))) resp rec (w, logs) = (w', logs')"
    and route: "NewRouter X ttl r \<noteq> None"
    and i: "x_uuid X (x_newid X (w_ids w)) = Some i"
  shows "\<exists>row. request_row X fl r resp row \<and> (logs' = logs \<or> logs' = logs @ [row]) \<and>
    (\<not> x_fault X (w_calls w) \<and> storable row logs (w_db w) \<longrightarrow> logs' = logs @ [row])"
proof -
  let ?opErr = "if rx_Status resp \<ge> StatusBadRequest
     then (case ar_errMsg rec of Some msg \<Rightarrow> Some msg | None \<Rightarrow> Some (StatusText (rx_Status resp))) else None"
  let ?e = "\<lparr>en_ID = x_newid X (w_ids w), en_OccurredAt = start, en_ActorID = ar_actorID rec, en_Channel = ChannelREST,
     en_EndpointOrEvent = rq_Pattern r, en_HTTPMethod = Some (rq_Method r), en_Action = audit_action r,
     en_Error = ?opErr, en_Payload = redactPayload fl (first_bytes maxAuditBodyBytes (rq_Body r))\<rparr>"
  let ?w1 = "w\<lparr>w_ids := Suc (w_ids w)\<rparr>" and ?row = "row_of X ?e i"
  note p = route_pattern_ok [OF route]
  obtain q w2 where a: "Append X ?e logs ?w1 = (q, w2)" by (cases "Append X ?e logs ?w1")
  have out: "logs' = (case q of Inl _ \<Rightarrow> logs | Inr l \<Rightarrow> l)"
    using run p a by (auto simp: audit_request_def NewID_def NewEntry_def Channel_Valid_def Let_def split: sum.splits)
  have "request_row X fl r resp ?row"
    by (auto simp: request_row_def row_of_def ChannelREST_def StatusBadRequest_def split: option.split)
  moreover have "logs' = logs \<or> logs' = logs @ [?row]"
    using out Append_run(3) [OF a] i by (cases q) auto
  moreover have "logs' = logs @ [?row]" if f: "\<not> x_fault X (w_calls w)" and st: "storable ?row logs (w_db w)"
  proof -
    have "audit_logs_check ?row = None" using p by (simp add: audit_logs_check_def row_of_def ChannelREST_def)
    then have "InsertAuditLog ?row logs (w_db ?w1) = Inr (logs @ [?row], w_db ?w1)"
      using st by (auto simp: InsertAuditLog_ok storable_def split: option.splits)
    from Append_succeeds [OF _ _ this] i f a show ?thesis using out by auto
  qed
  ultimately show ?thesis by blast
qed



section \<open>What needs a token\<close>

text \<open>The token of a request, as the authenticator reads it.\<close>

definition bearer_token :: "http_request \<Rightarrow> string option" where
  "bearer_token r =
     (if prefix rest_bearerPrefix (rq_Authorization r)
      then (let t = TrimSpace (drop (length rest_bearerPrefix) (rq_Authorization r)) in if t = [] then None else Some t)
      else None)"

definition verifies :: "'r ext \<Rightarrow> string \<Rightarrow> 'r world \<Rightarrow> bool" where
  "verifies X token w \<longleftrightarrow> is_ok (fst (Verify X token w))"

lemma Authenticator_rejects:
  assumes "\<forall>t. bearer_token r = Some t \<longrightarrow> \<not> verifies X t w" and "Authenticator X next r rec w = (resp, rec', w')"
  shows "resp = \<lparr>rx_Status = 401, rx_Body = envelope ''unauthorized'' ''authentication is required''\<rparr>" and "w_db w' = w_db w"
    and "w_tx w' = w_tx w"
  using assms
  by (auto simp: Authenticator_def bearer_token_def verifies_def writeError_def writeJSON_def rest_mapError_def http_status Let_def
      split: if_splits sum.splits prod.splits dest: Verify_frame)


definition sample_balance :: http_request where
  "sample_balance = \<lparr>rq_Method = ''GET'', rq_Pattern = ''/wallet/balance'', rq_Param = [], rq_Query = [], rq_Authorization = ''Bearer x'',
     rq_Body = []\<rparr>"


text \<open>C15: every socket belongs to a verified player.  A connection is accepted for a player only after a token that is
  not blank, taken from the query string, from the authorization header or from the first frame, was verified
  and named that player.  A handshake whose token is refused never becomes a socket.\<close>

theorem accepted_sockets_are_verified:
  assumes "serve_ws opts r upgrades frame s = (Accepted p, s')"
  shows "\<exists>token claims s1 s2. TrimSpace token \<noteq> [] \<and> ho_Verify opts token s1 = (Inr claims, s2) \<and> cl_PlayerID claims = p \<and>
    (handshakeToken r \<noteq> [] \<longrightarrow> is_ok (fst (ho_Verify opts (handshakeToken r) s)))"
proof -
  have h: "TrimSpace (handshakeToken r) = handshakeToken r" by (simp add: handshakeToken_def Let_def TrimSpace_id)
  have v: "is_ok (fst (ho_Verify opts (handshakeToken r) s))" if "handshakeToken r \<noteq> []"
    using assms that by (auto simp: serve_ws_def is_ok_iff split: sum.splits prod.splits)
  from assms show ?thesis
  proof (cases rule: serve_ws_cases)
    case (token claims s1)
    then show ?thesis using h v by (intro exI [of _ "handshakeToken r"] exI [of _ claims] exI [of _ s] exI [of _ s1]) auto
  next
    case (message claims s1 s2)
    with awaitAuthMessage_ok [OF message(2)] v show ?thesis by fastforce
  qed simp_all
qed

definition sample_verifier :: "unit HandlerOptions" where
  "sample_verifier = sample_opts\<lparr>ho_Verify := (\<lambda>t s. if t = ''tok'' then (Inr \<lparr>cl_PlayerID = ''p'', cl_Email = [], cl_ExpiresAt = 0\<rparr>, s)
     else (Inl (AuthErr ErrInvalidToken), s))\<rparr>"

theorem accepted_sockets_are_verified_witness:
  "fst (serve_ws sample_verifier \<lparr>hk_query_token = [], hk_Authorization = []\<rparr> True
     (Some ''{\"type\":\"auth\",\"data\":{\"token\":\"tok\"}}'') ()) = Accepted ''p'' \<and>
   (\<exists>token claims. ho_Verify sample_verifier token () = (Inr claims, ()) \<and> cl_PlayerID claims = ''p'')"
proof -
  let ?run = "serve_ws sample_verifier \<lparr>hk_query_token = [], hk_Authorization = []\<rparr> True
     (Some ''{\"type\":\"auth\",\"data\":{\"token\":\"tok\"}}'') ()"
  have a: "?run = (Accepted ''p'', ())" by code_simp
  from accepted_sockets_are_verified [OF a] a show ?thesis by auto
qed

section \<open>Listings\<close>

lemma normalizePaging_bounds: "normalizePaging l off = (l', off') \<Longrightarrow> 1 \<le> l' \<and> l' \<le> 200 \<and> 0 \<le> off'"
  by (auto simp: normalizePaging_def defaultRoomPageLimit_def maxRoomPageLimit_def Let_def split: if_splits)

lemma page_length: "0 \<le> l \<Longrightarrow> int (length (page xs l off)) \<le> l"
  by (auto simp: page_def Let_def)


lemma page_mem: "x \<in> set (page xs l off) \<Longrightarrow> x \<in> set xs"
  by (auto simp: page_def Let_def split: if_splits dest!: in_set_takeD in_set_dropD)

lemma ListOpen_rows:
  assumes "ListOpen X l off w = (Inr rooms, w')" and "0 \<le> l"
  shows "int (length rooms) \<le> l" and "\<forall>r \<in> set rooms. su_Status r = RoomOpen"
  using assms
  by (auto simp: ListOpen_def run_ok on_error_ok exec_ok ListOpenRooms_sql_def reads_ok paged_def RoomOpen_def
      split: if_splits dest!: in_set_takeD in_set_dropD)

lemma ListOpenRooms_rows:
  assumes "ListOpenRoomsUC X l off w = (Inr (rooms, src), w')"
  shows "length rooms \<le> 200" and "\<forall>r \<in> set rooms. su_Status r = RoomOpen"
proof -
  obtain l' off' where n: "normalizePaging l off = (l', off')" by fastforce
  note b = normalizePaging_bounds [OF n]
  have "int (length rooms) \<le> l' \<and> (\<forall>r \<in> set rooms. su_Status r = RoomOpen)"
  proof -
    consider rs where "rooms = page (sort_key (\<lambda>r. - su_CreatedAt r) (filter (\<lambda>r. su_Status r = RoomOpen) rs)) l' off'"
      | w1 w2 where "ListOpen X l' off' w1 = (Inr rooms, w2)"
      using assms by (auto simp: ListOpenRoomsUC_def n run_ok attempt_ok Let_def split: if_splits sum.splits)
    then show ?thesis
    proof cases
      case 1
      then show ?thesis using b page_length [of l'] by (auto dest: page_mem)
    next
      case 2
      then show ?thesis using b ListOpen_rows by fastforce
    qed
  qed
  then show "length rooms \<le> 200" "\<forall>r \<in> set rooms. su_Status r = RoomOpen" using b by auto
qed

text \<open>C37: what a listing holds.  Whatever the query parameters, those that wrap at 32 bits included, a successful
  \<open>GET /rooms\<close> answers 200 with at most 200 rooms, all of them open, from the cache or from the database.\<close>

theorem listings_are_bounded:
  assumes "ListRoomsHandler X r rec w = (resp, rec', w')" and "rx_Body resp = roomListResponse rooms src"
  shows "rx_Status resp = 200 \<and> length rooms \<le> 200 \<and> (\<forall>q \<in> set rooms. rn_Status q = ''open'')"
proof -
  obtain rs w1 where run: "ListOpenRoomsUC X (sint (queryInt r ''limit'')) (sint (queryInt r ''offset'')) w = (Inr (rs, src), w1)"
    and rooms: "rooms = map toRoomResponse rs" "rx_Status resp = 200"
    using assms by (auto simp: ListRoomsHandler_def respond_def writeError_def writeJSON_def http_status Let_def
        split: sum.splits prod.splits)
  with ListOpenRooms_rows [OF run] show ?thesis by (auto simp: toRoomResponse_def RoomOpen_def)
qed

definition sample_listing :: http_request where
  "sample_listing = \<lparr>rq_Method = ''GET'', rq_Pattern = ''/rooms'', rq_Param = [], rq_Query = [(''limit'', ''4294967295'')],
     rq_Authorization = [], rq_Body = []\<rparr>"

theorem listings_are_bounded_witness:
  "sint (queryInt sample_listing ''limit'') = -1 \<and>
   (\<exists>rooms src. rx_Body (fst (ListRoomsHandler sample_ext sample_listing \<lparr>ar_actorID = None, ar_errMsg = None\<rparr> (after betting_table))) =
      roomListResponse rooms src \<and> length rooms \<le> 200)"
proof -
  let ?run = "ListRoomsHandler sample_ext sample_listing \<lparr>ar_actorID = None, ar_errMsg = None\<rparr> (after betting_table)"
  have q: "sint (queryInt sample_listing ''limit'') = -1" by code_simp
  have "(case rx_Body (fst ?run) of roomListResponse rooms src \<Rightarrow> True | _ \<Rightarrow> False)"
    unfolding after_table by code_simp
  then obtain rooms src where b: "rx_Body (fst ?run) = roomListResponse rooms src" by (auto split: response_body.splits)
  obtain resp rec' w' where run: "?run = (resp, rec', w')" by (cases ?run)
  have "length rooms \<le> 200" using listings_are_bounded [OF run] b run by simp
  with q b show ?thesis by blast
qed

end
