(* ===== verification/Server_Process.thy ===== *)
theory Server_Process
  imports Api_Server Server_Config
begin

text \<open>
  Start and end of the process: the migrations of \<open>internal/infrastructure/postgres/migrate.go\<close>, the object graph
  and startup recovery of \<open>internal/bootstrap/bootstrap.go\<close>, and \<open>run\<close> of \<open>cmd/api/main.go\<close>.

  What the migration library, the drivers and the signal handling answer are arguments: whether each of their
  calls succeeds, and how the time between start and shutdown ends.  The connections opened and closed, the
  recovery and the start of listening are recorded in order.  Configured durations are in nanoseconds,
  those of the model in microseconds, the resolution of the database.
\<close>

section \<open>Events of the process\<close>

datatype conn = MigrationDB | PgPool | RedisClient

datatype proc_event =
    Opened conn
  | Closed conn
  | RecoveryDone RecoverRoomsOutput
  | RecoveryFailed error
  | Listening string
  | EngineShutdown

section \<open>Migrations\<close>

datatype up_result = UpDone | UpNoChange | UpFailed

datatype version_result = AtVersion nat bool | NilVersion | VersionFailed

record migrate_ext =
  mx_source :: bool
  mx_open :: bool
  mx_driver :: bool
  mx_migrator :: bool
  mx_up :: up_result
  mx_version :: version_result
  mx_close :: bool

datatype migrate_error =
    OpenEmbedded | OpenConnection | InitDriver | InitMigrator | ApplyMigrations | ReadVersion | DirtySchema nat | CloseConnection

text \<open>From the migration driver to the schema version.\<close>

definition migrate_up :: "migrate_ext \<Rightarrow> nat \<times> migrate_error option" where
  "migrate_up mx =
     (if \<not> mx_driver mx then (0, Some InitDriver)
      else if \<not> mx_migrator mx then (0, Some InitMigrator)
      else if mx_up mx = UpFailed then (0, Some ApplyMigrations)
      else case mx_version mx of
        VersionFailed \<Rightarrow> (0, Some ReadVersion)
      | NilVersion \<Rightarrow> (0, None)
      | AtVersion v dirty \<Rightarrow> if dirty then (v, Some (DirtySchema v)) else (v, None))"

text \<open>The deferred close reports its own error only when there is no other.\<close>

definition Migrate :: "migrate_ext \<Rightarrow> proc_event list \<Rightarrow> (nat \<times> migrate_error option) \<times> proc_event list" where
  "Migrate mx tr =
     (if \<not> mx_source mx then ((0, Some OpenEmbedded), tr)
      else if \<not> mx_open mx then ((0, Some OpenConnection), tr)
      else
        let (v, err) = migrate_up mx in
        ((v, if \<not> mx_close mx \<and> err = None then Some CloseConnection else err), tr @ [Opened MigrationDB, Closed MigrationDB]))"

section \<open>Connections\<close>

record start_ext =
  sx_migrate :: migrate_ext
  sx_pool_parse :: bool
  sx_pool_new :: bool
  sx_pool_ping :: bool
  sx_redis_ping :: bool

datatype start_error = MigrationError migrate_error | ParseURL | OpenPool | PingPool | PingRedis

definition openPool :: "start_ext \<Rightarrow> proc_event list \<Rightarrow> start_error option \<times> proc_event list" where
  "openPool sx tr =
     (if \<not> sx_pool_parse sx then (Some ParseURL, tr)
      else if \<not> sx_pool_new sx then (Some OpenPool, tr)
      else if \<not> sx_pool_ping sx then (Some PingPool, tr @ [Opened PgPool, Closed PgPool])
      else (None, tr @ [Opened PgPool]))"

definition NewClient :: "start_ext \<Rightarrow> proc_event list \<Rightarrow> start_error option \<times> proc_event list" where
  "NewClient sx tr =
     (if \<not> sx_redis_ping sx then (Some PingRedis, tr @ [Opened RedisClient, Closed RedisClient])
      else (None, tr @ [Opened RedisClient]))"

section \<open>The application\<close>

definition micros :: "int \<Rightarrow> duration" where
  "micros d = d div 1000"

record 'r App =
  ap_Config :: Config
  ap_Router :: "http_request \<Rightarrow> 'r server \<Rightarrow> (response \<times> 'r server) option"
  ap_WSHandler :: "'r server HandlerOptions"
  ap_Hub :: Hub
  ap_Engine :: "'r Engine"
  ap_SchemaVersion :: nat

text \<open>Recovery: its failure is logged and the start goes on.\<close>

definition startup_recovery :: "'r ext \<Rightarrow> 'r world \<Rightarrow> proc_event \<times> 'r world" where
  "startup_recovery X w =
     (case RecoverRoomsUC X w of
        (Inl err, w1) \<Rightarrow> (RecoveryFailed err, w1)
      | (Inr recovery, w1) \<Rightarrow> (RecoveryDone recovery, w1))"

definition assemble :: "'r ext \<Rightarrow> (string \<Rightarrow> string option) \<Rightarrow> Config \<Rightarrow> nat \<Rightarrow> 'r world \<Rightarrow> 'r App" where
  "assemble X fl cfg version w =
     \<lparr>ap_Config = cfg, ap_Router = serve_http X (micros (cf_JWTTTL cfg)) fl,
      ap_WSHandler = casino_opts X (micros (cf_BettingWindow cfg)) fl, ap_Hub = NewHub,
      ap_Engine = NewEngine 0 w, ap_SchemaVersion = version\<rparr>"

definition Build :: "'r ext \<Rightarrow> (string \<Rightarrow> string option) \<Rightarrow> start_ext \<Rightarrow> Config \<Rightarrow> 'r world \<Rightarrow> proc_event list \<Rightarrow>
    (start_error + 'r App) \<times> proc_event list" where
  "Build X fl sx cfg w tr0 =
     (let ((version, merr), tr1) = (if cf_RunMigrations cfg then Migrate (sx_migrate sx) tr0 else ((0, None), tr0)) in
      case merr of
        Some e \<Rightarrow> (Inl (MigrationError e), tr1)
      | None \<Rightarrow>
          (case openPool sx tr1 of
             (Some e, tr2) \<Rightarrow> (Inl e, tr2)
           | (None, tr2) \<Rightarrow>
               (case NewClient sx tr2 of
                  (Some e, tr3) \<Rightarrow> (Inl e, tr3 @ [Closed PgPool])
                | (None, tr3) \<Rightarrow>
                    (case startup_recovery X w of
                       (ev, w1) \<Rightarrow> (Inr (assemble X fl cfg version w1), tr3 @ [ev])))))"

definition App_Close :: "proc_event list \<Rightarrow> proc_event list" where
  "App_Close tr = tr @ [Closed PgPool, Closed RedisClient]"

section \<open>The process\<close>

text \<open>
  How serving ends: the HTTP server returned, with an error or none, or a signal arrived and the graceful
  shutdown of the HTTP server finished in time or not.
\<close>

datatype ended = ServerReturned "string option" | Signalled bool

datatype run_error = ConfigError config_error | StartError start_error | ServeError string | GracefulShutdown

definition run :: "'r ext \<Rightarrow> fraction \<Rightarrow> (string \<Rightarrow> string option) \<Rightarrow> start_ext \<Rightarrow> ('r App \<Rightarrow> ended \<times> 'r Engine) \<Rightarrow> env \<Rightarrow> 'r world \<Rightarrow>
    run_error option \<times> 'r Engine option \<times> proc_event list" where
  "run X fr fl sx served env w =
     (case Load fr env of
        Inl e \<Rightarrow> (Some (ConfigError e), None, [])
      | Inr cfg \<Rightarrow>
          (case Build X fl sx cfg w [] of
             (Inl e, tr) \<Rightarrow> (Some (StartError e), None, tr)
           | (Inr app, tr) \<Rightarrow>
               let tr1 = tr @ [Listening (Addr cfg)] in
               (case served app of
                  (ServerReturned err, eng) \<Rightarrow> (map_option ServeError err, Some eng, App_Close tr1)
                | (Signalled intime, eng) \<Rightarrow>
                    if \<not> intime then (Some GracefulShutdown, Some eng, App_Close tr1)
                    else (None, Some (Shutdown eng), App_Close (tr1 @ [EngineShutdown])))))"

section \<open>The discipline of the process\<close>

text \<open>
  The discipline as an automaton over the open connections: a connection is opened once and closed once
  while open, and recovery, listening and stopping the engine need the database and Redis.
\<close>

fun track :: "proc_event list \<Rightarrow> conn set \<Rightarrow> conn set option" where
  "track [] S = Some S"
| "track (Opened c # tr) S = (if c \<in> S then None else track tr (insert c S))"
| "track (Closed c # tr) S = (if c \<in> S then track tr (S - {c}) else None)"
| "track (_ # tr) S = (if PgPool \<in> S \<and> RedisClient \<in> S then track tr S else None)"

lemma track_append [simp]: "track (tr @ tr') S = Option.bind (track tr S) (track tr')"
  by (induction tr S rule: track.induct) auto

lemma Migrate_track: "Migrate mx tr = (res, tr') \<Longrightarrow> track tr {} = Some {} \<Longrightarrow> track tr' {} = Some {}"
  by (auto simp: Migrate_def split: if_splits prod.splits)

lemma openPool_track:
  "openPool sx tr = (res, tr') \<Longrightarrow> track tr {} = Some {} \<Longrightarrow> track tr' {} = Some (if res = None then {PgPool} else {})"
  by (auto simp: openPool_def split: if_splits)

lemma NewClient_track:
  "NewClient sx tr = (res, tr') \<Longrightarrow> track tr {} = Some {PgPool} \<Longrightarrow>
     track tr' {} = Some (if res = None then {PgPool, RedisClient} else {PgPool})"
  by (auto simp: NewClient_def split: if_splits)

lemma startup_recovery_event:
  "startup_recovery X w = (ev, w') \<Longrightarrow> (\<exists>out. ev = RecoveryDone out) \<or> (\<exists>err. ev = RecoveryFailed err)"
  by (auto simp: startup_recovery_def split: prod.splits sum.splits)

lemma Build_track:
  assumes "Build X fl sx cfg w tr = (res, tr')" and tr: "track tr {} = Some {}"
  shows "track tr' {} = Some (if is_ok res then {PgPool, RedisClient} else {})"
proof -
  obtain v merr tr1 where m: "(if cf_RunMigrations cfg then Migrate (sx_migrate sx) tr else ((0, None), tr)) = ((v, merr), tr1)"
    by (metis prod.exhaust)
  then have tr1: "track tr1 {} = Some {}" using tr by (auto dest: Migrate_track split: if_splits)
  show ?thesis
  proof (cases merr)
    case (Some e)
    then show ?thesis using assms m tr1 by (auto simp: Build_def is_ok_iff)
  next
    case None
    obtain p tr2 where p: "openPool sx tr1 = (p, tr2)" by fastforce
    obtain q tr3 where q: "NewClient sx tr2 = (q, tr3)" by fastforce
    obtain ev w1 where ev: "startup_recovery X w = (ev, w1)" by fastforce
    note b = assms(1) [unfolded Build_def m Let_def prod.case None option.case p]
    show ?thesis
      using b openPool_track [OF p tr1] NewClient_track [OF q] startup_recovery_event [OF ev]
      by (cases p; cases q) (auto simp: is_ok_iff q ev)
  qed
qed

lemma Build_ok:
  assumes "Build X fl sx cfg w tr = (Inr app, tr')"
  obtains ev w1 version tr3 where "startup_recovery X w = (ev, w1)" and "tr' = tr3 @ [ev]" and "app = assemble X fl cfg version w1"
  using assms by (auto simp: Build_def Let_def split: prod.splits option.splits)

lemma Build_events:
  assumes "Build X fl sx cfg w [] = (res, tr)"
  shows "EngineShutdown \<notin> set tr" and "Listening a \<notin> set tr"
  using assms
  by (auto simp: Build_def Migrate_def openPool_def NewClient_def Let_def split: prod.splits option.splits if_splits
      dest: startup_recovery_event)

lemma Shutdown_stops: "en_stopped (Shutdown e)"
  using stops_heap [of "en_loops e" "e\<lparr>en_stopped := True\<rparr>"] by (simp add: Shutdown_def)

lemma run_cases [consumes 1, case_names config start served]:
  assumes "run X fr fl sx served env w = (err, eng, tr)"
  obtains e where "Load fr env = Inl e" "err = Some (ConfigError e)" "eng = None" "tr = []"
    | cfg e where "Load fr env = Inr cfg" "Build X fl sx cfg w [] = (Inl e, tr)" "err = Some (StartError e)" "eng = None"
    | cfg app tr0 end' eng0 where "Load fr env = Inr cfg" "Build X fl sx cfg w [] = (Inr app, tr0)" "served app = (end', eng0)"
        "tr = tr0 @ [Listening (Addr cfg)] @ (if end' = Signalled True then [EngineShutdown] else []) @ [Closed PgPool, Closed RedisClient]"
        "eng = Some (if end' = Signalled True then Shutdown eng0 else eng0)"
        "err = (case end' of ServerReturned e \<Rightarrow> map_option ServeError e | Signalled intime \<Rightarrow> if intime then None else Some GracefulShutdown)"
  using assms
  by (auto simp: run_def App_Close_def Let_def split: sum.splits prod.splits ended.splits if_splits)

text \<open>C35: the process releases what it opens.  Whatever the environment holds, whichever call fails and however serving
  ends, every connection is opened once and closed once, in this order, and the process listens and stops its
  engine only while the database and Redis are connected and right after recovery was attempted.\<close>

theorem process_releases_connections:
  assumes "run X fr fl sx served env w = (err, eng, tr)"
  shows "track tr {} = Some {} \<and>
    (\<forall>a. Listening a \<in> set tr \<longrightarrow>
      (\<exists>pre ev post. tr = pre @ [ev, Listening a] @ post \<and> ((\<exists>out. ev = RecoveryDone out) \<or> (\<exists>e. ev = RecoveryFailed e))))"
  using assms
proof (cases rule: run_cases)
  case (served cfg app tr0 end' eng0)
  from served(2) obtain ev w1 tr3 where ev: "startup_recovery X w = (ev, w1)" "tr0 = tr3 @ [ev]" by (rule Build_ok)
  have "track tr0 {} = Some {PgPool, RedisClient}" using Build_track [OF served(2)] by (simp add: is_ok_iff)
  then have t: "track tr {} = Some {}" unfolding served(4) by (auto simp: insert_Diff_if)
  have l: "a = Addr cfg" if "Listening a \<in> set tr" for a
    using that Build_events(2) [OF served(2)] unfolding served(4) by (auto split: if_splits)
  obtain post where "tr = tr3 @ [ev, Listening (Addr cfg)] @ post" unfolding served(4) ev(2) by simp
  with t l startup_recovery_event [OF ev(1)] show ?thesis by blast
qed (auto dest: Build_track Build_events simp: is_ok_def)

definition sample_start :: start_ext where
  "sample_start =
     \<lparr>sx_migrate = \<lparr>mx_source = True, mx_open = True, mx_driver = True, mx_migrator = True, mx_up = UpNoChange,
        mx_version = AtVersion 1 False, mx_close = True\<rparr>,
      sx_pool_parse = True, sx_pool_new = True, sx_pool_ping = True, sx_redis_ping = True\<rparr>"

definition sample_run :: "bool \<Rightarrow> run_error option \<times> redis_state Engine option \<times> proc_event list" where
  "sample_run intime = run sample_ext (\<lambda>f u. 0) Some sample_start (\<lambda>app. (Signalled intime, ap_Engine app)) [(''JWT_SECRET'', ''s'')] (after betting_table)"

lemma sample_run_facts: "fst (sample_run True) = None" "fst (sample_run False) = Some GracefulShutdown"
  "snd (snd (sample_run True)) = [Opened MigrationDB, Closed MigrationDB, Opened PgPool, Opened RedisClient,
     RecoveryDone \<lparr>ro_RoomsFound = 1, ro_RoomsClosed = 1, ro_Failures = 0\<rparr>, Listening '':8080'', EngineShutdown, Closed PgPool, Closed RedisClient]"
  unfolding sample_run_def after_table by code_simp+

theorem process_releases_connections_witness:
  "track (snd (snd (sample_run True))) {} = Some {} \<and> Listening '':8080'' \<in> set (snd (snd (sample_run True)))"
proof -
  obtain err eng tr where r: "sample_run True = (err, eng, tr)" by (cases "sample_run True")
  from process_releases_connections [OF r [unfolded sample_run_def]] have "track tr {} = Some {}" by blast
  with r sample_run_facts(3) show ?thesis by simp
qed

section \<open>Ready to serve\<close>

text \<open>C13: a started server is ready.  When the start succeeds on a database that earlier runs left behind, the new
  engine has no loops and is not stopped, its world is one the use cases reach, so balances reconcile and the games are
  well-formed, no socket is connected; and when recovery reports as many closed rooms as found, no room is active, so that the
  engine starts in an initial state of its own theorems.\<close>

theorem started_server_is_ready:
  assumes u: "uuid_canonical X" and w: "reach api_init (api_step X) w" and b: "Build X fl sx cfg w [] = (Inr app, tr)"
  shows "Rooms (ap_Engine app) = 0 \<and> \<not> en_stopped (ap_Engine app) \<and> reach api_init (api_step X) (en_world (ap_Engine app)) \<and>
    hb_clients (ap_Hub app) = [] \<and>
    (\<forall>out. last tr = RecoveryDone out \<and> ro_RoomsClosed out = ro_RoomsFound out \<longrightarrow> engine_init X (ap_Engine app))"
proof -
  from b obtain ev w1 version tr3 where ev: "startup_recovery X w = (ev, w1)" and tr: "tr = tr3 @ [ev]"
    and app: "app = assemble X fl cfg version w1" by (rule Build_ok)
  have ok: "play_ok X (w_db w)" "w_tx w = NoTx" using casino.reach_inv [OF w] u by (simp_all add: system_ok_def)
  obtain res where rec: "RecoverRoomsUC X w = (res, w1)" using ev by (auto simp: startup_recovery_def split: prod.splits sum.splits)
  have "api_step X w w1" using api_runs_serve [of X 0 0 Recover_req "RecoverRoomsUC X"] rec by (auto simp: api_runs_def)
  with w have reach1: "reach api_init (api_step X) w1" by (rule reach.reach_step)
  have "engine_init X (ap_Engine app)" if "last tr = RecoveryDone out" "ro_RoomsClosed out = ro_RoomsFound out" for out
  proof -
    have "res = Inr out" using ev rec that(1) tr by (auto simp: startup_recovery_def split: sum.splits)
    then have "active_ids (w_db w1) = {}" using RecoverRooms_effect(3) [OF u ok] rec that(2) by blast
    then show ?thesis using reach1 by (auto simp: engine_init_def app assemble_def)
  qed
  with reach1 show ?thesis by (simp add: app assemble_def NewEngine_def Rooms_def NewHub_def)
qed

theorem started_server_is_ready_witness:
  "\<exists>app tr. Build sample_ext Some sample_start (projr (Load (\<lambda>f u. 0) [(''JWT_SECRET'', ''s'')])) (after betting_table) [] = (Inr app, tr) \<and>
     engine_init sample_ext (ap_Engine app)"
proof -
  let ?b = "Build sample_ext Some sample_start (projr (Load (\<lambda>f u. 0) [(''JWT_SECRET'', ''s'')])) (after betting_table) []"
  have "is_ok (fst ?b)" "last (snd ?b) = RecoveryDone \<lparr>ro_RoomsFound = 1, ro_RoomsClosed = 1, ro_Failures = 0\<rparr>"
    unfolding after_table by code_simp+
  then obtain app tr where b: "?b = (Inr app, tr)" and l: "last tr = RecoveryDone \<lparr>ro_RoomsFound = 1, ro_RoomsClosed = 1, ro_Failures = 0\<rparr>"
    by (cases ?b) (auto simp: is_ok_iff)
  from started_server_is_ready [OF sample_uuid after_reach b] l have "engine_init sample_ext (ap_Engine app)" by simp
  with b show ?thesis by blast
qed

text \<open>C36: which shutdowns stop the engine.  After a signal the engine is told to stop exactly when the HTTP server finished its own
  shutdown in time; then the process ends without an error.  In every other case, a late shutdown included, the engine is left as
  serving left it: its live rounds are neither settled nor refunded by this process.\<close>

theorem engine_stops_only_after_a_timely_shutdown:
  assumes "run X fr fl sx served env w = (err, Some eng, tr)"
  shows "\<exists>app end' eng0. served app = (end', eng0) \<and> (EngineShutdown \<in> set tr \<longleftrightarrow> end' = Signalled True) \<and>
    (end' = Signalled True \<longrightarrow> eng = Shutdown eng0 \<and> en_stopped eng \<and> err = None) \<and>
    (end' = Signalled False \<longrightarrow> eng = eng0 \<and> err = Some GracefulShutdown) \<and> (\<forall>e. end' = ServerReturned e \<longrightarrow> eng = eng0)"
  using assms
proof (cases rule: run_cases)
  case (served cfg app tr0 end' eng0)
  have "EngineShutdown \<in> set tr \<longleftrightarrow> end' = Signalled True" using Build_events(1) [OF served(2)] unfolding served(4) by auto
  with served(3,5,6) show ?thesis
    by (intro exI [of _ app] exI [of _ end'] exI [of _ eng0]) (auto simp: Shutdown_stops split: if_splits)
qed simp_all

theorem engine_stops_only_after_a_timely_shutdown_witness:
  "(\<exists>eng. fst (snd (sample_run True)) = Some eng \<and> en_stopped eng) \<and> EngineShutdown \<notin> set (snd (snd (sample_run False)))"
proof -
  have s: "\<exists>eng tr. sample_run b = (fst (sample_run b), Some eng, tr)" if "fst (sample_run b) \<in> {None, Some GracefulShutdown}" for b
  proof -
    obtain err eng tr where r: "sample_run b = (err, eng, tr)" by (cases "sample_run b")
    from r [unfolded sample_run_def] that r show ?thesis by (cases rule: run_cases) auto
  qed
  obtain err eng tr err' eng' tr' where t: "sample_run True = (err, Some eng, tr)" and f: "sample_run False = (err', Some eng', tr')"
    using s [of True] s [of False] sample_run_facts(1,2) by auto
  have "en_stopped eng" using engine_stops_only_after_a_timely_shutdown [OF t [unfolded sample_run_def]] by auto
  moreover have "EngineShutdown \<notin> set tr'" using engine_stops_only_after_a_timely_shutdown [OF f [unfolded sample_run_def]] by auto
  ultimately show ?thesis using t f by simp
qed

end
