(* ===== verification/Spec2Isabelle.thy ===== *)
theory Spec2Isabelle
  imports Api_Properties Server_Process
begin

text \<open>
  This development verifies the dice casino of the repository: a Go server on which players open an account,
  move money in and out of a wallet, sit at tables and bet on whether the sum of two dice is even or odd.

  \<^bold>\<open>The program.\<close>  A domain layer (players, bets, rounds, rooms) holds the rules.  Use cases load aggregates through
  repositories on PostgreSQL inside one transaction, run the domain operation and write back; Redis caches the list of open rooms,
  binds a player to a room and holds the mutex of joining.  A round engine runs one goroutine per room, which starts rounds,
  takes bets, settles on its alarm and aborts with refunds when the process stops.  A REST interface and a WebSocket
  interface call the use cases and the engine; the hub sends events to the sockets; each request of both channels
  leaves a row in an append-only audit table.  The process loads its configuration, migrates the schema, recovers
  rooms of an earlier run, serves, and shuts down on a signal.

  \<^bold>\<open>Theories and sources.\<close>

  \<^item> \<open>Cassino_Prelude\<close>: Go's 64-bit and 32-bit integers as words, times and durations in microseconds (the resolution of the
    database), strings as byte lists with \<open>strings.TrimSpace\<close> and \<open>strings.ToLower\<close>, and the locales \<open>step_invariant\<close> and \<open>step_ranked\<close>
    of invariants and of quantities that never decrease along the runs of a step relation.
    \<open>Cassino_Errors\<close>: the sentinel errors of all packages as one datatype.
  \<^item> \<open>Domain_Player\<close> (\<open>internal/domain/player\<close>), \<open>Domain_Payout\<close>, \<open>Domain_Bet\<close>, \<open>Domain_Round\<close>, \<open>Domain_Room\<close> (\<open>internal/domain/game\<close>): a record
    per struct and a function per method; a pointer that may be nil is an option, a method that mutates returns the new value, a
    Go map is an association list because the code sorts what it reads from it.
  \<^item> \<open>Pg_Schema\<close>, \<open>Pg_Queries\<close>, \<open>Pg_Integrity\<close> (\<open>db/migrations\<close>, \<open>postgres/sqlcgen\<close>): tables as lists of rows in insertion order,
    each generated statement with the constraints it can violate.  \<open>Pg_Repos\<close> (\<open>internal/infrastructure/postgres\<close>),
    \<open>Redis_Stores\<close> (\<open>internal/infrastructure/redis\<close>).
  \<^item> \<open>World\<close>: the state a use case runs against and its monad; \<open>WithinTx\<close> is \<open>tx.go\<close>.  \<open>Prog_Logic\<close>: \<open>preserves\<close>, \<open>keeps\<close>,
    \<open>atomic\<close> and their rules.  \<open>Wallet_Ledger\<close>: the locale \<open>wallet_store\<close>, the contract of the three
    repository calls that move money, interpreted on the PostgreSQL repositories.
  \<^item> \<open>App_Wallet\<close>, \<open>App_Rooms\<close>, \<open>App_Rounds\<close>, \<open>App_Auth\<close>, \<open>App_Ledger\<close> (\<open>internal/application\<close>): the use cases, and the wallet
    invariant across them.
  \<^item> \<open>Game_Store\<close>, \<open>Game_Integrity\<close>, \<open>Game_Invariant\<close>, \<open>Game_Seats\<close>, \<open>Game_Rounds\<close>, \<open>Game_Settlement\<close>: the abstraction \<open>abs_room\<close> from
    rows to \<open>Room\<close> aggregates, and that each transaction writes the image of the domain operation.  \<open>Game_Recovery\<close>, \<open>Settle_Errors\<close>:
    the startup pass and what the errors of a settlement tell.  \<open>Cassino_System\<close>: any sequence of requests.
  \<^item> \<open>Game_Engine\<close>, \<open>Engine_Loops\<close>, \<open>Engine_System\<close>, \<open>Engine_Alarms\<close> (\<open>engine.go\<close>, \<open>timer.go\<close>, \<open>notifier.go\<close>): the round engine as a step
    relation on a heap of loops and a list of callers.
  \<^item> \<open>Go_Json\<close> (what is used of \<open>encoding/json\<close> and \<open>strconv\<close>), \<open>Audit_Trail\<close> (\<open>internal/domain/audit\<close>, the audit repository, table and redaction),
    \<open>Api_Errors\<close> (both \<open>errors.go\<close> of the interfaces), \<open>Rest_Api\<close> (\<open>internal/interfaces/rest\<close>).
  \<^item> \<open>Ws_Protocol\<close>, \<open>Ws_Hub\<close>, \<open>Hub_Safety\<close>, \<open>Ws_Session\<close>, \<open>Ws_Gateway\<close> (\<open>internal/interfaces/ws\<close>): frames, sockets and hub, the interleavings
    of their goroutines, the sessions from the bytes of a frame.  The locale \<open>session_layer\<close> states what the hub needs of
    the sessions; it is interpreted on the sessions of the program.
  \<^item> \<open>Api_Server\<close>, \<open>Api_Properties\<close>: both channels on one database.  \<open>Server_Config\<close> (\<open>config.go\<close>), \<open>Server_Process\<close> (\<open>bootstrap.go\<close>,
    \<open>migrate.go\<close>, \<open>main.go\<close>).  \<open>Sample_World\<close>, \<open>Sample_Run\<close>: the concrete environment and run of the witnesses.

  \<^bold>\<open>What is shown.\<close>

  \<^item> Money: in every reachable world, whatever failed on the way, balances are non-negative and equal the
    ledger; deposits, withdrawals, stakes, settlements and refunds move exactly what they should; a failed request changes
    nothing; refunds happen once; the payout rule rounds down and its overflow bound is exact.
  \<^item> Games: the domain invariant and lifecycle of rooms and rounds, and that the stored tables always represent
    well-formed aggregates; the schema constraints survive every statement.
  \<^item> Engine: one loop per room, an alarm for every live round, termination of its goroutines and of a shutdown, and the
    refinement of the use cases by every interleaving.
  \<^item> Interfaces: balances reach only their owner, one socket per player, the order and the payload types of the frames, tokens
    before access, one redacted audit row per request in a table that only grows, bounded listings, the differences between the
    error codes of the channels, and the refinement of the use cases by the server as a whole.
  \<^item> Process: a loaded configuration is valid, connections are released on every path, recovery comes before
    listening and leaves an initial state of the engine, and which shutdowns stop the engine.

  \<^bold>\<open>Bounds and termination.\<close>  There is no fuel.  The parsers and loops recurse on their input; the recursion of
  \<open>duration_parts\<close> and of the action lists of the hub is shown to shrink.  The retries of the join mutex are the finite number the
  code has.

  \<^bold>\<open>External code and hypotheses.\<close>  The record \<open>ext\<close> holds what is not in the repository: UUID parsing and generation, clocks, when
  a database call fails and how a commit ends, \<open>crypto/rand\<close>, Redis, bcrypt, the JWT library.  Theorems that need it state that
  parsing a canonical UUID gives it back (\<open>uuid_canonical\<close>), that draws are below their bound (\<open>rand_bounded\<close>), or that no commit
  loses its acknowledgement.  The formatting of floating-point numbers and the fractions of durations are arguments.  Transactions
  are serial: the row locks of the code make those on one aggregate so, and a statement or a commit may fail anywhere.
  A critical section of the hub, and a use case run by a loop of the engine, is one step.

  \<^bold>\<open>Not modelled.\<close>  The interfaces of \<open>ports.go\<close>, whose methods are the definitions of the adapters; the embedding of the migration files;
  the smoke script; log lines, pool limits and timeouts, which have no effect on the state; the network and the libraries
  \<open>net/http\<close>, \<open>chi\<close> and \<open>gorilla/websocket\<close>, of which the model takes the matched route, the bytes of a body or frame and whether
  a read or write succeeds; the replacement of invalid UTF-8 by \<open>encoding/json\<close>.
\<close>

section \<open>The reachable worlds\<close>

text \<open>
  C1: money.  In every world reachable from the empty database by any sequence of requests,
  whatever fails on the way, each player's balance is non-negative and equals the signed sum of
  the player's ledger entries, and nobody without an account has ledger entries.
\<close>

theorem wallets_always_reconcile:
  assumes "uuid_canonical X" and "reach api_init (api_step X) w"
  shows "(\<forall>p b. balance_of (w_db w) p = Some b \<longrightarrow> 0 \<le> b \<and> ledger_of (w_db w) p = b) \<and>
    (\<forall>p. balance_of (w_db w) p = None \<longrightarrow> ledger_of (w_db w) p = 0)"
proof -
  have "reconciles (balance_of (w_db w)) (ledger_of (w_db w))"
    using casino.reach_inv [OF assms(2)] assms(1) by (simp add: system_ok_def wallets_ok_def)
  then show ?thesis by (auto dest: reconciles_Some reconciles_None)
qed

theorem wallets_always_reconcile_witness:
  "balance_of (w_db (after betting_table)) ''i'' = Some 900 \<and> ledger_of (w_db (after betting_table)) ''i'' = 900"
proof -
  have "balance_of (w_db (after betting_table)) ''i'' = Some 900" unfolding after_table by code_simp
  then show ?thesis using wallets_always_reconcile [OF sample_uuid after_reach [of betting_table]] by blast
qed

text \<open>
  C2: tables.  In every reachable world each stored room, with its seats and its live round,
  is a well-formed aggregate with at most six seats and ten rounds, every stored round is
  well-formed, an active room has at most one round in its betting phase and that is the
  latest one, and no player has a seat in two active rooms.
\<close>

theorem stored_games_well_formed:
  assumes "uuid_canonical X" and "reach api_init (api_step X) w"
  shows "(\<forall>r \<in> set (db_rooms (w_db w)). wf_room (abs_room (w_db w) r) \<and> length (seats_of (w_db w) (mr_ID r)) \<le> 6 \<and>
       mr_CurrentRound r \<le> 10) \<and>
    (\<forall>row \<in> set (db_rounds (w_db w)). wf_round (abs_round (w_db w) row)) \<and>
    (\<forall>r \<in> set (db_rooms (w_db w)). mr_Status r \<noteq> RoomClosed \<longrightarrow>
       (\<forall>row \<in> set (db_rounds (w_db w)). dr_RoomID row = mr_ID r \<longrightarrow> dr_Status row = RoundBetting \<longrightarrow>
          current_row (w_db w) (mr_ID r) = Some row)) \<and>
    (\<forall>p. \<forall>i \<in> set (active_rooms (w_db w) p). \<forall>j \<in> set (active_rooms (w_db w) p). i = j)"
proof -
  let ?d = "w_db w"
  have "play_ok X ?d" using casino.reach_inv [OF assms(2)] assms(1) by (simp add: system_ok_def)
  then have sch: "schema_ok ?d" and g: "game_ok ?d" by (simp_all add: play_ok_def store_ok_def)
  have "current_row ?d (mr_ID r) = Some row"
    if "r \<in> set (db_rooms ?d)" "mr_Status r \<noteq> RoomClosed" "row \<in> set (db_rounds ?d)" "dr_RoomID row = mr_ID r"
      "dr_Status row = RoundBetting" for r row
    by (rule live_row_unique [OF sch g that])
  moreover have "wf_room (abs_room ?d r) \<and> length (seats_of ?d (mr_ID r)) \<le> 6 \<and> mr_CurrentRound r \<le> 10"
    if "r \<in> set (db_rooms ?d)" for r
  proof -
    have wf: "wf_room (abs_room ?d r)" by (rule game_ok_wf [OF g that])
    then have "PlayerCount (abs_room ?d r) \<le> MaxPlayers" "rm_CurrentRound (abs_room ?d r) \<le> MaxRounds"
      unfolding wf_room_def by blast+
    with wf show ?thesis by (simp add: PlayerCount_def length_seat_map MaxPlayers_def MaxRounds_def)
  qed
  ultimately show ?thesis using g unfolding game_ok_def rounds_ok_def one_room_def by blast
qed

theorem stored_games_well_formed_witness:
  "length (db_rooms (w_db (after betting_table))) = 1 \<and>
   list_all (\<lambda>r. wf_room (abs_room (w_db (after betting_table)) r)) (db_rooms (w_db (after betting_table)))"
proof -
  have "length (db_rooms (w_db (after betting_table))) = 1" unfolding after_table by code_simp
  then show ?thesis
    using stored_games_well_formed [OF sample_uuid after_reach [of betting_table]] unfolding list_all_iff by blast
qed

text \<open>
  C6: atomicity.  A request that reports an error left the database exactly as it was, at
  whatever call the error arose, as long as no commit is acknowledged wrongly.
\<close>

theorem failed_requests_change_nothing:
  assumes "serve X ttl window req w = (Inl e, w')" and "w_tx w = NoTx" and "\<forall>n. x_commit X n \<noteq> AckLost"
  shows "w_db w' = w_db w"
  using serve_atomic assms unfolding atomic_def by blast

theorem failed_requests_change_nothing_witness:
  "w_db (snd (serve sample_ext Hour (15 * Second) (Withdraw_req ''i'' 5000) (after [Register_req ''a@b.c'' ''password'']))) =
   w_db (after [Register_req ''a@b.c'' ''password''])"
proof -
  let ?w = "after [Register_req ''a@b.c'' ''password'']"
  have "fst (serve sample_ext Hour (15 * Second) (Withdraw_req ''i'' 5000) ?w) = Inl (PlayerErr ErrInsufficientBalance)"
    by code_simp
  then obtain w' where run: "serve sample_ext Hour (15 * Second) (Withdraw_req ''i'' 5000) ?w = (Inl (PlayerErr ErrInsufficientBalance), w')"
    by (metis prod.collapse)
  have "w_db w' = w_db ?w"
    by (rule failed_requests_change_nothing [OF run after_ok(1)]) (simp add: sample_ext_def)
  with run show ?thesis by simp
qed

section \<open>Bets, settlement and refunds\<close>

text \<open>
  C5: placing a bet.  A bet that is accepted was placed by a seated player inside the betting
  window of the room's live round, is the player's first in that round, and was covered by the
  balance; exactly the stake left the balance, with one ledger entry of that amount, and exactly one
  bet row was added.
\<close>

theorem PlaceBet_takes_the_stake:
  assumes u: "uuid_canonical X" and ok: "play_ok X (w_db w)" and tx: "w_tx w = NoTx"
    and run: "PlaceBetUC X rm p ch a w = (Inr out, w')"
  shows "\<exists>r row old bid now. r \<in> set (db_rooms (w_db w)) \<and> x_uuid X rm = Some (mr_ID r) \<and>
    rm_round (abs_room (w_db w) r) = Some (abs_round (w_db w) row) \<and> HasPlayer (abs_room (w_db w) r) p \<and>
    BettingOpen (abs_round (w_db w) row) now \<and> \<not> HasBet (abs_round (w_db w) row) p \<and>
    balance_of (w_db w) p = Some old \<and> 0 < sint a \<and> sint a \<le> old \<and>
    balance_of (w_db w') = (balance_of (w_db w))(p \<mapsto> old - sint a) \<and>
    ledger_of (w_db w') = (ledger_of (w_db w))(p := ledger_of (w_db w) p - sint a) \<and>
    dom_bets (w_db w') = dom_bets (w_db w) @ [\<lparr>bt_ID = bid, bt_RoundID = dr_ID row, bt_PlayerID = p, bt_Choice = ch,
       bt_Amount = a, bt_Won = None, bt_Payout = None, bt_PlacedAt = now\<rparr>]"
proof -
  let ?w = "w\<lparr>w_calls := Suc (w_calls w), w_tx := InTx\<rparr>"
  from run have "WithinTx X (PlaceBet_tx X rm p ch a) w = (Inr out, w')"
    by (auto simp: PlaceBetUC_def fail_def split: if_splits)
  from this tx obtain w2 where t: "PlaceBet_tx X rm p ch a ?w = (Inr out, w2)" and w2: "w_db w' = w_db w2"
    by (rule WithinTx_ok) simp
  have s: "store_ok X (w_db ?w)" and g: "game_ok (w_db ?w)" using ok by (simp_all add: play_ok_def)
  from u t s show ?thesis
  proof (rule PlaceBet_tx_ok)
    fix r and row :: RoundRow and bid now rd and w1 :: "'a world"
    let ?b = "\<lparr>br_ID = bid, br_RoundID = dr_ID row, br_PlayerID = p, br_Choice = ch, br_Amount = a, br_Won = None,
      br_Payout = None, br_PlacedAt = now, br_SettledAt = None\<rparr>"
    assume r: "r \<in> set (db_rooms (w_db ?w))" "x_uuid X rm = Some (mr_ID r)"
      and cur: "current_row (w_db ?w) (mr_ID r) = Some row" "dr_Status row \<noteq> RoundSettled"
      and has: "HasPlayer (abs_room (w_db ?w) r) p" and pos: "0 < sint a"
      and pb: "Round_PlaceBet (abs_round (w_db ?w) row) (Some (toDomainBet ?b)) now = Inr rd"
      and w1: "w_db w1 = (w_db ?w)\<lparr>db_bets := db_bets (w_db ?w) @ [?b]\<rparr>" and mv: "pg.moved p (- sint a) w1 w2"
    have row: "row \<in> set (db_rounds (w_db ?w))" using current_row_mem [OF cur(1)] by simp
    have "wf_round (abs_round (w_db ?w) row)" using game_okD(2) [OF g] row unfolding rounds_ok_def by blast
    then have "dr_Status row = RoundBetting" using wf_round_status cur(2) by fastforce
    then have win: "BettingOpen (abs_round (w_db w) row) now" "\<not> HasBet (abs_round (w_db w) row) p"
      using pb by (simp_all add: Round_PlaceBet_ok BettingOpen_def)
    have same: "balance_of (w_db w1) = balance_of (w_db w)" "ledger_of (w_db w1) = ledger_of (w_db w)"
      by (auto simp: w1 balance_of_def ledger_of_def)
    from mv obtain old where old: "balance_of (w_db w) p = Some old" "sint a \<le> old"
      "balance_of (w_db w2) = (balance_of (w_db w))(p \<mapsto> old - sint a)"
      "ledger_of (w_db w2) = (ledger_of (w_db w))(p := ledger_of (w_db w) p - sint a)"
      and b: "besides (w_db w2) = besides (w_db w1)" by (auto simp: pg.moved_def same)
    have bets: "dom_bets (w_db w2) = dom_bets (w_db w) @ [\<lparr>bt_ID = bid, bt_RoundID = dr_ID row, bt_PlayerID = p, bt_Choice = ch,
       bt_Amount = a, bt_Won = None, bt_Payout = None, bt_PlacedAt = now\<rparr>]"
      using besides_game [OF b] by (simp add: w1 dom_bets_def toDomainBet_def)
    have live: "rm_round (abs_room (w_db w) r) = Some (abs_round (w_db w) row)" using cur by (simp add: abs_room_round)
    from r live has win old pos bets show ?thesis unfolding w2
      by (intro exI [of _ r] exI [of _ row] exI [of _ old] exI [of _ bid] exI [of _ now]) simp
  qed
qed

theorem PlaceBet_takes_the_stake_witness:
  "balance_of (w_db (after betting_table)) ''i'' = Some 900 \<and> length (dom_bets (w_db (after betting_table))) = 1"
proof -
  let ?w = "after (take 4 betting_table)"
  have "is_ok (fst (PlaceBetUC sample_ext ''iii'' ''i'' ChoiceOdd 100 ?w))" unfolding after_table by code_simp
  then obtain out w' where run: "PlaceBetUC sample_ext ''iii'' ''i'' ChoiceOdd 100 ?w = (Inr out, w')"
    by (metis is_ok_iff prod.collapse)
  have b: "balance_of (w_db ?w) ''i'' = Some 1000" "dom_bets (w_db ?w) = []" unfolding after_table by code_simp+
  have w': "after betting_table = w'"
    using run by (simp add: after_def betting_table_def done_with_def bnd_def ret_def)
  show ?thesis using PlaceBet_takes_the_stake [OF sample_uuid after_ok(2,1) run] b unfolding w' by auto
qed

text \<open>
  C3: settlement.  A settlement that succeeds found a live round, resolved every bet of it
  against a legal throw and no bet of another round, and credited each player exactly the payouts of
  that player's winning bets, in the balance and in the ledger; the results it reports are
  those of the bets in placement order, and the round it leaves is the settled round of the domain.
\<close>

theorem SettleRound_pays_exactly:
  assumes u: "uuid_canonical X" and ok: "play_ok X (w_db w)" and tx: "w_tx w = NoTx"
    and run: "SettleRoundUC X rm w = (Inr out, w')"
  shows "\<exists>r row oc now. r \<in> set (db_rooms (w_db w)) \<and> x_uuid X rm = Some (mr_ID r) \<and>
    rm_round (abs_room (w_db w) r) = Some (abs_round (w_db w) row) \<and> OutcomeOf (se_Die1 out) (se_Die2 out) = Inr oc \<and>
    se_Results out = map (result_under oc) (Bets (abs_round (w_db w) row)) \<and>
    shifted (winnings oc (Bets (abs_round (w_db w) row))) (w_db w) (w_db w') \<and>
    dom_bets (w_db w') = map (\<lambda>b. if bt_RoundID b = dr_ID row then settled_as b oc else b) (dom_bets (w_db w)) \<and>
    (\<exists>row' \<in> set (db_rounds (w_db w')). abs_round (w_db w') row' = settled_round (abs_round (w_db w) row) (se_Die1 out) (se_Die2 out) oc now)"
proof -
  let ?w = "w\<lparr>w_calls := Suc (w_calls w), w_tx := InTx\<rparr>"
  from run have "bnd (WithinTx X (SettleRound_tx X rm)) (\<lambda>(out, summary).
      bnd (finalizeRoomCache X (se_RoomID out) summary (se_RoomClosed out) (se_Members out)) (\<lambda>_. ret out)) w = (Inr out, w')"
    by (auto simp: SettleRoundUC_def fail_def split: if_splits)
  from this tx off_db_finalizeRoomCache obtain sm w2 where t: "SettleRound_tx X rm ?w = (Inr (out, sm), w2)" and w2: "w_db w' = w_db w2"
    by (rule tx_then_cache)
  have s: "store_ok X (w_db ?w)" and g: "game_ok (w_db ?w)" using ok by (simp_all add: play_ok_def)
  from u t s g show ?thesis
  proof (rule SettleRound_tx_ok)
    fix r row d1 d2 oc now room db
    assume r: "r \<in> set (db_rooms (w_db ?w))" "x_uuid X rm = Some (mr_ID r)" and cur: "current_row (w_db ?w) (mr_ID r) = Some row"
      and st: "dr_Status row = RoundBetting" and oc: "OutcomeOf d1 d2 = Inr oc"
      and sg: "same_game ((w_db ?w)\<lparr>db_rounds := map (\<lambda>q. if q = row then settle_row d1 d2 oc now row else q) (db_rounds (w_db ?w))\<rparr>) db"
      and sh: "shifted (winnings oc (round_bets (w_db ?w) (dr_ID row))) (w_db ?w) db"
      and bets: "dom_bets db = map (\<lambda>c. if bt_RoundID c = dr_ID row then settled_as c oc else c) (dom_bets (w_db ?w))"
      and db: "w_db w2 = (if rm_Status room = RoomClosed
         then upd_room (mr_ID r) (\<lambda>r. r\<lparr>mr_Status := RoomClosed, mr_ClosedAt := rm_ClosedAt room\<rparr>) db else db)"
      and res: "se_Results (fst (out, sm)) = map (result_under oc) (round_bets (w_db ?w) (dr_ID row))"
      and dice: "se_Die1 (fst (out, sm)) = d1" "se_Die2 (fst (out, sm)) = d2"
    have same: "db_players (w_db w2) = db_players db" "db_transactions (w_db w2) = db_transactions db"
      "db_rounds (w_db w2) = db_rounds db" "dom_bets (w_db w2) = dom_bets db"
      by (simp_all add: db upd_room_def dom_bets_def)
    have sh2: "shifted (winnings oc (Bets (abs_round (w_db w) row))) (w_db w) (w_db w2)"
      using shifted_trans [OF sh shifted_same [OF same(1,2)]] by (simp add: Bets_abs)
    have bets2: "dom_bets (w_db w2) = map (\<lambda>c. if bt_RoundID c = dr_ID row then settled_as c oc else c) (dom_bets (w_db w))"
      using bets same by simp
    have "settle_row d1 d2 oc now row \<in> set (db_rounds (w_db w2))"
      using current_row_mem [OF cur] sg same by (auto simp: same_game_def image_iff)
    moreover have "abs_round (w_db w2) (settle_row d1 d2 oc now row) = settled_round (abs_round (w_db w) row) d1 d2 oc now"
      by (rule abs_round_settled(1) [OF bets2])
    moreover have "rm_round (abs_room (w_db w) r) = Some (abs_round (w_db w) row)" using cur st by (simp add: abs_room_round)
    ultimately show ?thesis
      using r oc res dice sh2 bets2 unfolding w2
      by (intro exI [of _ r] exI [of _ row] exI [of _ oc] exI [of _ now]) (auto simp: Bets_abs)
  qed
qed

text \<open>Reading the effect of a settlement off \<open>shifted\<close>.\<close>

lemma shifted_balance: "shifted f d d' \<Longrightarrow> balance_of d p = Some b \<Longrightarrow> balance_of d' p = Some (b + f p)"
  by (simp add: shifted_def)

theorem SettleRound_pays_exactly_witness:
  "\<exists>out w'. SettleRoundUC sample_ext ''iii'' (after betting_table) = (Inr out, w') \<and>
     OutcomeOf (se_Die1 out) (se_Die2 out) = Inr OutcomeOdd \<and> se_RoomClosed out = False \<and>
     (\<exists>oc. se_Results out = [result_under oc \<lparr>bt_ID = replicate 5 CHR ''i'', bt_RoundID = ''iiii'', bt_PlayerID = ''i'',
        bt_Choice = ChoiceOdd, bt_Amount = 100, bt_Won = None, bt_Payout = None, bt_PlacedAt = 4 * Second\<rparr>])"
proof -
  let ?w = "after betting_table"
  have "(case fst (SettleRoundUC sample_ext ''iii'' ?w) of Inl e \<Rightarrow> False
     | Inr out \<Rightarrow> OutcomeOf (se_Die1 out) (se_Die2 out) = Inr OutcomeOdd \<and> \<not> se_RoomClosed out)"
    unfolding after_table by code_simp
  then obtain out w' where run: "SettleRoundUC sample_ext ''iii'' ?w = (Inr out, w')"
    and o: "OutcomeOf (se_Die1 out) (se_Die2 out) = Inr OutcomeOdd" "\<not> se_RoomClosed out"
    by (cases "SettleRoundUC sample_ext ''iii'' ?w") (auto split: sum.splits)
  have rooms: "map (\<lambda>r. map_option Bets (rm_round (abs_room (w_db ?w) r))) (db_rooms (w_db ?w)) =
      [Some [\<lparr>bt_ID = replicate 5 CHR ''i'', bt_RoundID = ''iiii'', bt_PlayerID = ''i'',
        bt_Choice = ChoiceOdd, bt_Amount = 100, bt_Won = None, bt_Payout = None, bt_PlacedAt = 4 * Second\<rparr>]]" (is "_ = [Some [?b]]")
    unfolding after_table by code_simp
  from SettleRound_pays_exactly [OF sample_uuid after_ok(2,1) run] obtain r row oc where
    r: "r \<in> set (db_rooms (w_db ?w))" "rm_round (abs_room (w_db ?w) r) = Some (abs_round (w_db ?w) row)"
    and res: "se_Results out = map (result_under oc) (Bets (abs_round (w_db ?w) row))" by blast
  have "map_option Bets (rm_round (abs_room (w_db ?w) r)) \<in> set (map (\<lambda>r. map_option Bets (rm_round (abs_room (w_db ?w) r))) (db_rooms (w_db ?w)))"
    using r(1) by simp
  then have "Bets (abs_round (w_db ?w) row) = [?b]" unfolding rooms r(2) by simp
  with run o res show ?thesis by auto
qed



end
